theory Spec2Isabelle
  imports Complex_Main "HOL-Library.Monad_Syntax" "HOL-Library.AList"
begin

section \<open>Tensors and the TensorFlow primitives used by \<^verbatim>\<open>modules.py\<close>\<close>

text \<open>
  A tensor is a shape together with its entries, read by multi-index. Entries are
  modelled as exact real numbers, so \<^verbatim>\<open>tf.exp\<close> is the real exponential and sums do not
  round. An operation that TensorFlow rejects (rank too small, index out of range,
  incompatible shapes) returns \<open>None\<close>.
\<close>

record tensor =
  shape :: "nat list"
  entry :: "nat list \<Rightarrow> real"

definition valid_index :: "nat list \<Rightarrow> nat list \<Rightarrow> bool" where
  "valid_index s idx = list_all2 (<) idx s"

text \<open>Every operation builds its result with \<open>mk_tensor\<close>: entries outside the shape are 0.\<close>

definition mk_tensor :: "nat list \<Rightarrow> (nat list \<Rightarrow> real) \<Rightarrow> tensor" where
  "mk_tensor s f = \<lparr>shape = s, entry = (\<lambda>idx. if valid_index s idx then f idx else 0)\<rparr>"

definition vector :: "real list \<Rightarrow> tensor" where
  "vector xs = mk_tensor [length xs] (\<lambda>idx. xs ! hd idx)"

definition matrix :: "nat \<Rightarrow> real list list \<Rightarrow> tensor" where
  "matrix d rows = mk_tensor [length rows, d] (\<lambda>idx. rows ! hd idx ! hd (tl idx))"

definition tensor3 :: "nat \<Rightarrow> nat \<Rightarrow> real list list list \<Rightarrow> tensor" where
  "tensor3 h d rows =
     mk_tensor [length rows, h, d] (\<lambda>idx. rows ! hd idx ! hd (tl idx) ! hd (tl (tl idx)))"

text \<open>\<^verbatim>\<open>tf.gather(params, indices)\<close> along axis 0, for a rank-1 list of indices.\<close>

definition tf_gather :: "tensor \<Rightarrow> int list \<Rightarrow> tensor option" where
  "tf_gather params indices =
     (case shape params of
        [] \<Rightarrow> None
      | n # inner \<Rightarrow>
          if list_all (\<lambda>i. 0 \<le> i \<and> i < int n) indices
          then Some (mk_tensor (length indices # inner)
                 (\<lambda>idx. entry params (nat (indices ! hd idx) # tl idx)))
          else None)"

text \<open>The rows of segment \<open>s\<close>, in order. A negative segment id belongs to no segment.\<close>

definition segment_members :: "int list \<Rightarrow> nat \<Rightarrow> nat list" where
  "segment_members segment_ids s = filter (\<lambda>i. segment_ids ! i = int s) [0..<length segment_ids]"

type_synonym reducer = "tensor \<Rightarrow> int list \<Rightarrow> int \<Rightarrow> tensor option"

text \<open>\<^verbatim>\<open>tf.unsorted_segment_sum\<close>: an empty segment sums to 0.\<close>

definition tf_unsorted_segment_sum :: reducer where
  "tf_unsorted_segment_sum data segment_ids num_segments =
     (case shape data of
        [] \<Rightarrow> None
      | n # inner \<Rightarrow>
          if length segment_ids = n \<and> 0 \<le> num_segments \<and> list_all (\<lambda>i. i < num_segments) segment_ids
          then Some (mk_tensor (nat num_segments # inner)
                 (\<lambda>idx. sum_list (map (\<lambda>i. entry data (i # tl idx)) (segment_members segment_ids (hd idx)))))
          else None)"

text \<open>
  \<^verbatim>\<open>tf.unsorted_segment_max\<close>: an empty segment holds the lowest value of the element type,
  the parameter \<open>lowest\<close>.
\<close>

definition tf_unsorted_segment_max :: "real \<Rightarrow> reducer" where
  "tf_unsorted_segment_max lowest data segment_ids num_segments =
     (case shape data of
        [] \<Rightarrow> None
      | n # inner \<Rightarrow>
          if length segment_ids = n \<and> 0 \<le> num_segments \<and> list_all (\<lambda>i. i < num_segments) segment_ids
          then Some (mk_tensor (nat num_segments # inner)
                 (\<lambda>idx. case map (\<lambda>i. entry data (i # tl idx)) (segment_members segment_ids (hd idx)) of
                          [] \<Rightarrow> lowest
                        | m # ms \<Rightarrow> fold max ms m))
          else None)"

text \<open>Broadcasting of two shapes, read from the last axis (both lists reversed).\<close>

fun broadcast_dims :: "nat list \<Rightarrow> nat list \<Rightarrow> nat list option" where
  "broadcast_dims [] ys = Some ys"
| "broadcast_dims (x # xs) [] = Some (x # xs)"
| "broadcast_dims (x # xs) (y # ys) =
     (if x = y \<or> y = 1 then map_option ((#) x) (broadcast_dims xs ys)
      else if x = 1 then map_option ((#) y) (broadcast_dims xs ys)
      else None)"

text \<open>The index into an operand of reversed shape \<open>ds\<close> for a (reversed) result index.\<close>

fun broadcast_index :: "nat list \<Rightarrow> nat list \<Rightarrow> nat list" where
  "broadcast_index [] idx = []"
| "broadcast_index (d # ds) [] = []"
| "broadcast_index (d # ds) (i # idx) = (if d = 1 then 0 else i) # broadcast_index ds idx"

text \<open>An elementwise binary operation with broadcasting: \<^verbatim>\<open>a * b\<close>, \<^verbatim>\<open>a - b\<close>, \<^verbatim>\<open>a / b\<close>.\<close>

definition tf_binary :: "(real \<Rightarrow> real \<Rightarrow> real) \<Rightarrow> tensor \<Rightarrow> tensor \<Rightarrow> tensor option" where
  "tf_binary f a b =
     (case broadcast_dims (rev (shape a)) (rev (shape b)) of
        None \<Rightarrow> None
      | Some s \<Rightarrow>
          Some (mk_tensor (rev s)
            (\<lambda>idx. f (entry a (rev (broadcast_index (rev (shape a)) (rev idx))))
                      (entry b (rev (broadcast_index (rev (shape b)) (rev idx)))))))"

definition tf_exp :: "tensor \<Rightarrow> tensor" where
  "tf_exp t = mk_tensor (shape t) (\<lambda>idx. exp (entry t idx))"

text \<open>\<^verbatim>\<open>tf.reduce_sum(t, axis=-1)\<close>.\<close>

definition tf_reduce_sum_last :: "tensor \<Rightarrow> tensor option" where
  "tf_reduce_sum_last t =
     (if shape t = [] then None
      else Some (mk_tensor (butlast (shape t))
             (\<lambda>idx. sum_list (map (\<lambda>d. entry t (idx @ [d])) [0..<last (shape t)]))))"

text \<open>\<^verbatim>\<open>t[..., None]\<close>: a new last axis of size 1.\<close>

definition expand_dims_last :: "tensor \<Rightarrow> tensor" where
  "expand_dims_last t = mk_tensor (shape t @ [1]) (\<lambda>idx. entry t (butlast idx))"

text \<open>\<^verbatim>\<open>tf.concat(ts, axis=-1)\<close>.\<close>

fun concat_entry :: "tensor list \<Rightarrow> nat list \<Rightarrow> nat \<Rightarrow> real" where
  "concat_entry [] pre j = 0"
| "concat_entry (t # ts) pre j =
     (if j < last (shape t) then entry t (pre @ [j]) else concat_entry ts pre (j - last (shape t)))"

definition tf_concat_last :: "tensor list \<Rightarrow> tensor option" where
  "tf_concat_last ts =
     (case ts of
        [] \<Rightarrow> None
      | t # rest \<Rightarrow>
          if shape t \<noteq> [] \<and> list_all (\<lambda>u. shape u \<noteq> [] \<and> butlast (shape u) = butlast (shape t)) rest
          then Some (mk_tensor (butlast (shape t) @ [sum_list (map (\<lambda>u. last (shape u)) ts)])
                 (\<lambda>idx. concat_entry ts (butlast idx) (last idx)))
          else None)"

subsection \<open>Floating-point element types\<close>

text \<open>
  Tensor entries are real numbers. Where a property depends on the rounding of a
  floating-point element type, the type is described by two functions: \<open>rnd\<close> rounds a real
  to the nearest value of the type, so that each arithmetic operation of the type returns
  the exact result rounded (IEEE 754), and \<open>fexp\<close> is the exponential function of the type.
  Taking a maximum and gathering rows are exact. \<^verbatim>\<open>tf.unsorted_segment_sum\<close> starts each
  segment at 0 and adds its rows in index order, rounding after each addition. Without
  rounding (\<open>rnd\<close> the identity, \<open>fexp\<close> the real exponential) these are \<open>tf_exp\<close> and
  \<open>tf_unsorted_segment_sum\<close>.
\<close>

definition tf_exp_rounded :: "(real \<Rightarrow> real) \<Rightarrow> tensor \<Rightarrow> tensor" where
  "tf_exp_rounded fexp t = mk_tensor (shape t) (\<lambda>idx. fexp (entry t idx))"

definition tf_unsorted_segment_sum_rounded :: "(real \<Rightarrow> real) \<Rightarrow> reducer" where
  "tf_unsorted_segment_sum_rounded rnd data segment_ids num_segments =
     (case shape data of
        [] \<Rightarrow> None
      | n # inner \<Rightarrow>
          if length segment_ids = n \<and> 0 \<le> num_segments \<and> list_all (\<lambda>i. i < num_segments) segment_ids
          then Some (mk_tensor (nat num_segments # inner)
                 (\<lambda>idx. foldl (\<lambda>acc x. rnd (acc + x)) 0
                          (map (\<lambda>i. entry data (i # tl idx)) (segment_members segment_ids (hd idx)))))
          else None)"

section \<open>The graph value and the block layer\<close>

record GraphsTuple =
  nodes :: "tensor option"
  edges :: "tensor option"
  receivers :: "int list option"
  senders :: "int list option"
  globals :: "tensor option"
  n_node :: "int list"
  n_edge :: "int list"

text \<open>What a user-supplied model does to the tensor it is given; \<open>None\<close> when it raises.\<close>

type_synonym model = "tensor \<Rightarrow> tensor option"

text \<open>
  Modelled from the spec: \<^verbatim>\<open>blocks.broadcast_sender_nodes_to_edges\<close> and
  \<^verbatim>\<open>blocks.broadcast_receiver_nodes_to_edges\<close> (the module \<^verbatim>\<open>blocks\<close> is imported by
  \<^verbatim>\<open>modules.py\<close>). Row \<open>i\<close> of the result is \<open>nodes[senders[i]]\<close> (resp. \<open>receivers\<close>); the
  fields read must be present.
\<close>

definition broadcast_sender_nodes_to_edges :: "GraphsTuple \<Rightarrow> tensor option" where
  "broadcast_sender_nodes_to_edges graph =
     do { n \<leftarrow> nodes graph; s \<leftarrow> senders graph; tf_gather n s }"

definition broadcast_receiver_nodes_to_edges :: "GraphsTuple \<Rightarrow> tensor option" where
  "broadcast_receiver_nodes_to_edges graph =
     do { n \<leftarrow> nodes graph; r \<leftarrow> receivers graph; tf_gather n r }"

text \<open>
  Modelled from the spec: the per-row graph index derived from the \<open>n_node\<close> / \<open>n_edge\<close>
  partition (graph \<open>i\<close> owns the next \<open>counts[i]\<close> rows), and the two broadcasts of globals,
  which repeat each graph's global row over the rows of that graph.
\<close>

definition graph_indices :: "int list \<Rightarrow> int list option" where
  "graph_indices counts =
     (if list_all (\<lambda>k. 0 \<le> k) counts
      then Some (concat (map (\<lambda>(i, k). replicate (nat k) (int i)) (List.enumerate 0 counts)))
      else None)"

definition repeat_rows :: "tensor \<Rightarrow> int list \<Rightarrow> tensor option" where
  "repeat_rows t counts =
     (case shape t of
        [] \<Rightarrow> None
      | n # inner \<Rightarrow>
          if length counts = n then do { ids \<leftarrow> graph_indices counts; tf_gather t ids } else None)"

definition broadcast_globals_to_edges :: "GraphsTuple \<Rightarrow> tensor option" where
  "broadcast_globals_to_edges graph = do { g \<leftarrow> globals graph; repeat_rows g (n_edge graph) }"

definition broadcast_globals_to_nodes :: "GraphsTuple \<Rightarrow> tensor option" where
  "broadcast_globals_to_nodes graph = do { g \<leftarrow> globals graph; repeat_rows g (n_node graph) }"

text \<open>
  Modelled from the spec: the aggregators of \<^verbatim>\<open>blocks\<close>. Edges are reduced per receiver
  (or sender) node with \<open>num_segments = total_nodes = sum(n_node)\<close>; edges and nodes are
  reduced per graph with \<open>num_segments = num_graphs\<close>.
\<close>

definition ReceivedEdgesToNodesAggregator :: "reducer \<Rightarrow> GraphsTuple \<Rightarrow> tensor option" where
  "ReceivedEdgesToNodesAggregator reducer graph =
     do { e \<leftarrow> edges graph; r \<leftarrow> receivers graph; reducer e r (sum_list (n_node graph)) }"

definition SentEdgesToNodesAggregator :: "reducer \<Rightarrow> GraphsTuple \<Rightarrow> tensor option" where
  "SentEdgesToNodesAggregator reducer graph =
     do { e \<leftarrow> edges graph; s \<leftarrow> senders graph; reducer e s (sum_list (n_node graph)) }"

definition EdgesToGlobalsAggregator :: "reducer \<Rightarrow> GraphsTuple \<Rightarrow> tensor option" where
  "EdgesToGlobalsAggregator reducer graph =
     do { e \<leftarrow> edges graph; ids \<leftarrow> graph_indices (n_edge graph);
          reducer e ids (int (length (n_node graph))) }"

definition NodesToGlobalsAggregator :: "reducer \<Rightarrow> GraphsTuple \<Rightarrow> tensor option" where
  "NodesToGlobalsAggregator reducer graph =
     do { n \<leftarrow> nodes graph; ids \<leftarrow> graph_indices (n_node graph);
          reducer n ids (int (length (n_node graph))) }"

subsection \<open>Options and keyword arguments\<close>

text \<open>
  A Python dict with string keys is an association list; \<open>d[k] = v\<close> is \<open>AList.update\<close>,
  \<open>d.get(k, v)\<close> is \<open>dict_get\<close>. The values of the option dicts are flags or reducers.
\<close>

datatype error = TypeError | KeyError | AssertionError | InvalidConfigurationError

datatype opt_value = Flag bool | Reducer reducer

type_synonym opts = "(string \<times> opt_value) list"

definition dict_get :: "opts \<Rightarrow> string \<Rightarrow> opt_value \<Rightarrow> opt_value" where
  "dict_get d k v = (case map_of d k of None \<Rightarrow> v | Some x \<Rightarrow> x)"

fun truthy :: "opt_value \<Rightarrow> bool" where
  "truthy (Flag b) = b"
| "truthy (Reducer r) = True"

text \<open>Calling a flag as if it were a reducer raises.\<close>

fun as_reducer :: "opt_value \<Rightarrow> reducer" where
  "as_reducer (Reducer r) = r"
| "as_reducer (Flag b) = (\<lambda>data segment_ids num_segments. None)"

subsection \<open>EdgeBlock, NodeBlock, GlobalBlock\<close>

record edge_block =
  edge_model :: model
  eb_use_edges :: bool
  eb_use_receiver_nodes :: bool
  eb_use_sender_nodes :: bool
  eb_use_globals :: bool

record node_block =
  node_model :: model
  nb_use_received_edges :: bool
  nb_use_sent_edges :: bool
  nb_use_nodes :: bool
  nb_use_globals :: bool
  nb_received_edges_reducer :: reducer
  nb_sent_edges_reducer :: reducer

record global_block =
  global_model :: model
  gb_use_edges :: bool
  gb_use_nodes :: bool
  gb_use_globals :: bool
  gb_edges_reducer :: reducer
  gb_nodes_reducer :: reducer

text \<open>
  Modelled from the spec: the constructors of \<^verbatim>\<open>blocks.EdgeBlock\<close>, \<^verbatim>\<open>blocks.NodeBlock\<close> and
  \<^verbatim>\<open>blocks.GlobalBlock\<close>, called with keyword arguments \<open>kwargs\<close>. Every \<open>use_*\<close> flag
  defaults to true and every reducer to the segmented sum; a keyword the block does not
  know is a \<open>TypeError\<close>; a block with every flag false is an invalid configuration.
\<close>

definition EdgeBlock_init :: "model \<Rightarrow> opts \<Rightarrow> error + edge_block" where
  "EdgeBlock_init edge_model_fn kwargs =
     (if \<not> list_all (\<lambda>k. k \<in> set [''use_edges'', ''use_receiver_nodes'', ''use_sender_nodes'',
                                    ''use_globals'']) (map fst kwargs)
      then Inl TypeError
      else
        let use_edges = truthy (dict_get kwargs ''use_edges'' (Flag True));
            use_receiver_nodes = truthy (dict_get kwargs ''use_receiver_nodes'' (Flag True));
            use_sender_nodes = truthy (dict_get kwargs ''use_sender_nodes'' (Flag True));
            use_globals = truthy (dict_get kwargs ''use_globals'' (Flag True))
        in if \<not> (use_edges \<or> use_receiver_nodes \<or> use_sender_nodes \<or> use_globals)
           then Inl InvalidConfigurationError
           else Inr \<lparr>edge_model = edge_model_fn, eb_use_edges = use_edges,
                      eb_use_receiver_nodes = use_receiver_nodes,
                      eb_use_sender_nodes = use_sender_nodes, eb_use_globals = use_globals\<rparr>)"

definition NodeBlock_init :: "model \<Rightarrow> opts \<Rightarrow> error + node_block" where
  "NodeBlock_init node_model_fn kwargs =
     (if \<not> list_all (\<lambda>k. k \<in> set [''use_received_edges'', ''use_sent_edges'', ''use_nodes'',
                                    ''use_globals'', ''received_edges_reducer'',
                                    ''sent_edges_reducer'']) (map fst kwargs)
      then Inl TypeError
      else
        let use_received_edges = truthy (dict_get kwargs ''use_received_edges'' (Flag True));
            use_sent_edges = truthy (dict_get kwargs ''use_sent_edges'' (Flag True));
            use_nodes = truthy (dict_get kwargs ''use_nodes'' (Flag True));
            use_globals = truthy (dict_get kwargs ''use_globals'' (Flag True))
        in if \<not> (use_received_edges \<or> use_sent_edges \<or> use_nodes \<or> use_globals)
           then Inl InvalidConfigurationError
           else Inr \<lparr>node_model = node_model_fn, nb_use_received_edges = use_received_edges,
                      nb_use_sent_edges = use_sent_edges, nb_use_nodes = use_nodes,
                      nb_use_globals = use_globals,
                      nb_received_edges_reducer =
                        as_reducer (dict_get kwargs ''received_edges_reducer''
                                      (Reducer tf_unsorted_segment_sum)),
                      nb_sent_edges_reducer =
                        as_reducer (dict_get kwargs ''sent_edges_reducer''
                                      (Reducer tf_unsorted_segment_sum))\<rparr>)"

definition GlobalBlock_init :: "model \<Rightarrow> opts \<Rightarrow> error + global_block" where
  "GlobalBlock_init global_model_fn kwargs =
     (if \<not> list_all (\<lambda>k. k \<in> set [''use_edges'', ''use_nodes'', ''use_globals'',
                                    ''edges_reducer'', ''nodes_reducer'']) (map fst kwargs)
      then Inl TypeError
      else
        let use_edges = truthy (dict_get kwargs ''use_edges'' (Flag True));
            use_nodes = truthy (dict_get kwargs ''use_nodes'' (Flag True));
            use_globals = truthy (dict_get kwargs ''use_globals'' (Flag True))
        in if \<not> (use_edges \<or> use_nodes \<or> use_globals)
           then Inl InvalidConfigurationError
           else Inr \<lparr>global_model = global_model_fn, gb_use_edges = use_edges,
                      gb_use_nodes = use_nodes, gb_use_globals = use_globals,
                      gb_edges_reducer =
                        as_reducer (dict_get kwargs ''edges_reducer''
                                      (Reducer tf_unsorted_segment_sum)),
                      gb_nodes_reducer =
                        as_reducer (dict_get kwargs ''nodes_reducer''
                                      (Reducer tf_unsorted_segment_sum))\<rparr>)"

text \<open>An input of a block: read (and required) when its flag is set, left out otherwise.\<close>

definition collect :: "bool \<Rightarrow> tensor option \<Rightarrow> tensor list option" where
  "collect use_it t = (if use_it then map_option (\<lambda>x. [x]) t else Some [])"

text \<open>
  Modelled from the spec: applying a block. The enabled inputs are concatenated on the
  last axis in the documented order (for edges: edges, receiver nodes, sender nodes,
  globals), the model is applied to the concatenation, and the graph is returned with
  the one field replaced.
\<close>

definition EdgeBlock_build :: "edge_block \<Rightarrow> GraphsTuple \<Rightarrow> GraphsTuple option" where
  "EdgeBlock_build blk graph =
     do {
       e \<leftarrow> collect (eb_use_edges blk) (edges graph);
       r \<leftarrow> collect (eb_use_receiver_nodes blk) (broadcast_receiver_nodes_to_edges graph);
       s \<leftarrow> collect (eb_use_sender_nodes blk) (broadcast_sender_nodes_to_edges graph);
       g \<leftarrow> collect (eb_use_globals blk) (broadcast_globals_to_edges graph);
       collected_edges \<leftarrow> tf_concat_last (e @ r @ s @ g);
       updated_edges \<leftarrow> edge_model blk collected_edges;
       Some (graph\<lparr>edges := Some updated_edges\<rparr>)
     }"

definition NodeBlock_build :: "node_block \<Rightarrow> GraphsTuple \<Rightarrow> GraphsTuple option" where
  "NodeBlock_build blk graph =
     do {
       r \<leftarrow> collect (nb_use_received_edges blk)
              (ReceivedEdgesToNodesAggregator (nb_received_edges_reducer blk) graph);
       s \<leftarrow> collect (nb_use_sent_edges blk)
              (SentEdgesToNodesAggregator (nb_sent_edges_reducer blk) graph);
       n \<leftarrow> collect (nb_use_nodes blk) (nodes graph);
       g \<leftarrow> collect (nb_use_globals blk) (broadcast_globals_to_nodes graph);
       collected_nodes \<leftarrow> tf_concat_last (r @ s @ n @ g);
       updated_nodes \<leftarrow> node_model blk collected_nodes;
       Some (graph\<lparr>nodes := Some updated_nodes\<rparr>)
     }"

definition GlobalBlock_build :: "global_block \<Rightarrow> GraphsTuple \<Rightarrow> GraphsTuple option" where
  "GlobalBlock_build blk graph =
     do {
       e \<leftarrow> collect (gb_use_edges blk) (EdgesToGlobalsAggregator (gb_edges_reducer blk) graph);
       n \<leftarrow> collect (gb_use_nodes blk) (NodesToGlobalsAggregator (gb_nodes_reducer blk) graph);
       g \<leftarrow> collect (gb_use_globals blk) (globals graph);
       collected_globals \<leftarrow> tf_concat_last (e @ n @ g);
       updated_globals \<leftarrow> global_model blk collected_globals;
       Some (graph\<lparr>globals := Some updated_globals\<rparr>)
     }"

section \<open>\<^verbatim>\<open>modules.py\<close>\<close>

subsection \<open>Default options\<close>

definition DEFAULT_EDGE_BLOCK_OPT :: opts where
  "DEFAULT_EDGE_BLOCK_OPT =
     [(''use_edges'', Flag True), (''use_receiver_nodes'', Flag True),
      (''use_sender_nodes'', Flag True), (''use_globals'', Flag True)]"

definition DEFAULT_NODE_BLOCK_OPT :: opts where
  "DEFAULT_NODE_BLOCK_OPT =
     [(''use_received_edges'', Flag True), (''use_sent_edges'', Flag False),
      (''use_nodes'', Flag True), (''use_globals'', Flag True)]"

definition DEFAULT_GLOBAL_BLOCK_OPT :: opts where
  "DEFAULT_GLOBAL_BLOCK_OPT =
     [(''use_edges'', Flag True), (''use_nodes'', Flag True), (''use_globals'', Flag True)]"

text \<open>\<^verbatim>\<open>dict(opt.items()) if opt else {}\<close>: \<open>None\<close> and the empty dict both give the empty dict.\<close>

definition copy_or_empty :: "opts option \<Rightarrow> opts" where
  "copy_or_empty opt = (case opt of None \<Rightarrow> [] | Some d \<Rightarrow> if d \<noteq> [] then d else [])"

text \<open>\<^verbatim>\<open>for k, v in defaults.items(): opt[k] = opt.get(k, v)\<close>\<close>

definition fill_defaults :: "opts \<Rightarrow> opts \<Rightarrow> opts" where
  "fill_defaults defaults opt = fold (\<lambda>(k, v) d. AList.update k (dict_get d k v) d) defaults opt"

definition make_default_edge_block_opt :: "opts option \<Rightarrow> opts" where
  "make_default_edge_block_opt edge_block_opt =
     fill_defaults DEFAULT_EDGE_BLOCK_OPT (copy_or_empty edge_block_opt)"

definition make_default_node_block_opt :: "opts option \<Rightarrow> reducer \<Rightarrow> opts" where
  "make_default_node_block_opt node_block_opt default_reducer =
     fold (\<lambda>key d. AList.update key (dict_get d key (Reducer default_reducer)) d)
       [''received_edges_reducer'', ''sent_edges_reducer'']
       (fill_defaults DEFAULT_NODE_BLOCK_OPT (copy_or_empty node_block_opt))"

definition make_default_global_block_opt :: "opts option \<Rightarrow> reducer \<Rightarrow> opts" where
  "make_default_global_block_opt global_block_opt default_reducer =
     fold (\<lambda>key d. AList.update key (dict_get d key (Reducer default_reducer)) d)
       [''edges_reducer'', ''nodes_reducer'']
       (fill_defaults DEFAULT_GLOBAL_BLOCK_OPT (copy_or_empty global_block_opt))"

subsection \<open>InteractionNetwork\<close>

record InteractionNetwork =
  in_edge_block :: edge_block
  in_node_block :: node_block

definition InteractionNetwork_init :: "model \<Rightarrow> model \<Rightarrow> reducer \<Rightarrow> error + InteractionNetwork" where
  "InteractionNetwork_init edge_model_fn node_model_fn reducer =
     (case EdgeBlock_init edge_model_fn [(''use_globals'', Flag False)] of
        Inl e \<Rightarrow> Inl e
      | Inr eb \<Rightarrow>
          (case NodeBlock_init node_model_fn
                  [(''use_sent_edges'', Flag False), (''use_globals'', Flag False),
                   (''received_edges_reducer'', Reducer reducer)] of
             Inl e \<Rightarrow> Inl e
           | Inr nb \<Rightarrow> Inr \<lparr>in_edge_block = eb, in_node_block = nb\<rparr>))"

definition InteractionNetwork_build :: "InteractionNetwork \<Rightarrow> GraphsTuple \<Rightarrow> GraphsTuple option" where
  "InteractionNetwork_build self graph =
     do { g \<leftarrow> EdgeBlock_build (in_edge_block self) graph; NodeBlock_build (in_node_block self) g }"

subsection \<open>RelationNetwork\<close>

record RelationNetwork =
  rn_edge_block :: edge_block
  rn_global_block :: global_block

definition RelationNetwork_init :: "model \<Rightarrow> model \<Rightarrow> reducer \<Rightarrow> error + RelationNetwork" where
  "RelationNetwork_init edge_model_fn global_model_fn reducer =
     (case EdgeBlock_init edge_model_fn
             [(''use_edges'', Flag False), (''use_receiver_nodes'', Flag True),
              (''use_sender_nodes'', Flag True), (''use_globals'', Flag False)] of
        Inl e \<Rightarrow> Inl e
      | Inr eb \<Rightarrow>
          (case GlobalBlock_init global_model_fn
                  [(''use_edges'', Flag True), (''use_nodes'', Flag False),
                   (''use_globals'', Flag False), (''edges_reducer'', Reducer reducer)] of
             Inl e \<Rightarrow> Inl e
           | Inr gb \<Rightarrow> Inr \<lparr>rn_edge_block = eb, rn_global_block = gb\<rparr>))"

definition RelationNetwork_build :: "RelationNetwork \<Rightarrow> GraphsTuple \<Rightarrow> GraphsTuple option" where
  "RelationNetwork_build self graph =
     do {
       g \<leftarrow> EdgeBlock_build (rn_edge_block self) graph;
       output_graph \<leftarrow> GlobalBlock_build (rn_global_block self) g;
       Some (graph\<lparr>globals := globals output_graph\<rparr>)
     }"

subsection \<open>GraphNetwork\<close>

record GraphNetwork =
  gn_edge_block :: edge_block
  gn_node_block :: node_block
  gn_global_block :: global_block

definition GraphNetwork_init ::
  "model \<Rightarrow> model \<Rightarrow> model \<Rightarrow> reducer \<Rightarrow> opts option \<Rightarrow> opts option \<Rightarrow> opts option
     \<Rightarrow> error + GraphNetwork" where
  "GraphNetwork_init edge_model_fn node_model_fn global_model_fn reducer
       edge_block_opt node_block_opt global_block_opt =
     (case EdgeBlock_init edge_model_fn (make_default_edge_block_opt edge_block_opt) of
        Inl e \<Rightarrow> Inl e
      | Inr eb \<Rightarrow>
          (case NodeBlock_init node_model_fn (make_default_node_block_opt node_block_opt reducer) of
             Inl e \<Rightarrow> Inl e
           | Inr nb \<Rightarrow>
               (case GlobalBlock_init global_model_fn
                       (make_default_global_block_opt global_block_opt reducer) of
                  Inl e \<Rightarrow> Inl e
                | Inr gb \<Rightarrow>
                    Inr \<lparr>gn_edge_block = eb, gn_node_block = nb, gn_global_block = gb\<rparr>)))"

definition GraphNetwork_build :: "GraphNetwork \<Rightarrow> GraphsTuple \<Rightarrow> GraphsTuple option" where
  "GraphNetwork_build self graph =
     do {
       g1 \<leftarrow> EdgeBlock_build (gn_edge_block self) graph;
       g2 \<leftarrow> NodeBlock_build (gn_node_block self) g1;
       GlobalBlock_build (gn_global_block self) g2
     }"

subsection \<open>GraphIndependent\<close>

text \<open>
  A model function left \<open>None\<close> passes its input through (also an absent field); a given
  model is applied to the field, and raises on an absent one.
\<close>

definition independent_model :: "model option \<Rightarrow> tensor option \<Rightarrow> tensor option option" where
  "independent_model model_fn x =
     (case model_fn of
        None \<Rightarrow> Some x
      | Some f \<Rightarrow> (case x of None \<Rightarrow> None | Some t \<Rightarrow> map_option Some (f t)))"

record GraphIndependent =
  gi_edge_model :: "model option"
  gi_node_model :: "model option"
  gi_global_model :: "model option"

definition GraphIndependent_init :: "model option \<Rightarrow> model option \<Rightarrow> model option \<Rightarrow> GraphIndependent" where
  "GraphIndependent_init edge_model_fn node_model_fn global_model_fn =
     \<lparr>gi_edge_model = edge_model_fn, gi_node_model = node_model_fn,
      gi_global_model = global_model_fn\<rparr>"

definition GraphIndependent_build :: "GraphIndependent \<Rightarrow> GraphsTuple \<Rightarrow> GraphsTuple option" where
  "GraphIndependent_build self graph =
     do {
       e \<leftarrow> independent_model (gi_edge_model self) (edges graph);
       n \<leftarrow> independent_model (gi_node_model self) (nodes graph);
       g \<leftarrow> independent_model (gi_global_model self) (globals graph);
       Some (graph\<lparr>edges := e, nodes := n, globals := g\<rparr>)
     }"

subsection \<open>DeepSets\<close>

record DeepSets =
  ds_node_block :: node_block
  ds_global_block :: global_block

definition DeepSets_init :: "model \<Rightarrow> model \<Rightarrow> reducer \<Rightarrow> error + DeepSets" where
  "DeepSets_init node_model_fn global_model_fn reducer =
     (case NodeBlock_init node_model_fn
             [(''use_received_edges'', Flag False), (''use_sent_edges'', Flag False),
              (''use_nodes'', Flag True), (''use_globals'', Flag True)] of
        Inl e \<Rightarrow> Inl e
      | Inr nb \<Rightarrow>
          (case GlobalBlock_init global_model_fn
                  [(''use_edges'', Flag False), (''use_nodes'', Flag True),
                   (''use_globals'', Flag False), (''nodes_reducer'', Reducer reducer)] of
             Inl e \<Rightarrow> Inl e
           | Inr gb \<Rightarrow> Inr \<lparr>ds_node_block = nb, ds_global_block = gb\<rparr>))"

definition DeepSets_build :: "DeepSets \<Rightarrow> GraphsTuple \<Rightarrow> GraphsTuple option" where
  "DeepSets_build self graph =
     do { g \<leftarrow> NodeBlock_build (ds_node_block self) graph; GlobalBlock_build (ds_global_block self) g }"

subsection \<open>CommNet\<close>

record CommNet =
  cn_edge_block :: edge_block
  cn_node_encoder_block :: node_block
  cn_node_block :: node_block

definition CommNet_init :: "model \<Rightarrow> model \<Rightarrow> model \<Rightarrow> reducer \<Rightarrow> error + CommNet" where
  "CommNet_init edge_model_fn node_encoder_model_fn node_model_fn reducer =
     (case EdgeBlock_init edge_model_fn
             [(''use_edges'', Flag False), (''use_receiver_nodes'', Flag False),
              (''use_sender_nodes'', Flag True), (''use_globals'', Flag False)] of
        Inl e \<Rightarrow> Inl e
      | Inr eb \<Rightarrow>
          (case NodeBlock_init node_encoder_model_fn
                  [(''use_received_edges'', Flag False), (''use_sent_edges'', Flag False),
                   (''use_nodes'', Flag True), (''use_globals'', Flag False),
                   (''received_edges_reducer'', Reducer reducer)] of
             Inl e \<Rightarrow> Inl e
           | Inr enc \<Rightarrow>
               (case NodeBlock_init node_model_fn
                       [(''use_received_edges'', Flag True), (''use_sent_edges'', Flag False),
                        (''use_nodes'', Flag True), (''use_globals'', Flag False),
                        (''received_edges_reducer'', Reducer reducer)] of
                  Inl e \<Rightarrow> Inl e
                | Inr nb \<Rightarrow>
                    Inr \<lparr>cn_edge_block = eb, cn_node_encoder_block = enc, cn_node_block = nb\<rparr>)))"

definition CommNet_build :: "CommNet \<Rightarrow> GraphsTuple \<Rightarrow> GraphsTuple option" where
  "CommNet_build self graph =
     do {
       g \<leftarrow> EdgeBlock_build (cn_edge_block self) graph;
       node_input \<leftarrow> NodeBlock_build (cn_node_encoder_block self) g;
       out \<leftarrow> NodeBlock_build (cn_node_block self) node_input;
       Some (graph\<lparr>nodes := nodes out\<rparr>)
     }"

subsection \<open>Segment softmax and self-attention\<close>

definition unsorted_segment_softmax :: "real \<Rightarrow> reducer" where
  "unsorted_segment_softmax lowest data segment_ids num_segments =
     do {
       segment_maxes \<leftarrow> tf_unsorted_segment_max lowest data segment_ids num_segments;
       maxes \<leftarrow> tf_gather segment_maxes segment_ids;
       data' \<leftarrow> tf_binary (-) data maxes;
       let exp_data = tf_exp data';
       segment_sum_exp_data \<leftarrow> tf_unsorted_segment_sum exp_data segment_ids num_segments;
       sum_exp_data \<leftarrow> tf_gather segment_sum_exp_data segment_ids;
       tf_binary (/) exp_data sum_exp_data
     }"

text \<open>
  The same function on a floating-point element type: the subtraction of the maxima, the
  exponential, the segment sums and the division are those of the type. With no rounding
  and the real exponential it is \<open>unsorted_segment_softmax\<close>.
\<close>

definition unsorted_segment_softmax_rounded ::
  "(real \<Rightarrow> real) \<Rightarrow> (real \<Rightarrow> real) \<Rightarrow> real \<Rightarrow> reducer" where
  "unsorted_segment_softmax_rounded rnd fexp lowest data segment_ids num_segments =
     do {
       segment_maxes \<leftarrow> tf_unsorted_segment_max lowest data segment_ids num_segments;
       maxes \<leftarrow> tf_gather segment_maxes segment_ids;
       data' \<leftarrow> tf_binary (\<lambda>a b. rnd (a - b)) data maxes;
       let exp_data = tf_exp_rounded fexp data';
       segment_sum_exp_data \<leftarrow>
         tf_unsorted_segment_sum_rounded rnd exp_data segment_ids num_segments;
       sum_exp_data \<leftarrow> tf_gather segment_sum_exp_data segment_ids;
       tf_binary (\<lambda>a b. rnd (a / b)) exp_data sum_exp_data
     }"

definition received_edges_normalizer :: "GraphsTuple \<Rightarrow> reducer \<Rightarrow> tensor option" where
  "received_edges_normalizer graph normalizer =
     do { e \<leftarrow> edges graph; r \<leftarrow> receivers graph; normalizer e r (sum_list (n_node graph)) }"

definition SelfAttention_build ::
  "real \<Rightarrow> tensor \<Rightarrow> tensor \<Rightarrow> tensor \<Rightarrow> GraphsTuple \<Rightarrow> GraphsTuple option" where
  "SelfAttention_build lowest node_values node_keys node_queries attention_graph =
     do {
       sender_keys \<leftarrow> broadcast_sender_nodes_to_edges (attention_graph\<lparr>nodes := Some node_keys\<rparr>);
       sender_values \<leftarrow>
         broadcast_sender_nodes_to_edges (attention_graph\<lparr>nodes := Some node_values\<rparr>);
       receiver_queries \<leftarrow>
         broadcast_receiver_nodes_to_edges (attention_graph\<lparr>nodes := Some node_queries\<rparr>);
       products \<leftarrow> tf_binary (*) sender_keys receiver_queries;
       attention_weights_logits \<leftarrow> tf_reduce_sum_last products;
       normalized_attention_weights \<leftarrow>
         received_edges_normalizer (attention_graph\<lparr>edges := Some attention_weights_logits\<rparr>)
           (unsorted_segment_softmax lowest);
       attented_edges \<leftarrow>
         tf_binary (*) sender_values (expand_dims_last normalized_attention_weights);
       aggregated_attended_values \<leftarrow>
         ReceivedEdgesToNodesAggregator tf_unsorted_segment_sum
           (attention_graph\<lparr>edges := Some attented_edges\<rparr>);
       Some (attention_graph\<lparr>nodes := Some aggregated_attended_values\<rparr>)
     }"

subsection \<open>EdgeGAT: the constructor\<close>

record EdgeGAT =
  gat_node_model :: model
  gat_edge_block :: edge_block
  gat_global_block :: global_block
  gat_num_heads :: nat
  gat_key_size :: nat
  gat_value_size :: nat

text \<open>\<open>d[k]\<close> for a key that may be missing.\<close>

definition dict_lookup :: "opts \<Rightarrow> string \<Rightarrow> error + opt_value" where
  "dict_lookup d k = (case map_of d k of None \<Rightarrow> Inl KeyError | Some v \<Rightarrow> Inr v)"

definition EdgeGAT_init ::
  "model \<Rightarrow> model \<Rightarrow> model \<Rightarrow> nat \<Rightarrow> nat \<Rightarrow> nat \<Rightarrow> opts option \<Rightarrow> opts option \<Rightarrow> error + EdgeGAT" where
  "EdgeGAT_init node_model_fn edge_model_fn global_model_fn num_heads key_size value_size
       edge_block_opt global_block_opt =
     (let edge_block_opt' = make_default_edge_block_opt edge_block_opt;
          global_block_opt' = make_default_global_block_opt global_block_opt tf_unsorted_segment_sum
      in case dict_lookup edge_block_opt' ''use_sender_nodes'' of
           Inl e \<Rightarrow> Inl e
         | Inr v \<Rightarrow>
             if \<not> truthy v then Inl AssertionError
             else
               (case EdgeBlock_init edge_model_fn edge_block_opt' of
                  Inl e \<Rightarrow> Inl e
                | Inr eb \<Rightarrow>
                    (case GlobalBlock_init global_model_fn global_block_opt' of
                       Inl e \<Rightarrow> Inl e
                     | Inr gb \<Rightarrow>
                         Inr \<lparr>gat_node_model = node_model_fn, gat_edge_block = eb,
                              gat_global_block = gb, gat_num_heads = num_heads,
                              gat_key_size = key_size, gat_value_size = value_size\<rparr>)))"

section \<open>Notions used to state the properties\<close>

text \<open>The rows that share the segment of row \<open>e\<close>.\<close>

definition same_segment :: "int list \<Rightarrow> nat \<Rightarrow> nat list" where
  "same_segment ids e = filter (\<lambda>j. ids ! j = ids ! e) [0..<length ids]"

text \<open>
  The segment softmax as the specification words it: within each segment, subtract the
  segment's maximum, exponentiate, and divide by the segment's sum of exponentials.
\<close>

definition segment_softmax_spec :: "tensor \<Rightarrow> int list \<Rightarrow> tensor" where
  "segment_softmax_spec logits ids =
     mk_tensor (shape logits)
       (\<lambda>idx. let seg = same_segment ids (hd idx);
                  m = Max ((\<lambda>j. entry logits (j # tl idx)) ` set seg)
              in exp (entry logits idx - m) / (\<Sum>j\<leftarrow>seg. exp (entry logits (j # tl idx) - m)))"

text \<open>The same formula with every operation rounded to a floating-point element type.\<close>

definition segment_softmax_spec_rounded ::
  "(real \<Rightarrow> real) \<Rightarrow> (real \<Rightarrow> real) \<Rightarrow> tensor \<Rightarrow> int list \<Rightarrow> tensor" where
  "segment_softmax_spec_rounded rnd fexp logits ids =
     mk_tensor (shape logits)
       (\<lambda>idx. let seg = same_segment ids (hd idx);
                  m = Max ((\<lambda>j. entry logits (j # tl idx)) ` set seg)
              in rnd (fexp (rnd (entry logits idx - m))
                   / foldl (\<lambda>acc x. rnd (acc + x)) 0
                       (map (\<lambda>j. fexp (rnd (entry logits (j # tl idx) - m))) seg)))"

text \<open>The data with the constant \<open>c\<close> added to every entry of the rows of segment \<open>s\<close>.\<close>

definition add_to_segment :: "tensor \<Rightarrow> int list \<Rightarrow> int \<Rightarrow> real \<Rightarrow> tensor" where
  "add_to_segment data segment_ids s c =
     mk_tensor (shape data) (\<lambda>idx. entry data idx + (if segment_ids ! hd idx = s then c else 0))"

text \<open>
  The same sum computed in a floating-point element type: each entry of the segment is the
  exact sum rounded. The addition is exact when this is \<open>add_to_segment\<close>.
\<close>

definition add_to_segment_rounded ::
  "(real \<Rightarrow> real) \<Rightarrow> tensor \<Rightarrow> int list \<Rightarrow> int \<Rightarrow> real \<Rightarrow> tensor" where
  "add_to_segment_rounded rnd data segment_ids s c =
     mk_tensor (shape data)
       (\<lambda>idx. if segment_ids ! hd idx = s then rnd (entry data idx + c) else entry data idx)"

text \<open>The entries of a rank-1 tensor, in order.\<close>

definition entries_1d :: "tensor \<Rightarrow> real list" where
  "entries_1d t = map (\<lambda>i. entry t [i]) [0..<hd (shape t)]"

text \<open>The edges whose receiver is node \<open>n\<close>.\<close>

definition edges_into :: "int list \<Rightarrow> nat \<Rightarrow> nat list" where
  "edges_into rs n = filter (\<lambda>e. rs ! e = int n) [0..<length rs]"

text \<open>
  The unnormalized attention score of edge \<open>e\<close> and head \<open>h\<close>: the dot product over the last
  axis of the sender's key and the receiver's query.
\<close>

definition attention_scores :: "tensor \<Rightarrow> tensor \<Rightarrow> int list \<Rightarrow> int list \<Rightarrow> tensor" where
  "attention_scores node_keys node_queries ss rs =
     mk_tensor [length ss, shape node_keys ! 1]
       (\<lambda>idx. \<Sum>k\<leftarrow>[0..<shape node_keys ! 2].
                 entry node_keys [nat (ss ! (idx ! 0)), idx ! 1, k]
                 * entry node_queries [nat (rs ! (idx ! 0)), idx ! 1, k])"

text \<open>
  Self-attention as the specification words it: scores normalized per receiver by the
  segment softmax, each edge's sender value multiplied by its weight, and the weighted
  values summed per receiver.
\<close>

definition SelfAttention_spec :: "tensor \<Rightarrow> tensor \<Rightarrow> tensor \<Rightarrow> int list \<Rightarrow> int list \<Rightarrow> tensor" where
  "SelfAttention_spec node_values node_keys node_queries ss rs =
     (let weights = segment_softmax_spec (attention_scores node_keys node_queries ss rs) rs
      in mk_tensor (shape node_values)
           (\<lambda>idx. \<Sum>e\<leftarrow>edges_into rs (idx ! 0).
                     entry node_values [nat (ss ! e), idx ! 1, idx ! 2] * entry weights [e, idx ! 1]))"

text \<open>The connectivity and the partition of a graph: everything but its features.\<close>

definition same_structure :: "GraphsTuple \<Rightarrow> GraphsTuple \<Rightarrow> bool" where
  "same_structure out g \<longleftrightarrow>
     n_node out = n_node g \<and> n_edge out = n_edge g
     \<and> senders out = senders g \<and> receivers out = receivers g"

subsection \<open>Single precision\<close>

text \<open>
  IEEE 754 binary32, the element type \<^verbatim>\<open>tf.float32\<close>: a significand of 24 bits, the least
  exponent \<open>-126\<close> (below it the spacing stays \<open>2 ^ -149\<close>), rounding to nearest with ties to
  even. Overflow to infinity is not modelled; no value used below comes near it. The
  exponential is taken correctly rounded; at the two arguments used below, \<open>0\<close> and
  \<open>-1000\<close>, every implementation returns \<open>1\<close> and \<open>0\<close>.
\<close>

definition round_half_even :: "real \<Rightarrow> int" where
  "round_half_even y =
     (let f = \<lfloor>y\<rfloor>
      in if y - of_int f < 1/2 then f
         else if 1/2 < y - of_int f then f + 1
         else if even f then f else f + 1)"

definition float32_round :: "real \<Rightarrow> real" where
  "float32_round x =
     (let e = max \<lfloor>log 2 \<bar>x\<bar>\<rfloor> (- 126);
          q = 2 powr of_int (e - 23)
      in of_int (round_half_even (x / q)) * q)"

definition float32_exp :: "real \<Rightarrow> real" where
  "float32_exp x = float32_round (exp x)"

definition float32_lowest :: real where
  "float32_lowest = - (2 - 1 / 2 ^ 23) * 2 ^ 127"

text \<open>\<^verbatim>\<open>_unsorted_segment_softmax\<close> on \<^verbatim>\<open>tf.float32\<close> data.\<close>

definition float32_softmax :: reducer where
  "float32_softmax = unsorted_segment_softmax_rounded float32_round float32_exp float32_lowest"

subsection \<open>A small graph and modules, for evaluating the models\<close>

text \<open>Two nodes and one edge, from node 1 to node 0, in one graph.\<close>

definition example_graph :: GraphsTuple where
  "example_graph =
     \<lparr>nodes = Some (matrix 1 [[1], [2]]), edges = Some (matrix 1 [[3]]),
      receivers = Some [0], senders = Some [1], globals = Some (matrix 1 [[4]]),
      n_node = [2], n_edge = [1]\<rparr>"

definition example_edge_block :: edge_block where
  "example_edge_block = \<lparr>edge_model = Some, eb_use_edges = True, eb_use_receiver_nodes = True,
        eb_use_sender_nodes = True, eb_use_globals = True\<rparr>"

definition example_node_block :: node_block where
  "example_node_block = \<lparr>node_model = Some, nb_use_received_edges = True,
               nb_use_sent_edges = True, nb_use_nodes = True, nb_use_globals = True,
               nb_received_edges_reducer = tf_unsorted_segment_sum, nb_sent_edges_reducer = tf_unsorted_segment_sum\<rparr>"

definition example_global_block :: global_block where
  "example_global_block =  \<lparr>global_model = Some, gb_use_edges = True, gb_use_nodes = True,
               gb_use_globals = True, gb_edges_reducer = tf_unsorted_segment_sum, gb_nodes_reducer = tf_unsorted_segment_sum\<rparr>"

definition example_values :: tensor where
  "example_values = tensor3 1 1 [[[5]], [[7]]]"

definition example_keys :: tensor where
  "example_keys = tensor3 1 1 [[[1]], [[2]]]"

definition example_queries :: tensor where
  "example_queries = tensor3 1 1 [[[3]], [[4]]]"

text \<open>A NodeBlock whose only enabled input is the aggregation of received edges.\<close>

definition only_received_edges :: "node_block \<Rightarrow> bool" where
  "only_received_edges blk \<longleftrightarrow>
     nb_use_received_edges blk \<and> \<not> nb_use_sent_edges blk \<and> \<not> nb_use_nodes blk
     \<and> \<not> nb_use_globals blk"

definition example_InteractionNetwork :: InteractionNetwork where
  "example_InteractionNetwork =
     \<lparr>in_edge_block =
        \<lparr>edge_model = Some, eb_use_edges = True, eb_use_receiver_nodes = True,
         eb_use_sender_nodes = True, eb_use_globals = False\<rparr>,
      in_node_block =
        \<lparr>node_model = Some, nb_use_received_edges = True, nb_use_sent_edges = False,
         nb_use_nodes = True, nb_use_globals = False,
         nb_received_edges_reducer = tf_unsorted_segment_sum,
         nb_sent_edges_reducer = tf_unsorted_segment_sum\<rparr>\<rparr>"

definition example_RelationNetwork :: RelationNetwork where
  "example_RelationNetwork =
     \<lparr>rn_edge_block =
        \<lparr>edge_model = Some, eb_use_edges = False, eb_use_receiver_nodes = True,
         eb_use_sender_nodes = True, eb_use_globals = False\<rparr>,
      rn_global_block =
        \<lparr>global_model = Some, gb_use_edges = True, gb_use_nodes = False, gb_use_globals = False,
         gb_edges_reducer = tf_unsorted_segment_sum,
         gb_nodes_reducer = tf_unsorted_segment_sum\<rparr>\<rparr>"

definition example_GraphNetwork :: GraphNetwork where
  "example_GraphNetwork =
     \<lparr>gn_edge_block = example_edge_block, gn_node_block = example_node_block,
      gn_global_block = example_global_block\<rparr>"

definition example_GraphIndependent :: GraphIndependent where
  "example_GraphIndependent = GraphIndependent_init (Some Some) None (Some Some)"

definition example_DeepSets :: DeepSets where
  "example_DeepSets =
     \<lparr>ds_node_block =
        \<lparr>node_model = Some, nb_use_received_edges = False, nb_use_sent_edges = False,
         nb_use_nodes = True, nb_use_globals = True,
         nb_received_edges_reducer = tf_unsorted_segment_sum,
         nb_sent_edges_reducer = tf_unsorted_segment_sum\<rparr>,
      ds_global_block =
        \<lparr>global_model = Some, gb_use_edges = False, gb_use_nodes = True, gb_use_globals = False,
         gb_edges_reducer = tf_unsorted_segment_sum,
         gb_nodes_reducer = tf_unsorted_segment_sum\<rparr>\<rparr>"

definition example_CommNet :: CommNet where
  "example_CommNet =
     \<lparr>cn_edge_block =
        \<lparr>edge_model = Some, eb_use_edges = False, eb_use_receiver_nodes = False,
         eb_use_sender_nodes = True, eb_use_globals = False\<rparr>,
      cn_node_encoder_block =
        \<lparr>node_model = Some, nb_use_received_edges = False, nb_use_sent_edges = False,
         nb_use_nodes = True, nb_use_globals = False,
         nb_received_edges_reducer = tf_unsorted_segment_sum,
         nb_sent_edges_reducer = tf_unsorted_segment_sum\<rparr>,
      cn_node_block =
        \<lparr>node_model = Some, nb_use_received_edges = True, nb_use_sent_edges = False,
         nb_use_nodes = True, nb_use_globals = False,
         nb_received_edges_reducer = tf_unsorted_segment_sum,
         nb_sent_edges_reducer = tf_unsorted_segment_sum\<rparr>\<rparr>"

text \<open>
  Modelled from the spec: batching, which the graph-construction collaborator provides
  (spec sections 3 and 6). \<open>tf_concat0\<close> stacks the rows of two tensors (\<^verbatim>\<open>tf.concat\<close> on
  axis 0).
\<close>

definition tf_concat0 :: "tensor \<Rightarrow> tensor \<Rightarrow> tensor" where
  "tf_concat0 a b =
     mk_tensor ((hd (shape a) + hd (shape b)) # tl (shape a))
       (\<lambda>idx. if hd idx < hd (shape a) then entry a idx
              else entry b ((hd idx - hd (shape a)) # tl idx))"

text \<open>
  A user-supplied model that acts on each row on its own: on stacked rows it returns the
  stacked results, with as many rows as it was given (the \<open>[rows, in_dim] \<rightarrow> [rows, out_dim]\<close>
  contract of spec section 4.4).
\<close>

definition row_wise :: "model \<Rightarrow> bool" where
  "row_wise f \<longleftrightarrow>
     (\<forall>a b a' b'.
        2 \<le> length (shape a) \<and> 2 \<le> length (shape b) \<and> tl (shape a) = tl (shape b)
        \<and> f a = Some a' \<and> f b = Some b' \<longrightarrow>
        f (tf_concat0 a b) = Some (tf_concat0 a' b')
        \<and> 2 \<le> length (shape a') \<and> 2 \<le> length (shape b')
        \<and> hd (shape a') = hd (shape a) \<and> hd (shape b') = hd (shape b)
        \<and> tl (shape a') = tl (shape b'))"

text \<open>
  An example of such a model: one that computes each output row, of width \<open>d\<close>, from the
  same row of a rank-2 input by a fixed function \<open>f\<close> (a dense layer, an MLP).
\<close>

definition per_row_model :: "nat \<Rightarrow> (real list \<Rightarrow> real list) \<Rightarrow> model" where
  "per_row_model d f t =
     (case shape t of
        [n, k] \<Rightarrow>
          Some (mk_tensor [n, d]
                  (\<lambda>idx. f (map (\<lambda>j. entry t [hd idx, j]) [0..<k]) ! hd (tl idx)))
      | _ \<Rightarrow> None)"

text \<open>
  A reducer that reduces each segment on its own, as \<^verbatim>\<open>tf.unsorted_segment_sum\<close> does: on
  two stacked problems, the second with its segment ids shifted past the first, it returns
  the stacked results.
\<close>

definition segment_wise :: "reducer \<Rightarrow> bool" where
  "segment_wise r \<longleftrightarrow>
     (\<forall>d1 d2 ids1 ids2 n1 n2 o1 o2.
        r d1 ids1 n1 = Some o1 \<and> r d2 ids2 n2 = Some o2
        \<and> tl (shape d1) = tl (shape d2)
        \<and> list_all (\<lambda>i. 0 \<le> i) ids1 \<and> list_all (\<lambda>i. 0 \<le> i) ids2 \<and> 0 \<le> n1 \<and> 0 \<le> n2 \<longrightarrow>
        r (tf_concat0 d1 d2) (ids1 @ map (\<lambda>i. i + n1) ids2) (n1 + n2) = Some (tf_concat0 o1 o2)
        \<and> shape o1 = nat n1 # tl (shape d1) \<and> shape o2 = nat n2 # tl (shape d2))"

text \<open>
  Modelled from the spec: the batch of two graphs, in the layout of spec section 3 (the
  batching itself is done by the caller, outside \<^verbatim>\<open>modules.py\<close>). Features are stacked, the
  graphs being laid out contiguously in the order of \<open>n_node\<close> and \<open>n_edge\<close>; senders and
  receivers index the concatenated node array, so those of the second graph are shifted
  by the number of nodes of the first; the partitions are concatenated.
\<close>

definition batch_features :: "tensor option \<Rightarrow> tensor option \<Rightarrow> tensor option" where
  "batch_features a b =
     (case a of None \<Rightarrow> None
      | Some x \<Rightarrow> (case b of None \<Rightarrow> None | Some y \<Rightarrow> Some (tf_concat0 x y)))"

definition batch_indices :: "int \<Rightarrow> int list option \<Rightarrow> int list option \<Rightarrow> int list option" where
  "batch_indices offset a b =
     (case a of None \<Rightarrow> None
      | Some x \<Rightarrow> (case b of None \<Rightarrow> None | Some y \<Rightarrow> Some (x @ map (\<lambda>i. i + offset) y)))"

definition batch_graphs :: "GraphsTuple \<Rightarrow> GraphsTuple \<Rightarrow> GraphsTuple" where
  "batch_graphs g1 g2 =
     \<lparr>nodes = batch_features (nodes g1) (nodes g2),
      edges = batch_features (edges g1) (edges g2),
      receivers = batch_indices (sum_list (n_node g1)) (receivers g1) (receivers g2),
      senders = batch_indices (sum_list (n_node g1)) (senders g1) (senders g2),
      globals = batch_features (globals g1) (globals g2),
      n_node = n_node g1 @ n_node g2,
      n_edge = n_edge g1 @ n_edge g2\<rparr>"

text \<open>
  A valid graph: the partitions are non-negative, features are tensors of rank at least 2
  with as many rows as the partitions say, and senders and receivers are one index per
  edge, each in \<open>[0, total_nodes)\<close>.
\<close>

definition rows_are :: "tensor option \<Rightarrow> int \<Rightarrow> bool" where
  "rows_are t n =
     (case t of None \<Rightarrow> True | Some x \<Rightarrow> 2 \<le> length (shape x) \<and> int (hd (shape x)) = n)"

definition indices_within :: "int list option \<Rightarrow> int \<Rightarrow> int \<Rightarrow> bool" where
  "indices_within ids count bound =
     (case ids of None \<Rightarrow> True
      | Some xs \<Rightarrow> int (length xs) = count \<and> list_all (\<lambda>i. 0 \<le> i \<and> i < bound) xs)"

definition valid_graph :: "GraphsTuple \<Rightarrow> bool" where
  "valid_graph g \<longleftrightarrow>
     list_all (\<lambda>k. 0 \<le> k) (n_node g) \<and> list_all (\<lambda>k. 0 \<le> k) (n_edge g)
     \<and> length (n_edge g) = length (n_node g)
     \<and> rows_are (nodes g) (sum_list (n_node g))
     \<and> rows_are (edges g) (sum_list (n_edge g))
     \<and> rows_are (globals g) (int (length (n_node g)))
     \<and> indices_within (receivers g) (sum_list (n_edge g)) (sum_list (n_node g))
     \<and> indices_within (senders g) (sum_list (n_edge g)) (sum_list (n_node g))"

text \<open>Two graphs that can be batched: the same fields are present, with equal feature shapes.\<close>

definition same_layout :: "tensor option \<Rightarrow> tensor option \<Rightarrow> bool" where
  "same_layout a b =
     (case a of None \<Rightarrow> b = None
      | Some x \<Rightarrow> (case b of None \<Rightarrow> False | Some y \<Rightarrow> tl (shape x) = tl (shape y)))"

definition compatible :: "GraphsTuple \<Rightarrow> GraphsTuple \<Rightarrow> bool" where
  "compatible g1 g2 \<longleftrightarrow>
     same_layout (nodes g1) (nodes g2) \<and> same_layout (edges g1) (edges g2)
     \<and> same_layout (globals g1) (globals g2)
     \<and> (receivers g1 = None) = (receivers g2 = None)
     \<and> (senders g1 = None) = (senders g2 = None)"

text \<open>Two tensors of \<open>n1\<close> and \<open>n2\<close> rows with the same row shape.\<close>

definition stackable :: "nat \<Rightarrow> nat \<Rightarrow> tensor \<Rightarrow> tensor \<Rightarrow> bool" where
  "stackable n1 n2 a b \<longleftrightarrow>
     2 \<le> length (shape a) \<and> 2 \<le> length (shape b) \<and> tl (shape a) = tl (shape b)
     \<and> hd (shape a) = n1 \<and> hd (shape b) = n2"

text \<open>
  The user-supplied parts of a block act on each graph of a batch on its own: the model
  maps rows to rows, and the reducers reduce each segment on its own.
\<close>

definition edge_block_row_wise :: "edge_block \<Rightarrow> bool" where
  "edge_block_row_wise blk \<longleftrightarrow> row_wise (edge_model blk)"

definition node_block_row_wise :: "node_block \<Rightarrow> bool" where
  "node_block_row_wise blk \<longleftrightarrow>
     row_wise (node_model blk) \<and> segment_wise (nb_received_edges_reducer blk)
     \<and> segment_wise (nb_sent_edges_reducer blk)"

definition global_block_row_wise :: "global_block \<Rightarrow> bool" where
  "global_block_row_wise blk \<longleftrightarrow>
     row_wise (global_model blk) \<and> segment_wise (gb_edges_reducer blk)
     \<and> segment_wise (gb_nodes_reducer blk)"

text \<open>
  The same for the optional models of \<^verbatim>\<open>GraphIndependent\<close> (an absent model is the identity).
\<close>

definition optional_row_wise :: "model option \<Rightarrow> bool" where
  "optional_row_wise m = (case m of None \<Rightarrow> True | Some f \<Rightarrow> row_wise f)"

text \<open>
  A second example graph: one node with an edge to itself.
\<close>

definition example_graph2 :: GraphsTuple where
  "example_graph2 =
     \<lparr>nodes = Some (matrix 1 [[5]]), edges = Some (matrix 1 [[6]]),
      receivers = Some [0], senders = Some [0], globals = Some (matrix 1 [[7]]),
      n_node = [1], n_edge = [1]\<rparr>"

definition example_values2 :: tensor where
  "example_values2 = tensor3 1 1 [[[9]]]"

definition example_keys2 :: tensor where
  "example_keys2 = tensor3 1 1 [[[1]]]"

definition example_queries2 :: tensor where
  "example_queries2 = tensor3 1 1 [[[2]]]"

text \<open>
  A model that does not work row by row: every row of its output is a copy of the first
  row of its input (in TensorFlow \<^verbatim>\<open>lambda x: tf.tile(x[:1], [tf.shape(x)[0], 1])\<close>). It
  stands for any callable that looks across rows, such as one that normalizes over the
  rows it is given.
\<close>

definition first_row_model :: model where
  "first_row_model t = Some (mk_tensor (shape t) (\<lambda>idx. entry t (0 # tl idx)))"

definition first_row_GraphIndependent :: GraphIndependent where
  "first_row_GraphIndependent = GraphIndependent_init None (Some first_row_model) None"

section \<open>Basic facts about tensors\<close>

lemma shape_mk_tensor [simp]: "shape (mk_tensor s f) = s"
  by (simp add: mk_tensor_def)

lemma entry_mk_tensor [simp]:
  "entry (mk_tensor s f) idx = (if valid_index s idx then f idx else 0)"
  by (simp add: mk_tensor_def)

lemma valid_index_Nil [simp]: "valid_index [] idx \<longleftrightarrow> idx = []"
  by (simp add: valid_index_def)

lemma valid_index_Cons [simp]:
  "valid_index (n # s) idx \<longleftrightarrow> (\<exists>i r. idx = i # r \<and> i < n \<and> valid_index s r)"
  by (cases idx) (auto simp: valid_index_def)

lemma valid_index_length: "valid_index s idx \<Longrightarrow> length idx = length s"
  by (simp add: valid_index_def list_all2_lengthD)

lemma mk_tensor_cong:
  "(\<And>idx. valid_index s idx \<Longrightarrow> f idx = g idx) \<Longrightarrow> mk_tensor s f = mk_tensor s g"
  by (auto simp: mk_tensor_def)

lemma broadcast_dims_same [simp]: "broadcast_dims xs xs = Some xs"
  by (induction xs) auto

lemma broadcast_index_same:
  "list_all2 (<) idx s \<Longrightarrow> broadcast_index s idx = idx"
  by (induction s idx rule: broadcast_index.induct) auto

lemma valid_index_rev: "valid_index (rev s) idx \<longleftrightarrow> valid_index s (rev idx)"
  by (metis list_all2_rev1 valid_index_def)

lemma tf_binary_same_shape:
  assumes "shape a = shape b"
  shows "tf_binary f a b = Some (mk_tensor (shape a) (\<lambda>idx. f (entry a idx) (entry b idx)))"
proof -
  have "rev (broadcast_index (rev (shape b)) (rev idx)) = idx" if "valid_index (shape b) idx" for idx
    using that by (simp add: broadcast_index_same valid_index_def)
  then show ?thesis
    using assms by (auto simp: tf_binary_def intro!: mk_tensor_cong)
qed

lemma tf_binary_last_one:
  assumes "shape a = pre @ [d]" "shape b = pre @ [1]"
  shows "tf_binary f a b = Some (mk_tensor (shape a) (\<lambda>idx. f (entry a idx) (entry b (butlast idx @ [0]))))"
proof -
  have 1: "rev (broadcast_index (rev (shape a)) (rev idx)) = idx" if "valid_index (shape a) idx" for idx
    using that by (simp add: broadcast_index_same valid_index_def)
  have 2: "rev (broadcast_index (rev (shape b)) (rev idx)) = butlast idx @ [0]" if "valid_index (shape a) idx" for idx
  proof -
    from that obtain p i where idx: "idx = p @ [i]" and p: "list_all2 (<) p pre"
      unfolding assms valid_index_def by (auto simp: list_all2_append2 list_all2_Cons2)
    show ?thesis using p by (simp add: idx assms broadcast_index_same)
  qed
  show ?thesis
    using 1 2 by (auto simp: tf_binary_def assms intro!: mk_tensor_cong)
qed

lemma tf_gather_Some:
  "shape p = n # inner \<Longrightarrow> list_all (\<lambda>i. 0 \<le> i \<and> i < int n) ids \<Longrightarrow>
   tf_gather p ids = Some (mk_tensor (length ids # inner) (\<lambda>idx. entry p (nat (ids ! hd idx) # tl idx)))"
  by (simp add: tf_gather_def)

lemma segment_members_nat:
  "0 \<le> ids ! e \<Longrightarrow> segment_members ids (nat (ids ! e)) = same_segment ids e"
  by (simp add: segment_members_def same_segment_def)

lemma same_segment_self: "e < length ids \<Longrightarrow> e \<in> set (same_segment ids e)"
  by (simp add: same_segment_def)

lemma same_segment_trans:
  "j \<in> set (same_segment ids e) \<Longrightarrow> same_segment ids j = same_segment ids e"
  by (simp add: same_segment_def)

lemma same_segment_bound: "j \<in> set (same_segment ids e) \<Longrightarrow> j < length ids"
  by (simp add: same_segment_def)

lemma fold_max_Max: "(case map f (x # xs) of [] \<Rightarrow> l | m # ms \<Rightarrow> fold max ms m) = Max (f ` set (x # xs))"
  by (simp add: Max.set_eq_fold [symmetric])

lemma segment_case_Max:
  "xs \<noteq> [] \<Longrightarrow> (case map f xs of [] \<Rightarrow> l | m # ms \<Rightarrow> fold max ms (m::real)) = Max (f ` set xs)"
  by (cases xs) (simp_all add: Max.set_eq_fold [symmetric])

lemma softmax_closed_form:
  assumes sh: "shape data = length ids # inner"
    and rng: "list_all (\<lambda>i. 0 \<le> i \<and> i < num) ids" and num: "0 \<le> num"
  shows "unsorted_segment_softmax lowest data ids num = Some (segment_softmax_spec data ids)"
proof -
  let ?E = "length ids"
  have idr: "0 \<le> ids ! e \<and> ids ! e < num" if "e < ?E" for e
    using rng that by (simp add: list_all_length)
  have rng': "list_all (\<lambda>i. 0 \<le> i \<and> i < int (nat num)) ids"
    using rng num by (simp add: list_all_length)
  have rng'': "list_all (\<lambda>i. i < num) ids"
    using rng by (simp add: list_all_length)
  define M where "M = (\<lambda>e r. Max ((\<lambda>j. entry data (j # r)) ` set (same_segment ids e)))"
  define segment_maxes where "segment_maxes = mk_tensor (nat num # inner)
     (\<lambda>idx. case map (\<lambda>i. entry data (i # tl idx)) (segment_members ids (hd idx)) of
              [] \<Rightarrow> lowest | m # ms \<Rightarrow> fold max ms m)"
  have 1: "tf_unsorted_segment_max lowest data ids num = Some segment_maxes"
    using sh rng'' num by (simp add: tf_unsorted_segment_max_def segment_maxes_def)
  define maxes where "maxes = mk_tensor (?E # inner) (\<lambda>idx. M (hd idx) (tl idx))"
  have "tf_gather segment_maxes ids
      = Some (mk_tensor (?E # inner) (\<lambda>idx. entry segment_maxes (nat (ids ! hd idx) # tl idx)))"
    by (rule tf_gather_Some [OF _ rng']) (simp add: segment_maxes_def)
  also have "mk_tensor (?E # inner) (\<lambda>idx. entry segment_maxes (nat (ids ! hd idx) # tl idx)) = maxes"
    unfolding maxes_def
  proof (rule mk_tensor_cong)
    fix idx assume "valid_index (?E # inner) idx"
    then obtain e r where idx: "idx = e # r" and e: "e < ?E" and r: "valid_index inner r"
      by auto
    have ne: "same_segment ids e \<noteq> []"
      using same_segment_self [OF e] by auto
    show "entry segment_maxes (nat (ids ! hd idx) # tl idx) = M (hd idx) (tl idx)"
      using idr [OF e] r ne
      by (simp add: idx segment_maxes_def segment_members_nat M_def segment_case_Max)
  qed
  finally have 2: "tf_gather segment_maxes ids = Some maxes" .
  define data' where "data' = mk_tensor (?E # inner) (\<lambda>idx. entry data idx - entry maxes idx)"
  have 3: "tf_binary (-) data maxes = Some data'"
    using sh by (simp add: tf_binary_same_shape maxes_def data'_def)
  define exp_data where "exp_data = tf_exp data'"
  have exp_entry: "entry exp_data (e # r) = exp (entry data (e # r) - M e r)"
    if "e < ?E" "valid_index inner r" for e r
    using that by (simp add: exp_data_def tf_exp_def data'_def maxes_def)
  have exp_shape: "shape exp_data = ?E # inner"
    by (simp add: exp_data_def tf_exp_def data'_def)
  define S where "S = (\<lambda>e r. \<Sum>j\<leftarrow>same_segment ids e. exp (entry data (j # r) - M e r))"
  define segment_sums where "segment_sums = mk_tensor (nat num # inner)
     (\<lambda>idx. sum_list (map (\<lambda>i. entry exp_data (i # tl idx)) (segment_members ids (hd idx))))"
  have 4: "tf_unsorted_segment_sum exp_data ids num = Some segment_sums"
    using exp_shape rng'' num by (simp add: tf_unsorted_segment_sum_def segment_sums_def)
  define sum_exp where "sum_exp = mk_tensor (?E # inner) (\<lambda>idx. S (hd idx) (tl idx))"
  have "tf_gather segment_sums ids
      = Some (mk_tensor (?E # inner) (\<lambda>idx. entry segment_sums (nat (ids ! hd idx) # tl idx)))"
    by (rule tf_gather_Some [OF _ rng']) (simp add: segment_sums_def)
  also have "mk_tensor (?E # inner) (\<lambda>idx. entry segment_sums (nat (ids ! hd idx) # tl idx)) = sum_exp"
    unfolding sum_exp_def
  proof (rule mk_tensor_cong)
    fix idx assume "valid_index (?E # inner) idx"
    then obtain e r where idx: "idx = e # r" and e: "e < ?E" and r: "valid_index inner r"
      by auto
    have "(\<Sum>i\<leftarrow>same_segment ids e. entry exp_data (i # r)) = S e r"
      unfolding S_def
    proof (rule arg_cong [where f = sum_list], rule map_cong [OF refl])
      fix j assume j: "j \<in> set (same_segment ids e)"
      then have "M j r = M e r"
        by (simp add: M_def same_segment_trans)
      then show "entry exp_data (j # r) = exp (entry data (j # r) - M e r)"
        using exp_entry [OF same_segment_bound [OF j] r] by simp
    qed
    then show "entry segment_sums (nat (ids ! hd idx) # tl idx) = S (hd idx) (tl idx)"
      using idr [OF e] r by (simp add: idx segment_sums_def segment_members_nat)
  qed
  finally have 5: "tf_gather segment_sums ids = Some sum_exp" .
  have "tf_binary (/) exp_data sum_exp
      = Some (mk_tensor (?E # inner) (\<lambda>idx. entry exp_data idx / entry sum_exp idx))"
    using exp_shape by (simp add: tf_binary_same_shape sum_exp_def)
  also have "mk_tensor (?E # inner) (\<lambda>idx. entry exp_data idx / entry sum_exp idx)
      = segment_softmax_spec data ids"
    unfolding segment_softmax_spec_def sh
  proof (rule mk_tensor_cong)
    fix idx assume "valid_index (?E # inner) idx"
    then obtain e r where idx: "idx = e # r" and e: "e < ?E" and r: "valid_index inner r"
      by auto
    show "entry exp_data idx / entry sum_exp idx =
          (let seg = same_segment ids (hd idx);
               m = Max ((\<lambda>j. entry data (j # tl idx)) ` set seg)
           in exp (entry data idx - m) / (\<Sum>j\<leftarrow>seg. exp (entry data (j # tl idx) - m)))"
      using e r by (simp add: idx exp_entry sum_exp_def S_def M_def Let_def)
  qed
  finally have 6: "tf_binary (/) exp_data sum_exp = Some (segment_softmax_spec data ids)" .
  show ?thesis
    unfolding unsorted_segment_softmax_def
    by (simp add: 1 2 3 4 5 6 exp_data_def [symmetric] Let_def)
qed

lemma Max_shift:
  fixes A :: "real set"
  assumes "finite A" "A \<noteq> {}"
  shows "Max ((\<lambda>x. x + d) ` A) = Max A + d"
  using mono_Max_commute [of "\<lambda>x. x + d" A] assms by (simp add: mono_def)

section \<open>The segment softmax in floating point\<close>

lemma foldl_add_sum_list: "foldl (+) a xs = a + sum_list (xs :: real list)"
  by (induction xs arbitrary: a) simp_all

lemma softmax_rounded_exact:
  "unsorted_segment_softmax_rounded (\<lambda>x. x) exp lowest = unsorted_segment_softmax lowest"
proof -
  have "tf_unsorted_segment_sum_rounded (\<lambda>x. x) = tf_unsorted_segment_sum"
    by (intro ext)
      (auto simp: tf_unsorted_segment_sum_rounded_def tf_unsorted_segment_sum_def
        foldl_add_sum_list split: list.splits)
  moreover have "tf_exp_rounded exp = tf_exp"
    by (intro ext) (simp add: tf_exp_rounded_def tf_exp_def)
  ultimately show ?thesis
    by (intro ext) (simp add: unsorted_segment_softmax_rounded_def unsorted_segment_softmax_def)
qed

lemma softmax_rounded_closed_form:
  assumes sh: "shape data = length ids # inner"
    and rng: "list_all (\<lambda>i. 0 \<le> i \<and> i < num) ids" and num: "0 \<le> num"
  shows "unsorted_segment_softmax_rounded rnd fexp lowest data ids num
       = Some (segment_softmax_spec_rounded rnd fexp data ids)"
proof -
  let ?E = "length ids"
  let ?sum = "foldl (\<lambda>acc x. rnd (acc + x)) 0"
  have idr: "0 \<le> ids ! e \<and> ids ! e < num" if "e < ?E" for e
    using rng that by (simp add: list_all_length)
  have rng': "list_all (\<lambda>i. 0 \<le> i \<and> i < int (nat num)) ids"
    using rng num by (simp add: list_all_length)
  have rng'': "list_all (\<lambda>i. i < num) ids"
    using rng by (simp add: list_all_length)
  define M where "M = (\<lambda>e r. Max ((\<lambda>j. entry data (j # r)) ` set (same_segment ids e)))"
  define segment_maxes where "segment_maxes = mk_tensor (nat num # inner)
     (\<lambda>idx. case map (\<lambda>i. entry data (i # tl idx)) (segment_members ids (hd idx)) of
              [] \<Rightarrow> lowest | m # ms \<Rightarrow> fold max ms m)"
  have 1: "tf_unsorted_segment_max lowest data ids num = Some segment_maxes"
    using sh rng'' num by (simp add: tf_unsorted_segment_max_def segment_maxes_def)
  define maxes where "maxes = mk_tensor (?E # inner) (\<lambda>idx. M (hd idx) (tl idx))"
  have "tf_gather segment_maxes ids
      = Some (mk_tensor (?E # inner) (\<lambda>idx. entry segment_maxes (nat (ids ! hd idx) # tl idx)))"
    by (rule tf_gather_Some [OF _ rng']) (simp add: segment_maxes_def)
  also have "mk_tensor (?E # inner) (\<lambda>idx. entry segment_maxes (nat (ids ! hd idx) # tl idx)) = maxes"
    unfolding maxes_def
  proof (rule mk_tensor_cong)
    fix idx assume "valid_index (?E # inner) idx"
    then obtain e r where idx: "idx = e # r" and e: "e < ?E" and r: "valid_index inner r"
      by auto
    have ne: "same_segment ids e \<noteq> []"
      using same_segment_self [OF e] by auto
    show "entry segment_maxes (nat (ids ! hd idx) # tl idx) = M (hd idx) (tl idx)"
      using idr [OF e] r ne
      by (simp add: idx segment_maxes_def segment_members_nat M_def segment_case_Max)
  qed
  finally have 2: "tf_gather segment_maxes ids = Some maxes" .
  define data' where
    "data' = mk_tensor (?E # inner) (\<lambda>idx. rnd (entry data idx - entry maxes idx))"
  have 3: "tf_binary (\<lambda>a b. rnd (a - b)) data maxes = Some data'"
    using sh by (simp add: tf_binary_same_shape maxes_def data'_def)
  define exp_data where "exp_data = tf_exp_rounded fexp data'"
  have exp_entry: "entry exp_data (e # r) = fexp (rnd (entry data (e # r) - M e r))"
    if "e < ?E" "valid_index inner r" for e r
    using that by (simp add: exp_data_def tf_exp_rounded_def data'_def maxes_def)
  have exp_shape: "shape exp_data = ?E # inner"
    by (simp add: exp_data_def tf_exp_rounded_def data'_def)
  define S where
    "S = (\<lambda>e r. ?sum (map (\<lambda>j. fexp (rnd (entry data (j # r) - M e r))) (same_segment ids e)))"
  define segment_sums where "segment_sums = mk_tensor (nat num # inner)
     (\<lambda>idx. ?sum (map (\<lambda>i. entry exp_data (i # tl idx)) (segment_members ids (hd idx))))"
  have 4: "tf_unsorted_segment_sum_rounded rnd exp_data ids num = Some segment_sums"
    using exp_shape rng'' num
    by (simp add: tf_unsorted_segment_sum_rounded_def segment_sums_def)
  define sum_exp where "sum_exp = mk_tensor (?E # inner) (\<lambda>idx. S (hd idx) (tl idx))"
  have "tf_gather segment_sums ids
      = Some (mk_tensor (?E # inner) (\<lambda>idx. entry segment_sums (nat (ids ! hd idx) # tl idx)))"
    by (rule tf_gather_Some [OF _ rng']) (simp add: segment_sums_def)
  also have "mk_tensor (?E # inner) (\<lambda>idx. entry segment_sums (nat (ids ! hd idx) # tl idx)) = sum_exp"
    unfolding sum_exp_def
  proof (rule mk_tensor_cong)
    fix idx assume "valid_index (?E # inner) idx"
    then obtain e r where idx: "idx = e # r" and e: "e < ?E" and r: "valid_index inner r"
      by auto
    have "?sum (map (\<lambda>i. entry exp_data (i # r)) (same_segment ids e)) = S e r"
      unfolding S_def
    proof (rule arg_cong [where f = ?sum], rule map_cong [OF refl])
      fix j assume j: "j \<in> set (same_segment ids e)"
      then have "M j r = M e r"
        by (simp add: M_def same_segment_trans)
      then show "entry exp_data (j # r) = fexp (rnd (entry data (j # r) - M e r))"
        using exp_entry [OF same_segment_bound [OF j] r] by simp
    qed
    then show "entry segment_sums (nat (ids ! hd idx) # tl idx) = S (hd idx) (tl idx)"
      using idr [OF e] r by (simp add: idx segment_sums_def segment_members_nat)
  qed
  finally have 5: "tf_gather segment_sums ids = Some sum_exp" .
  have "tf_binary (\<lambda>a b. rnd (a / b)) exp_data sum_exp
      = Some (mk_tensor (?E # inner) (\<lambda>idx. rnd (entry exp_data idx / entry sum_exp idx)))"
    using exp_shape by (simp add: tf_binary_same_shape sum_exp_def)
  also have "mk_tensor (?E # inner) (\<lambda>idx. rnd (entry exp_data idx / entry sum_exp idx))
      = segment_softmax_spec_rounded rnd fexp data ids"
    unfolding segment_softmax_spec_rounded_def sh
  proof (rule mk_tensor_cong)
    fix idx assume "valid_index (?E # inner) idx"
    then obtain e r where idx: "idx = e # r" and e: "e < ?E" and r: "valid_index inner r"
      by auto
    show "rnd (entry exp_data idx / entry sum_exp idx) =
          (let seg = same_segment ids (hd idx);
               m = Max ((\<lambda>j. entry data (j # tl idx)) ` set seg)
           in rnd (fexp (rnd (entry data idx - m))
                / ?sum (map (\<lambda>j. fexp (rnd (entry data (j # tl idx) - m))) seg)))"
      using e r by (simp add: idx exp_entry sum_exp_def S_def M_def Let_def)
  qed
  finally have 6: "tf_binary (\<lambda>a b. rnd (a / b)) exp_data sum_exp
      = Some (segment_softmax_spec_rounded rnd fexp data ids)" .
  show ?thesis
    unfolding unsorted_segment_softmax_rounded_def
    by (simp add: 1 2 3 4 5 6 exp_data_def [symmetric] Let_def)
qed

lemma softmax_rounded_None:
  assumes "\<not> (\<exists>inner. shape data = length ids # inner \<and> list_all (\<lambda>i. 0 \<le> i \<and> i < num) ids \<and> 0 \<le> num)"
  shows "unsorted_segment_softmax_rounded rnd fexp lowest data ids num = None"
proof (cases "shape data")
  case Nil
  then show ?thesis
    by (simp add: unsorted_segment_softmax_rounded_def tf_unsorted_segment_max_def)
next
  case (Cons n inner)
  show ?thesis
  proof (cases "length ids = n \<and> 0 \<le> num \<and> list_all (\<lambda>i. i < num) ids")
    case False
    then have "tf_unsorted_segment_max lowest data ids num = None"
      by (auto simp: tf_unsorted_segment_max_def Cons)
    then show ?thesis
      by (simp add: unsorted_segment_softmax_rounded_def)
  next
    case True
    with assms Cons have "\<not> list_all (\<lambda>i. 0 \<le> i \<and> i < int (nat num)) ids"
      by (auto simp: list_all_length)
    then have "tf_gather (mk_tensor (nat num # inner) f) ids = None" for f
      by (simp add: tf_gather_def)
    then show ?thesis
      using True
      by (simp add: unsorted_segment_softmax_rounded_def tf_unsorted_segment_max_def Cons)
  qed
qed

lemma spec_rounded_shift:
  assumes sh: "shape data = length ids # inner"
  shows "segment_softmax_spec_rounded rnd fexp (add_to_segment data ids s c) ids
       = segment_softmax_spec_rounded rnd fexp data ids"
proof -
  let ?sum = "foldl (\<lambda>acc x. rnd (acc + x)) 0"
  let ?d = "add_to_segment data ids s c"
  have sh': "shape ?d = length ids # inner"
    using sh by (simp add: add_to_segment_def)
  have "(let seg = same_segment ids (hd idx);
               m = Max ((\<lambda>j. entry ?d (j # tl idx)) ` set seg)
           in rnd (fexp (rnd (entry ?d idx - m))
                / ?sum (map (\<lambda>j. fexp (rnd (entry ?d (j # tl idx) - m))) seg)))
        = (let seg = same_segment ids (hd idx);
               m = Max ((\<lambda>j. entry data (j # tl idx)) ` set seg)
           in rnd (fexp (rnd (entry data idx - m))
                / ?sum (map (\<lambda>j. fexp (rnd (entry data (j # tl idx) - m))) seg)))"
    if "valid_index (length ids # inner) idx" for idx
  proof -
    from that obtain e r where idx: "idx = e # r" and e: "e < length ids" and r: "valid_index inner r"
      by auto
    define d where "d = (if ids ! e = s then c else 0)"
    let ?seg = "same_segment ids e"
    have ent: "entry ?d (j # r) = entry data (j # r) + d"
      if "j \<in> set ?seg" for j
      using that r sh by (auto simp: add_to_segment_def same_segment_def d_def)
    have ne: "set ?seg \<noteq> {}"
      using same_segment_self [OF e] by auto
    have "(\<lambda>j. entry ?d (j # r)) ` set ?seg
        = (\<lambda>x. x + d) ` ((\<lambda>j. entry data (j # r)) ` set ?seg)"
      using ent by (auto simp: image_iff)
    then have mx: "Max ((\<lambda>j. entry ?d (j # r)) ` set ?seg)
        = Max ((\<lambda>j. entry data (j # r)) ` set ?seg) + d"
      using ne by (simp add: Max_shift)
    have sm: "?sum (map (\<lambda>j. fexp (rnd (entry ?d (j # r) - (m + d)))) ?seg)
            = ?sum (map (\<lambda>j. fexp (rnd (entry data (j # r) - m))) ?seg)" for m
      by (rule arg_cong [where f = ?sum], rule map_cong [OF refl]) (simp add: ent)
    show ?thesis
      using ent [OF same_segment_self [OF e]]
      by (simp add: idx Let_def mx sm)
  qed
  then show ?thesis
    unfolding segment_softmax_spec_rounded_def sh' sh by (rule mk_tensor_cong)
qed

lemma softmax_rounded_shift:
  "unsorted_segment_softmax_rounded rnd fexp lowest (add_to_segment data ids s c) ids num
     = unsorted_segment_softmax_rounded rnd fexp lowest data ids num"
proof (cases "\<exists>inner. shape data = length ids # inner \<and> list_all (\<lambda>i. 0 \<le> i \<and> i < num) ids \<and> 0 \<le> num")
  case True
  then obtain inner where sh: "shape data = length ids # inner"
    and rng: "list_all (\<lambda>i. 0 \<le> i \<and> i < num) ids" and num: "0 \<le> num"
    by blast
  have sh': "shape (add_to_segment data ids s c) = length ids # inner"
    using sh by (simp add: add_to_segment_def)
  show ?thesis
    by (simp add: softmax_rounded_closed_form [OF sh rng num]
        softmax_rounded_closed_form [OF sh' rng num] spec_rounded_shift [OF sh])
next
  case False
  then have "\<not> (\<exists>inner. shape (add_to_segment data ids s c) = length ids # inner
        \<and> list_all (\<lambda>i. 0 \<le> i \<and> i < num) ids \<and> 0 \<le> num)"
    by (simp add: add_to_segment_def)
  then show ?thesis
    using False by (simp add: softmax_rounded_None)
qed

lemma upt_3: "[0..<3] = [0, 1, 2::nat]"
  by (simp add: upt_rec)

lemma upt_2: "[0..<2] = [0, 1::nat]"
  by (simp add: upt_rec)

lemma softmax_rounded_zeros:
  assumes "rnd 0 = 0" "rnd 1 = 1" "rnd 2 = 2" "rnd 3 = 3" "fexp 0 = 1"
  shows "map_option entries_1d
           (unsorted_segment_softmax_rounded rnd fexp lowest (vector [0, 0, 0]) [0, 0, 0] 1)
     = Some [rnd (1/3), rnd (1/3), rnd (1/3)]"
proof -
  have "unsorted_segment_softmax_rounded rnd fexp lowest (vector [0, 0, 0]) [0, 0, 0] 1
      = Some (segment_softmax_spec_rounded rnd fexp (vector [0, 0, 0]) [0, 0, 0])"
    by (rule softmax_rounded_closed_form [where inner = "[]"]) (simp_all add: vector_def)
  then show ?thesis
    using assms
    by (simp add: entries_1d_def segment_softmax_spec_rounded_def vector_def same_segment_def
        upt_3)
qed

lemma round_half_even_int [simp]: "round_half_even (of_int k) = k"
  by (simp add: round_half_even_def)

lemma round_half_even_small:
  assumes "\<bar>y\<bar> < 1/2"
  shows "round_half_even y = 0"
proof (cases "0 \<le> y")
  case True
  then have "\<lfloor>y\<rfloor> = 0"
    using assms by (simp add: floor_eq_iff)
  then show ?thesis
    using assms True by (simp add: round_half_even_def)
next
  case False
  then have "\<lfloor>y\<rfloor> = - 1"
    using assms by (simp add: floor_eq_iff)
  then show ?thesis
    using assms False by (simp add: round_half_even_def)
qed

lemma float32_round_0 [simp]: "float32_round 0 = 0"
  by (simp add: float32_round_def round_half_even_def)

lemma float32_exponent:
  assumes "2 powr of_int e \<le> \<bar>x\<bar>" "\<bar>x\<bar> < 2 powr of_int (e + 1)"
  shows "\<lfloor>log 2 \<bar>x\<bar>\<rfloor> = e"
proof -
  have "0 < \<bar>x\<bar>"
    using assms(1) by (smt (verit) powr_gt_zero)
  then show ?thesis
    using assms by (simp add: floor_log_eq_powr_iff)
qed

lemma float32_round_binade:
  assumes "2 powr of_int e \<le> \<bar>x\<bar>" "\<bar>x\<bar> < 2 powr of_int (e + 1)" "- 126 \<le> e"
  shows "float32_round x = of_int (round_half_even (x / 2 powr of_int (e - 23))) * 2 powr of_int (e - 23)"
  using assms float32_exponent [OF assms(1,2)]
  by (simp add: float32_round_def Let_def max_def)

lemma float32_round_exact:
  assumes "2 powr of_int e \<le> \<bar>x\<bar>" "\<bar>x\<bar> < 2 powr of_int (e + 1)" "- 126 \<le> e"
    and "x / 2 powr of_int (e - 23) = of_int k"
  shows "float32_round x = x"
proof -
  have "float32_round x = of_int k * 2 powr of_int (e - 23)"
    unfolding float32_round_binade [OF assms(1-3)] assms(4) by simp
  also have "\<dots> = x"
    using assms(4) by (simp add: field_simps)
  finally show ?thesis .
qed

lemma float32_round_tiny:
  assumes "\<bar>x\<bar> < 2 powr - 150"
  shows "float32_round x = 0"
proof (cases "x = 0")
  case True
  then show ?thesis by simp
next
  case False
  have "log 2 \<bar>x\<bar> < - 150"
    using assms False by (simp add: log_less_iff)
  then have "\<lfloor>log 2 \<bar>x\<bar>\<rfloor> \<le> - 126"
    by linarith
  then have e: "max \<lfloor>log 2 \<bar>x\<bar>\<rfloor> (- 126) = - 126"
    by simp
  have q: "\<bar>x / 2 powr - 149\<bar> < 1/2"
  proof -
    have "2 powr - 150 = 2 powr - 149 * (1/2 :: real)"
      by (simp add: powr_minus field_simps)
    then have "\<bar>x\<bar> < 2 powr - 149 * (1/2)"
      using assms by simp
    then show ?thesis
      by (simp add: abs_divide field_simps)
  qed
  have "round_half_even (x / 2 powr - 149) = 0"
    using q by (rule round_half_even_small)
  then show ?thesis
    by (simp add: float32_round_def e)
qed

lemma float32_values:
  "float32_round 1 = 1" "float32_round 2 = 2" "float32_round 3 = 3" "float32_round (1/2) = 1/2"
  "float32_round (- 1000) = - 1000" "float32_round (2 ^ 40) = 2 ^ 40"
  "float32_round 6 = 6" "float32_round 7 = 7"
proof -
  show "float32_round 1 = 1"
    by (rule float32_round_exact [where e = 0 and k = "2 ^ 23"]) (simp_all add: powr_minus)
  show "float32_round 2 = 2"
    by (rule float32_round_exact [where e = 1 and k = "2 ^ 23"]) (simp_all add: powr_minus)
  show "float32_round 3 = 3"
    by (rule float32_round_exact [where e = 1 and k = "3 * 2 ^ 22"]) (simp_all add: powr_minus)
  show "float32_round (1/2) = 1/2"
    by (rule float32_round_exact [where e = "-1" and k = "2 ^ 23"]) (simp_all add: powr_minus)
  show "float32_round (- 1000) = - 1000"
    by (rule float32_round_exact [where e = 9 and k = "- 1000 * 2 ^ 14"]) (simp_all add: powr_minus)
  show "float32_round (2 ^ 40) = 2 ^ 40"
    by (rule float32_round_exact [where e = 40 and k = "2 ^ 23"]) (simp_all add: powr_minus)
  show "float32_round 6 = 6"
    by (rule float32_round_exact [where e = 2 and k = "6 * 2 ^ 21"]) (simp_all add: powr_minus)
  show "float32_round 7 = 7"
    by (rule float32_round_exact [where e = 2 and k = "7 * 2 ^ 21"]) (simp_all add: powr_minus)
qed

lemma float32_round_absorbs: "float32_round (2 ^ 40 - 1000) = 2 ^ 40"
proof -
  have "float32_round (2 ^ 40 - 1000)
      = of_int (round_half_even ((2 ^ 40 - 1000) / 2 powr of_int (39 - 23))) * 2 powr of_int (39 - 23)"
    by (rule float32_round_binade) simp_all
  moreover have "round_half_even ((2 ^ 40 - 1000) / 2 ^ 16) = 2 ^ 24"
    by (simp add: round_half_even_def)
  ultimately show ?thesis
    by simp
qed

lemma float32_round_third: "float32_round (1/3) = 11184811 / 33554432"
proof -
  have "float32_round (1/3)
      = of_int (round_half_even ((1/3) / 2 powr of_int (- 2 - 23))) * 2 powr of_int (- 2 - 23)"
    by (rule float32_round_binade) (simp_all add: powr_minus)
  moreover have "round_half_even ((1/3) / (1 / 2 ^ 25)) = 11184811"
    by (simp add: round_half_even_def)
  ultimately show ?thesis
    by (simp add: powr_minus)
qed

lemma exp_underflow: "exp (- 1000 :: real) < 2 powr - 150"
proof -
  have "(2::real) \<le> exp 1"
    using exp_ge_add_one_self [of "1::real"] by simp
  then have "(2::real) ^ 1000 \<le> exp 1 ^ 1000"
    by (rule power_mono) simp
  also have "\<dots> = exp (1000::real)"
    using exp_of_nat_mult [of 1000 "1::real"] by simp
  finally have "exp (- 1000 :: real) \<le> 1 / 2 ^ 1000"
    by (simp add: exp_minus field_simps)
  also have "\<dots> < 2 powr - 150"
    by (simp add: powr_minus field_simps)
  finally show ?thesis .
qed

lemma float32_exp_values: "float32_exp 0 = 1" "float32_exp (- 1000) = 0"
  using exp_underflow
  by (simp_all add: float32_exp_def float32_values float32_round_tiny)

lemma float32_large:
  "float32_round 1099511627776 = 1099511627776" "float32_round 1099511626776 = 1099511627776"
  using float32_values(6) float32_round_absorbs by simp_all

lemma vector_2: "vector [a, b] = mk_tensor [2] (\<lambda>idx. [a, b] ! hd idx)"
  by (simp add: vector_def numeral_2_eq_2)

lemma vector_3: "vector [a, b, c] = mk_tensor [3] (\<lambda>idx. [a, b, c] ! hd idx)"
  by (simp add: vector_def numeral_3_eq_3)

lemma float32_shift_rounds:
  "add_to_segment_rounded float32_round (vector [0, - 1000]) [0, 0] 0 (2 ^ 40)
     = vector [2 ^ 40, 2 ^ 40]"
  unfolding add_to_segment_rounded_def vector_2 shape_mk_tensor
  by (rule mk_tensor_cong) (auto simp: less_Suc_eq numeral_2_eq_2 float32_large)

lemma float32_softmax_far_apart:
  "map_option entries_1d (float32_softmax (vector [0, - 1000]) [0, 0] 1) = Some [1, 0]"
proof -
  have "float32_softmax (vector [0, - 1000]) [0, 0] 1
      = Some (segment_softmax_spec_rounded float32_round float32_exp (vector [0, - 1000]) [0, 0])"
    unfolding float32_softmax_def
    by (rule softmax_rounded_closed_form [where inner = "[]"]) (simp_all add: vector_def)
  then show ?thesis
    by (simp add: entries_1d_def segment_softmax_spec_rounded_def vector_def same_segment_def
        upt_2 float32_values float32_exp_values float32_large)
qed

lemma float32_softmax_equal:
  "map_option entries_1d (float32_softmax (vector [2 ^ 40, 2 ^ 40]) [0, 0] 1) = Some [1/2, 1/2]"
proof -
  have "float32_softmax (vector [2 ^ 40, 2 ^ 40]) [0, 0] 1
      = Some (segment_softmax_spec_rounded float32_round float32_exp (vector [2 ^ 40, 2 ^ 40]) [0, 0])"
    unfolding float32_softmax_def
    by (rule softmax_rounded_closed_form [where inner = "[]"]) (simp_all add: vector_def)
  then show ?thesis
    by (simp add: entries_1d_def segment_softmax_spec_rounded_def vector_def same_segment_def
        upt_2 float32_values float32_exp_values float32_large)
qed

section \<open>Self-attention in closed form\<close>

lemma SelfAttention_closed_form:
  assumes shv: "shape node_values = [N, H, V]"
    and shk: "shape node_keys = [N, H, K]"
    and shq: "shape node_queries = [N, H, K]"
    and ss: "senders g = Some ss" and rs: "receivers g = Some rs"
    and len: "length ss = length rs"
    and rng_s: "list_all (\<lambda>i. 0 \<le> i \<and> i < int N) ss"
    and rng_r: "list_all (\<lambda>i. 0 \<le> i \<and> i < int N) rs"
    and total: "sum_list (n_node g) = int N"
  shows "SelfAttention_build lowest node_values node_keys node_queries g
       = Some (g\<lparr>nodes := Some (SelfAttention_spec node_values node_keys node_queries ss rs)\<rparr>)"
proof -
  let ?E = "length rs"
  define sender_keys where
    "sender_keys = mk_tensor [?E, H, K] (\<lambda>idx. entry node_keys (nat (ss ! hd idx) # tl idx))"
  define sender_values where
    "sender_values = mk_tensor [?E, H, V] (\<lambda>idx. entry node_values (nat (ss ! hd idx) # tl idx))"
  define receiver_queries where
    "receiver_queries = mk_tensor [?E, H, K] (\<lambda>idx. entry node_queries (nat (rs ! hd idx) # tl idx))"
  have 1: "broadcast_sender_nodes_to_edges (g\<lparr>nodes := Some node_keys\<rparr>) = Some sender_keys"
    by (simp add: broadcast_sender_nodes_to_edges_def ss tf_gather_Some [OF shk rng_s]
        sender_keys_def len)
  have 2: "broadcast_sender_nodes_to_edges (g\<lparr>nodes := Some node_values\<rparr>) = Some sender_values"
    by (simp add: broadcast_sender_nodes_to_edges_def ss tf_gather_Some [OF shv rng_s]
        sender_values_def len)
  have 3: "broadcast_receiver_nodes_to_edges (g\<lparr>nodes := Some node_queries\<rparr>) = Some receiver_queries"
    by (simp add: broadcast_receiver_nodes_to_edges_def rs tf_gather_Some [OF shq rng_r]
        receiver_queries_def)
  define products where
    "products = mk_tensor [?E, H, K] (\<lambda>idx. entry sender_keys idx * entry receiver_queries idx)"
  have 4: "tf_binary (*) sender_keys receiver_queries = Some products"
    by (simp add: tf_binary_same_shape sender_keys_def receiver_queries_def products_def)
  define logits where "logits = attention_scores node_keys node_queries ss rs"
  have "tf_reduce_sum_last products
      = Some (mk_tensor [?E, H] (\<lambda>idx. sum_list (map (\<lambda>d. entry products (idx @ [d])) [0..<K])))"
    by (simp add: tf_reduce_sum_last_def products_def)
  also have "mk_tensor [?E, H] (\<lambda>idx. sum_list (map (\<lambda>d. entry products (idx @ [d])) [0..<K])) = logits"
  proof -
    have "(\<Sum>d\<leftarrow>[0..<K]. entry products (idx @ [d]))
        = (\<Sum>k\<leftarrow>[0..<K]. entry node_keys [nat (ss ! (idx ! 0)), idx ! 1, k]
                            * entry node_queries [nat (rs ! (idx ! 0)), idx ! 1, k])"
      if "valid_index [?E, H] idx" for idx
    proof -
      from that obtain e h where idx: "idx = [e, h]" and e: "e < ?E" and h: "h < H"
        by auto
      show ?thesis
        by (rule arg_cong [where f = sum_list], rule map_cong [OF refl])
          (simp add: idx products_def sender_keys_def receiver_queries_def e h)
    qed
    then have "mk_tensor [?E, H] (\<lambda>idx. sum_list (map (\<lambda>d. entry products (idx @ [d])) [0..<K]))
        = mk_tensor [?E, H] (\<lambda>idx. \<Sum>k\<leftarrow>[0..<K]. entry node_keys [nat (ss ! (idx ! 0)), idx ! 1, k]
                            * entry node_queries [nat (rs ! (idx ! 0)), idx ! 1, k])"
      by (rule mk_tensor_cong)
    then show ?thesis
      by (simp add: logits_def attention_scores_def shk len)
  qed
  finally have 5: "tf_reduce_sum_last products = Some logits" .
  have shl: "shape logits = length rs # [H]"
    by (simp add: logits_def attention_scores_def shk len)
  define weights where "weights = segment_softmax_spec logits rs"
  have 6: "received_edges_normalizer (g\<lparr>edges := Some logits\<rparr>) (unsorted_segment_softmax lowest)
         = Some weights"
    by (simp add: received_edges_normalizer_def rs total weights_def
        softmax_closed_form [OF shl rng_r])
  have shw: "shape weights = [?E, H]"
    by (simp add: weights_def segment_softmax_spec_def shl)
  define attented where
    "attented = mk_tensor [?E, H, V] (\<lambda>idx. entry sender_values idx * entry weights (butlast idx))"
  have "tf_binary (*) sender_values (expand_dims_last weights)
      = Some (mk_tensor (shape sender_values)
          (\<lambda>idx. entry sender_values idx * entry (expand_dims_last weights) (butlast idx @ [0])))"
    by (rule tf_binary_last_one [where pre = "[?E, H]" and d = V])
      (simp_all add: sender_values_def expand_dims_last_def shw)
  also have "mk_tensor (shape sender_values)
          (\<lambda>idx. entry sender_values idx * entry (expand_dims_last weights) (butlast idx @ [0]))
      = attented"
  proof -
    have "entry sender_values idx * entry (expand_dims_last weights) (butlast idx @ [0])
        = entry sender_values idx * entry weights (butlast idx)"
      if "valid_index [?E, H, V] idx" for idx
    proof -
      from that obtain e h d where idx: "idx = [e, h, d]" and e: "e < ?E" and h: "h < H" and d: "d < V"
        by auto
      show ?thesis
        by (simp add: idx expand_dims_last_def shw e h d)
    qed
    then have "mk_tensor [?E, H, V]
          (\<lambda>idx. entry sender_values idx * entry (expand_dims_last weights) (butlast idx @ [0]))
        = mk_tensor [?E, H, V] (\<lambda>idx. entry sender_values idx * entry weights (butlast idx))"
      by (rule mk_tensor_cong)
    then show ?thesis
      by (simp add: attented_def sender_values_def)
  qed
  finally have 7: "tf_binary (*) sender_values (expand_dims_last weights) = Some attented" .
  have rng': "list_all (\<lambda>i. i < int N) rs"
    using rng_r by (simp add: list_all_length)
  have "ReceivedEdgesToNodesAggregator tf_unsorted_segment_sum (g\<lparr>edges := Some attented\<rparr>)
      = Some (mk_tensor [N, H, V]
          (\<lambda>idx. sum_list (map (\<lambda>i. entry attented (i # tl idx)) (segment_members rs (hd idx)))))"
    using rng'
    by (simp add: ReceivedEdgesToNodesAggregator_def rs total tf_unsorted_segment_sum_def
        attented_def)
  also have "mk_tensor [N, H, V]
          (\<lambda>idx. sum_list (map (\<lambda>i. entry attented (i # tl idx)) (segment_members rs (hd idx))))
      = SelfAttention_spec node_values node_keys node_queries ss rs"
  proof -
    have "(\<Sum>i\<leftarrow>segment_members rs (hd idx). entry attented (i # tl idx))
        = (\<Sum>e\<leftarrow>edges_into rs (idx ! 0).
             entry node_values [nat (ss ! e), idx ! 1, idx ! 2] * entry weights [e, idx ! 1])"
      if "valid_index [N, H, V] idx" for idx
    proof -
      from that obtain n h d where idx: "idx = [n, h, d]" and n: "n < N" and h: "h < H" and d: "d < V"
        by auto
      have "(\<Sum>i\<leftarrow>edges_into rs n. entry attented [i, h, d])
          = (\<Sum>e\<leftarrow>edges_into rs n. entry node_values [nat (ss ! e), h, d] * entry weights [e, h])"
        by (rule arg_cong [where f = sum_list], rule map_cong [OF refl])
          (simp add: attented_def sender_values_def edges_into_def h d)
      then show ?thesis
        by (simp add: idx segment_members_def edges_into_def)
    qed
    then have "mk_tensor [N, H, V]
          (\<lambda>idx. sum_list (map (\<lambda>i. entry attented (i # tl idx)) (segment_members rs (hd idx))))
        = mk_tensor [N, H, V] (\<lambda>idx. \<Sum>e\<leftarrow>edges_into rs (idx ! 0).
             entry node_values [nat (ss ! e), idx ! 1, idx ! 2] * entry weights [e, idx ! 1])"
      by (rule mk_tensor_cong)
    then show ?thesis
      by (simp add: SelfAttention_spec_def Let_def shv weights_def logits_def)
  qed
  finally have 8: "ReceivedEdgesToNodesAggregator tf_unsorted_segment_sum (g\<lparr>edges := Some attented\<rparr>)
      = Some (SelfAttention_spec node_values node_keys node_queries ss rs)" .
  show ?thesis
    unfolding SelfAttention_build_def
    by (simp add: 1 2 3 4 5 6 7 8)
qed

section \<open>Option dicts\<close>

lemma map_of_fill_defaults_keep:
  "map_of d k = Some x \<Longrightarrow> map_of (fill_defaults defaults d) k = Some x"
  unfolding fill_defaults_def
proof (induction defaults arbitrary: d)
  case Nil
  then show ?case by simp
next
  case (Cons p defaults)
  obtain k' v' where p: "p = (k', v')" by (cases p)
  have "map_of (AList.update k' (dict_get d k' v') d) k = Some x"
    using Cons.prems by (auto simp: update_conv' dict_get_def)
  from Cons.IH [OF this] show ?case
    by (simp add: p)
qed

section \<open>Properties\<close>

text \<open>
  C2, as stated, fails on floating-point data. In single precision, adding \<open>c = 2 ^ 40\<close> to
  the one segment \<open>[0, -1000]\<close> gives \<open>[2 ^ 40, 2 ^ 40]\<close>, the second sum being rounded, and
  \<^verbatim>\<open>_unsorted_segment_softmax\<close> returns \<open>[1/2, 1/2]\<close> for it where it returns \<open>[1, 0]\<close> for the
  data. And the logits \<open>[0, 0, 0]\<close> yield three times \<open>1/3\<close> rounded, \<open>11184811 / 2 ^ 25\<close>, not
  \<open>1/3\<close>.
\<close>

theorem unsorted_segment_softmax_float32_shift_changes_output:
  "map_option entries_1d (float32_softmax (vector [0, - 1000]) [0, 0] 1) = Some [1, 0]
   \<and> add_to_segment_rounded float32_round (vector [0, - 1000]) [0, 0] 0 (2 ^ 40)
       = vector [2 ^ 40, 2 ^ 40]
   \<and> map_option entries_1d
        (float32_softmax
           (add_to_segment_rounded float32_round (vector [0, - 1000]) [0, 0] 0 (2 ^ 40)) [0, 0] 1)
       = Some [1/2, 1/2]
   \<and> map_option entries_1d (float32_softmax (vector [0, 0, 0]) [0, 0, 0] 1)
       = Some [11184811 / 33554432, 11184811 / 33554432, 11184811 / 33554432]
   \<and> map_option entries_1d (float32_softmax (vector [0, 0, 0]) [0, 0, 0] 1)
       \<noteq> Some [1/3, 1/3, 1/3]"
proof -
  have z: "map_option entries_1d (float32_softmax (vector [0, 0, 0]) [0, 0, 0] 1)
       = Some [11184811 / 33554432, 11184811 / 33554432, 11184811 / 33554432]"
    unfolding float32_softmax_def
    by (simp add: softmax_rounded_zeros float32_values float32_exp_values float32_round_third)
  have ne: "map_option entries_1d (float32_softmax (vector [0, 0, 0]) [0, 0, 0] 1)
       \<noteq> Some [1/3, 1/3, 1/3]"
    unfolding z by simp
  show ?thesis
    using float32_softmax_far_apart float32_shift_rounds float32_softmax_equal z ne by simp
qed

text \<open>
  C2, amended. For every floating-point element type (every rounding \<open>rnd\<close> and exponential
  \<open>fexp\<close>), whenever adding the constant \<open>c\<close> to all rows of one segment is exact (no sum is
  rounded), the shifted data gives the same output of \<^verbatim>\<open>_unsorted_segment_softmax\<close> as the
  data. For segment ids in \<open>[0, num_segments)\<close> the output is the per-segment softmax in that
  type: the segment's maximum is subtracted before exponentiation and the result is
  divided by the segment's sum of exponentials. A single segment holding the logits
  \<open>[0, 0, 0]\<close> yields three times \<open>1/3\<close> rounded to the type, provided the type holds \<open>0\<close>, \<open>1\<close>,
  \<open>2\<close>, \<open>3\<close> and its exponential of \<open>0\<close> is \<open>1\<close>.
\<close>

theorem unsorted_segment_softmax_shift_invariant:
  assumes "add_to_segment_rounded rnd data segment_ids s c = add_to_segment data segment_ids s c"
  shows "unsorted_segment_softmax_rounded rnd fexp lowest
           (add_to_segment_rounded rnd data segment_ids s c) segment_ids num_segments
         = unsorted_segment_softmax_rounded rnd fexp lowest data segment_ids num_segments
   \<and> (shape data = length segment_ids # inner
        \<and> list_all (\<lambda>i. 0 \<le> i \<and> i < num_segments) segment_ids \<and> 0 \<le> num_segments
      \<longrightarrow> unsorted_segment_softmax_rounded rnd fexp lowest data segment_ids num_segments
            = Some (segment_softmax_spec_rounded rnd fexp data segment_ids))
   \<and> (rnd 0 = 0 \<and> rnd 1 = 1 \<and> rnd 2 = 2 \<and> rnd 3 = 3 \<and> fexp 0 = 1
      \<longrightarrow> map_option entries_1d
            (unsorted_segment_softmax_rounded rnd fexp lowest (vector [0, 0, 0]) [0, 0, 0] 1)
          = Some [rnd (1/3), rnd (1/3), rnd (1/3)])"
  using assms softmax_rounded_shift [of rnd fexp lowest data segment_ids s c num_segments]
    softmax_rounded_closed_form [of data segment_ids inner num_segments rnd fexp lowest]
    softmax_rounded_zeros [of rnd fexp lowest]
  by simp

theorem unsorted_segment_softmax_shift_invariant_witness:
  "add_to_segment_rounded float32_round (vector [1, 2, 1/2]) [0, 0, 1] 0 5
     = add_to_segment (vector [1, 2, 1/2]) [0, 0, 1] 0 5
   \<and> float32_softmax (add_to_segment_rounded float32_round (vector [1, 2, 1/2]) [0, 0, 1] 0 5)
        [0, 0, 1] 2
       = float32_softmax (vector [1, 2, 1/2]) [0, 0, 1] 2
   \<and> float32_softmax (vector [1, 2, 1/2]) [0, 0, 1] 2
       = Some (segment_softmax_spec_rounded float32_round float32_exp (vector [1, 2, 1/2])
                 [0, 0, 1])
   \<and> map_option entries_1d (float32_softmax (vector [0, 0, 0]) [0, 0, 0] 1)
       = Some [float32_round (1/3), float32_round (1/3), float32_round (1/3)]"
proof -
  have ex: "add_to_segment_rounded float32_round (vector [1, 2, 1/2]) [0, 0, 1] 0 5
     = add_to_segment (vector [1, 2, 1/2]) [0, 0, 1] 0 5"
    unfolding add_to_segment_rounded_def add_to_segment_def vector_3 shape_mk_tensor
    by (rule mk_tensor_cong) (auto simp: less_Suc_eq numeral_3_eq_3 float32_values)
  have sh: "shape (vector [1, 2, 1/2]) = length [0, 0, 1::int] # []"
    by (simp add: vector_def)
  show ?thesis
    using unsorted_segment_softmax_shift_invariant
        [OF ex, of float32_exp float32_lowest 2 "[]"] sh ex
    by (simp add: float32_softmax_def float32_values float32_exp_values)
qed

text \<open>
  C9. Constructing \<^verbatim>\<open>EdgeGAT\<close> with an \<^verbatim>\<open>edge_block_opt\<close> that sets \<^verbatim>\<open>use_sender_nodes\<close> to
  false fails at construction time: the constructor returns the assertion error and no
  module exists that could process a graph.
\<close>

theorem EdgeGAT_init_requires_sender_nodes:
  "map_of d ''use_sender_nodes'' = Some (Flag False) \<Longrightarrow>
   EdgeGAT_init node_model_fn edge_model_fn global_model_fn num_heads key_size value_size
     (Some d) global_block_opt = Inl AssertionError"
proof -
  assume a: "map_of d ''use_sender_nodes'' = Some (Flag False)"
  then have "d \<noteq> []" by auto
  then have "make_default_edge_block_opt (Some d) = fill_defaults DEFAULT_EDGE_BLOCK_OPT d"
    by (simp add: make_default_edge_block_opt_def copy_or_empty_def)
  then have "map_of (make_default_edge_block_opt (Some d)) ''use_sender_nodes'' = Some (Flag False)"
    using map_of_fill_defaults_keep [OF a] by simp
  then show ?thesis
    by (simp add: EdgeGAT_init_def dict_lookup_def Let_def)
qed

theorem EdgeGAT_init_requires_sender_nodes_witness:
  "map_of [(''use_sender_nodes'', Flag False)] ''use_sender_nodes'' = Some (Flag False)
   \<and> EdgeGAT_init Some Some Some 1 1 1 (Some [(''use_sender_nodes'', Flag False)]) None
       = Inl AssertionError"
  using EdgeGAT_init_requires_sender_nodes
    [of "[(''use_sender_nodes'', Flag False)]" Some Some Some 1 1 1 None]
  by simp

text \<open>
  C6 (the code at the input of the claim). With \<^verbatim>\<open>edge_block_opt\<close>, \<^verbatim>\<open>node_block_opt\<close> and
  \<^verbatim>\<open>global_block_opt\<close> all \<^verbatim>\<open>None\<close>, \<^verbatim>\<open>GraphNetwork\<close> builds its NodeBlock with
  \<^verbatim>\<open>use_sent_edges\<close> false; every other \<^verbatim>\<open>use_*\<close> flag of the three blocks is true.
\<close>

theorem GraphNetwork_init_default_node_block:
  "GraphNetwork_init edge_model_fn node_model_fn global_model_fn reducer None None None
     = Inr \<lparr>gn_edge_block =
              \<lparr>edge_model = edge_model_fn, eb_use_edges = True, eb_use_receiver_nodes = True,
               eb_use_sender_nodes = True, eb_use_globals = True\<rparr>,
            gn_node_block =
              \<lparr>node_model = node_model_fn, nb_use_received_edges = True,
               nb_use_sent_edges = False, nb_use_nodes = True, nb_use_globals = True,
               nb_received_edges_reducer = reducer, nb_sent_edges_reducer = reducer\<rparr>,
            gn_global_block =
              \<lparr>global_model = global_model_fn, gb_use_edges = True, gb_use_nodes = True,
               gb_use_globals = True, gb_edges_reducer = reducer, gb_nodes_reducer = reducer\<rparr>\<rparr>"
  by (simp add: GraphNetwork_init_def EdgeBlock_init_def NodeBlock_init_def GlobalBlock_init_def
      make_default_edge_block_opt_def make_default_node_block_opt_def
      make_default_global_block_opt_def fill_defaults_def copy_or_empty_def
      DEFAULT_EDGE_BLOCK_OPT_def DEFAULT_NODE_BLOCK_OPT_def DEFAULT_GLOBAL_BLOCK_OPT_def
      dict_get_def)

section \<open>Frames of the blocks\<close>

lemma EdgeBlock_build_frame:
  "EdgeBlock_build blk g = Some out \<Longrightarrow> \<exists>t. out = g\<lparr>edges := Some t\<rparr>"
  by (auto simp: EdgeBlock_build_def bind_eq_Some_conv)

lemma NodeBlock_build_frame:
  "NodeBlock_build blk g = Some out \<Longrightarrow> \<exists>t. out = g\<lparr>nodes := Some t\<rparr>"
  by (auto simp: NodeBlock_build_def bind_eq_Some_conv)

lemma GlobalBlock_build_frame:
  "GlobalBlock_build blk g = Some out \<Longrightarrow> \<exists>t. out = g\<lparr>globals := Some t\<rparr>"
  by (auto simp: GlobalBlock_build_def bind_eq_Some_conv)

lemma SelfAttention_build_frame:
  "SelfAttention_build lowest v k q g = Some out \<Longrightarrow> \<exists>t. out = g\<lparr>nodes := Some t\<rparr>"
  by (auto simp: SelfAttention_build_def bind_eq_Some_conv)

lemma shape_matrix [simp]: "shape (matrix d rows) = [length rows, d]"
  by (simp add: matrix_def)

lemma graph_indices_1 [simp]: "graph_indices [1] = Some [0]"
  by (simp add: graph_indices_def enumerate_eq_zip)

lemma graph_indices_2 [simp]: "graph_indices [2] = Some [0, 0]"
  by (simp add: graph_indices_def enumerate_eq_zip numeral_2_eq_2)

lemmas block_defs = EdgeBlock_build_def NodeBlock_build_def GlobalBlock_build_def
      example_graph_def collect_def broadcast_receiver_nodes_to_edges_def
      broadcast_sender_nodes_to_edges_def broadcast_globals_to_edges_def broadcast_globals_to_nodes_def repeat_rows_def
      tf_gather_def tf_concat_last_def ReceivedEdgesToNodesAggregator_def SentEdgesToNodesAggregator_def
      EdgesToGlobalsAggregator_def NodesToGlobalsAggregator_def tf_unsorted_segment_sum_def
      example_edge_block_def example_node_block_def example_global_block_def

lemma shape_tensor3 [simp]: "shape (tensor3 h d rows) = [length rows, h, d]"
  by (simp add: tensor3_def)

lemma example_SelfAttention:
  "SelfAttention_build lowest example_values example_keys example_queries example_graph
     = Some (example_graph\<lparr>nodes := Some (SelfAttention_spec example_values example_keys example_queries [1] [0])\<rparr>)"
  by (rule SelfAttention_closed_form [where N = 2 and H = 1 and V = 1 and K = 1])
    (simp_all add: example_values_def example_keys_def example_queries_def example_graph_def)

text \<open>
  C1. For node values, keys and queries of shape \<open>[total_nodes, num_heads, dim]\<close> and a
  connectivity graph, \<^verbatim>\<open>SelfAttention\<close> computes for each edge and head the dot product
  over the last axis of the sender's key and the receiver's query, normalizes these
  scores per receiver with the segment softmax, multiplies each edge's sender value by
  its normalized weight, and sums the weighted values per receiver node to form the
  output node features.
\<close>

theorem SelfAttention_computes_attention:
  assumes "shape node_values = [N, H, V]"
    and "shape node_keys = [N, H, K]"
    and "shape node_queries = [N, H, K]"
    and "senders g = Some ss" and "receivers g = Some rs"
    and "length ss = length rs"
    and "list_all (\<lambda>i. 0 \<le> i \<and> i < int N) ss"
    and "list_all (\<lambda>i. 0 \<le> i \<and> i < int N) rs"
    and "sum_list (n_node g) = int N"
  shows "SelfAttention_build lowest node_values node_keys node_queries g
       = Some (g\<lparr>nodes := Some (SelfAttention_spec node_values node_keys node_queries ss rs)\<rparr>)"
  using assms by (rule SelfAttention_closed_form)

theorem SelfAttention_computes_attention_witness:
  "shape example_values = [2, 1, 1] \<and> shape example_keys = [2, 1, 1]
   \<and> shape example_queries = [2, 1, 1]
   \<and> senders example_graph = Some [1] \<and> receivers example_graph = Some [0]
   \<and> length [1::int] = length [0::int]
   \<and> list_all (\<lambda>i. 0 \<le> i \<and> i < int 2) [1]
   \<and> list_all (\<lambda>i. 0 \<le> i \<and> i < int 2) [0]
   \<and> sum_list (n_node example_graph) = int 2
   \<and> SelfAttention_build 0 example_values example_keys example_queries example_graph
       = Some (example_graph\<lparr>nodes :=
           Some (SelfAttention_spec example_values example_keys example_queries [1] [0])\<rparr>)
   \<and> entry (SelfAttention_spec example_values example_keys example_queries [1] [0]) [0, 0, 0] = 7
   \<and> entry (SelfAttention_spec example_values example_keys example_queries [1] [0]) [1, 0, 0] = 0"
proof -
  have h: "shape example_values = [2, 1, 1]" "shape example_keys = [2, 1, 1]"
    "shape example_queries = [2, 1, 1]"
    "senders example_graph = Some [1]" "receivers example_graph = Some [0]"
    "length [1::int] = length [0::int]"
    "list_all (\<lambda>i. 0 \<le> i \<and> i < int 2) [1]"
    "list_all (\<lambda>i. 0 \<le> i \<and> i < int 2) [0]"
    "sum_list (n_node example_graph) = int 2"
    by (simp_all add: example_values_def example_keys_def example_queries_def example_graph_def)
  have v: "entry (SelfAttention_spec example_values example_keys example_queries [1] [0]) [0, 0, 0] = 7"
    "entry (SelfAttention_spec example_values example_keys example_queries [1] [0]) [1, 0, 0] = 0"
    by (simp_all add: SelfAttention_spec_def segment_softmax_spec_def attention_scores_def
        edges_into_def same_segment_def example_values_def example_keys_def example_queries_def
        tensor3_def)
  show ?thesis
    using h v SelfAttention_computes_attention [OF h, of 0] by simp
qed

text \<open>
  C3. Every node with no incoming edge (no edge whose receiver is that node) has an
  all-zero row in the node tensor returned by \<^verbatim>\<open>SelfAttention\<close>, whatever the values, keys
  and queries given.
\<close>

theorem SelfAttention_isolated_node_zero:
  assumes "SelfAttention_build lowest node_values node_keys node_queries g = Some out"
    and "receivers g = Some rs" and "int n \<notin> set rs"
  shows "\<exists>t. nodes out = Some t \<and> (\<forall>idx. entry t (n # idx) = 0)"
proof -
  from assms(1) obtain attented t where
    agg: "ReceivedEdgesToNodesAggregator tf_unsorted_segment_sum (g\<lparr>edges := Some attented\<rparr>) = Some t"
    and out: "out = g\<lparr>nodes := Some t\<rparr>"
    by (auto simp: SelfAttention_build_def bind_eq_Some_conv)
  have "rs ! i \<noteq> int n" if "i < length rs" for i
    using assms(3) nth_mem [OF that] by metis
  then have empty: "segment_members rs n = []"
    by (simp add: segment_members_def filter_empty_conv)
  from agg have "tf_unsorted_segment_sum attented rs (sum_list (n_node g)) = Some t"
    by (simp add: ReceivedEdgesToNodesAggregator_def assms(2))
  then have "entry t (n # idx) = 0" for idx
    by (auto simp: tf_unsorted_segment_sum_def empty split: list.splits if_splits)
  then show ?thesis
    by (simp add: out)
qed

theorem SelfAttention_isolated_node_zero_witness:
  "SelfAttention_build 0 example_values example_keys example_queries example_graph
     = Some (example_graph\<lparr>nodes :=
         Some (SelfAttention_spec example_values example_keys example_queries [1] [0])\<rparr>)
   \<and> receivers example_graph = Some [0] \<and> int 1 \<notin> set [0]
   \<and> (\<exists>t. nodes (example_graph\<lparr>nodes :=
                Some (SelfAttention_spec example_values example_keys example_queries [1] [0])\<rparr>)
              = Some t
          \<and> (\<forall>idx. entry t (1 # idx) = 0))"
proof -
  have r: "receivers example_graph = Some [0]"
    by (simp add: example_graph_def)
  have n: "int 1 \<notin> set [0]"
    by simp
  show ?thesis
    using example_SelfAttention [of 0] r n
      SelfAttention_isolated_node_zero [OF example_SelfAttention [of 0] r n]
    by simp
qed

text \<open>
  C10. The graph returned by \<^verbatim>\<open>SelfAttention\<close> is the input \<^verbatim>\<open>attention_graph\<close> with only
  the nodes field replaced: edges, globals, senders, receivers, \<open>n_node\<close> and \<open>n_edge\<close> are
  the input's, so no intermediate per-edge quantity appears in the returned edges.
\<close>

theorem SelfAttention_replaces_only_nodes:
  assumes "SelfAttention_build lowest node_values node_keys node_queries attention_graph = Some out"
  shows "edges out = edges attention_graph \<and> globals out = globals attention_graph
       \<and> senders out = senders attention_graph \<and> receivers out = receivers attention_graph
       \<and> n_node out = n_node attention_graph \<and> n_edge out = n_edge attention_graph
       \<and> out = attention_graph\<lparr>nodes := nodes out\<rparr>"
  using SelfAttention_build_frame [OF assms] by auto

theorem SelfAttention_replaces_only_nodes_witness:
  "SelfAttention_build 0 example_values example_keys example_queries example_graph
     = Some (example_graph\<lparr>nodes :=
         Some (SelfAttention_spec example_values example_keys example_queries [1] [0])\<rparr>)
   \<and> edges (example_graph\<lparr>nodes :=
         Some (SelfAttention_spec example_values example_keys example_queries [1] [0])\<rparr>)
       = Some (matrix 1 [[3]])
   \<and> globals (example_graph\<lparr>nodes :=
         Some (SelfAttention_spec example_values example_keys example_queries [1] [0])\<rparr>)
       = Some (matrix 1 [[4]])"
  using example_SelfAttention [of 0]
    SelfAttention_replaces_only_nodes [OF example_SelfAttention [of 0]]
  by (simp add: example_graph_def)

section \<open>The composite architectures\<close>

lemma globals_edges_swap: "g\<lparr>globals := x, edges := e\<rparr> = g\<lparr>edges := e, globals := x\<rparr>"
  by simp

lemma globals_nodes_swap: "g\<lparr>globals := x, nodes := e\<rparr> = g\<lparr>nodes := e, globals := x\<rparr>"
  by simp

lemma EdgeBlock_build_ignores_globals:
  assumes "\<not> eb_use_globals blk"
  shows "EdgeBlock_build blk (g\<lparr>globals := x\<rparr>)
       = map_option (\<lambda>out. out\<lparr>globals := x\<rparr>) (EdgeBlock_build blk g)"
proof -
  have r: "broadcast_receiver_nodes_to_edges (g\<lparr>globals := x\<rparr>) = broadcast_receiver_nodes_to_edges g"
    by (simp add: broadcast_receiver_nodes_to_edges_def)
  have s: "broadcast_sender_nodes_to_edges (g\<lparr>globals := x\<rparr>) = broadcast_sender_nodes_to_edges g"
    by (simp add: broadcast_sender_nodes_to_edges_def)
  show ?thesis
    using assms
    by (simp add: EdgeBlock_build_def r s collect_def map_option_bind comp_def globals_edges_swap)
qed

lemma NodeBlock_build_ignores_globals:
  assumes "\<not> nb_use_globals blk"
  shows "NodeBlock_build blk (g\<lparr>globals := x\<rparr>)
       = map_option (\<lambda>out. out\<lparr>globals := x\<rparr>) (NodeBlock_build blk g)"
proof -
  have r: "ReceivedEdgesToNodesAggregator red (g\<lparr>globals := x\<rparr>) = ReceivedEdgesToNodesAggregator red g" for red
    by (simp add: ReceivedEdgesToNodesAggregator_def)
  have s: "SentEdgesToNodesAggregator red (g\<lparr>globals := x\<rparr>) = SentEdgesToNodesAggregator red g" for red
    by (simp add: SentEdgesToNodesAggregator_def)
  show ?thesis
    using assms
    by (simp add: NodeBlock_build_def r s collect_def map_option_bind comp_def globals_nodes_swap)
qed

lemma InteractionNetwork_build_ignores_globals:
  assumes "\<not> eb_use_globals (in_edge_block net)" "\<not> nb_use_globals (in_node_block net)"
  shows "InteractionNetwork_build net (g\<lparr>globals := x\<rparr>)
       = map_option (\<lambda>out. out\<lparr>globals := x\<rparr>) (InteractionNetwork_build net g)"
  using assms
  by (cases "EdgeBlock_build (in_edge_block net) g")
    (simp_all add: InteractionNetwork_build_def EdgeBlock_build_ignores_globals
      NodeBlock_build_ignores_globals)

lemmas init_defs = EdgeBlock_init_def NodeBlock_init_def GlobalBlock_init_def dict_get_def

lemma example_InteractionNetwork_init:
  "InteractionNetwork_init Some Some tf_unsorted_segment_sum = Inr example_InteractionNetwork"
  by (simp add: InteractionNetwork_init_def init_defs example_InteractionNetwork_def)

lemma example_InteractionNetwork_build:
  "InteractionNetwork_build example_InteractionNetwork example_graph \<noteq> None"
  by (simp add: InteractionNetwork_build_def example_InteractionNetwork_def block_defs)

lemma example_RelationNetwork_init:
  "RelationNetwork_init Some Some tf_unsorted_segment_sum = Inr example_RelationNetwork"
  by (simp add: RelationNetwork_init_def init_defs example_RelationNetwork_def)

lemma example_RelationNetwork_build:
  "RelationNetwork_build example_RelationNetwork example_graph \<noteq> None"
  by (simp add: RelationNetwork_build_def example_RelationNetwork_def block_defs)

text \<open>
  C7, as stated, fails: the NodeBlock of \<^verbatim>\<open>InteractionNetwork\<close> is built without a
  \<^verbatim>\<open>use_nodes\<close> argument, so the flag keeps its default and the nodes' own features are an
  enabled input next to the received edges.
\<close>

theorem InteractionNetwork_node_block_uses_nodes:
  "InteractionNetwork_init Some Some tf_unsorted_segment_sum = Inr example_InteractionNetwork
   \<and> nb_use_nodes (in_node_block example_InteractionNetwork)
   \<and> \<not> only_received_edges (in_node_block example_InteractionNetwork)"
  using example_InteractionNetwork_init
  by (simp add: example_InteractionNetwork_def only_received_edges_def)

text \<open>
  C7, amended. \<^verbatim>\<open>InteractionNetwork\<close> applies an EdgeBlock with \<^verbatim>\<open>use_globals\<close> false (edges,
  receiver nodes and sender nodes enabled), then a NodeBlock whose enabled inputs are the
  received-edges aggregation and the nodes' own features (sent edges and globals
  disabled), and returns the NodeBlock's output; the globals field is never read or
  updated: changing it changes nothing but the globals of the result.
\<close>

theorem InteractionNetwork_contract:
  assumes "InteractionNetwork_init edge_model_fn node_model_fn reducer = Inr net"
  shows "in_edge_block net =
           \<lparr>edge_model = edge_model_fn, eb_use_edges = True, eb_use_receiver_nodes = True,
            eb_use_sender_nodes = True, eb_use_globals = False\<rparr>
       \<and> in_node_block net =
           \<lparr>node_model = node_model_fn, nb_use_received_edges = True, nb_use_sent_edges = False,
            nb_use_nodes = True, nb_use_globals = False, nb_received_edges_reducer = reducer,
            nb_sent_edges_reducer = tf_unsorted_segment_sum\<rparr>
       \<and> InteractionNetwork_build net g
           = Option.bind (EdgeBlock_build (in_edge_block net) g) (NodeBlock_build (in_node_block net))
       \<and> InteractionNetwork_build net (g\<lparr>globals := x\<rparr>)
           = map_option (\<lambda>out. out\<lparr>globals := x\<rparr>) (InteractionNetwork_build net g)"
proof -
  have net: "net = \<lparr>in_edge_block =
              \<lparr>edge_model = edge_model_fn, eb_use_edges = True, eb_use_receiver_nodes = True,
               eb_use_sender_nodes = True, eb_use_globals = False\<rparr>,
            in_node_block =
              \<lparr>node_model = node_model_fn, nb_use_received_edges = True, nb_use_sent_edges = False,
               nb_use_nodes = True, nb_use_globals = False,
               nb_received_edges_reducer = reducer,
               nb_sent_edges_reducer = tf_unsorted_segment_sum\<rparr>\<rparr>"
    using assms by (simp add: InteractionNetwork_init_def init_defs)
  have "InteractionNetwork_build net (g\<lparr>globals := x\<rparr>)
           = map_option (\<lambda>out. out\<lparr>globals := x\<rparr>) (InteractionNetwork_build net g)"
    by (rule InteractionNetwork_build_ignores_globals) (simp_all add: net)
  moreover have "InteractionNetwork_build net g
           = Option.bind (EdgeBlock_build (in_edge_block net) g) (NodeBlock_build (in_node_block net))"
    by (simp add: InteractionNetwork_build_def)
  ultimately show ?thesis
    using net by simp
qed

theorem InteractionNetwork_contract_witness:
  "InteractionNetwork_init Some Some tf_unsorted_segment_sum = Inr example_InteractionNetwork
   \<and> nb_use_nodes (in_node_block example_InteractionNetwork)
   \<and> \<not> eb_use_globals (in_edge_block example_InteractionNetwork)
   \<and> InteractionNetwork_build example_InteractionNetwork example_graph \<noteq> None
   \<and> InteractionNetwork_build example_InteractionNetwork (example_graph\<lparr>globals := None\<rparr>)
       = map_option (\<lambda>out. out\<lparr>globals := None\<rparr>)
           (InteractionNetwork_build example_InteractionNetwork example_graph)"
  using example_InteractionNetwork_init example_InteractionNetwork_build
    InteractionNetwork_contract [OF example_InteractionNetwork_init, of example_graph None]
  by simp

text \<open>
  C8. \<^verbatim>\<open>RelationNetwork\<close> returns the input graph with only the globals replaced, by the
  globals its GlobalBlock (edges only) computes after its EdgeBlock (receiver and sender
  nodes; no input edges, no globals). The edges and nodes of the result are the input's,
  so the per-edge features computed inside are not part of the output.
\<close>

theorem RelationNetwork_keeps_only_globals:
  assumes "RelationNetwork_init edge_model_fn global_model_fn reducer = Inr net"
    and "RelationNetwork_build net g = Some out"
  shows "rn_edge_block net =
           \<lparr>edge_model = edge_model_fn, eb_use_edges = False, eb_use_receiver_nodes = True,
            eb_use_sender_nodes = True, eb_use_globals = False\<rparr>
       \<and> rn_global_block net =
           \<lparr>global_model = global_model_fn, gb_use_edges = True, gb_use_nodes = False,
            gb_use_globals = False, gb_edges_reducer = reducer,
            gb_nodes_reducer = tf_unsorted_segment_sum\<rparr>
       \<and> (\<exists>g1 g2. EdgeBlock_build (rn_edge_block net) g = Some g1
              \<and> GlobalBlock_build (rn_global_block net) g1 = Some g2
              \<and> out = g\<lparr>globals := globals g2\<rparr>)
       \<and> edges out = edges g \<and> nodes out = nodes g \<and> same_structure out g"
proof -
  have net: "net = \<lparr>rn_edge_block =
        \<lparr>edge_model = edge_model_fn, eb_use_edges = False, eb_use_receiver_nodes = True,
         eb_use_sender_nodes = True, eb_use_globals = False\<rparr>,
      rn_global_block =
        \<lparr>global_model = global_model_fn, gb_use_edges = True, gb_use_nodes = False,
         gb_use_globals = False, gb_edges_reducer = reducer,
         gb_nodes_reducer = tf_unsorted_segment_sum\<rparr>\<rparr>"
    using assms(1) by (simp add: RelationNetwork_init_def init_defs)
  from assms(2) obtain g1 g2 where
    "EdgeBlock_build (rn_edge_block net) g = Some g1"
    "GlobalBlock_build (rn_global_block net) g1 = Some g2"
    "out = g\<lparr>globals := globals g2\<rparr>"
    by (auto simp: RelationNetwork_build_def bind_eq_Some_conv)
  then show ?thesis
    using net by (auto simp: same_structure_def)
qed

theorem RelationNetwork_keeps_only_globals_witness:
  "RelationNetwork_init Some Some tf_unsorted_segment_sum = Inr example_RelationNetwork
   \<and> RelationNetwork_build example_RelationNetwork example_graph \<noteq> None
   \<and> edges (the (RelationNetwork_build example_RelationNetwork example_graph))
       = edges example_graph
   \<and> nodes (the (RelationNetwork_build example_RelationNetwork example_graph))
       = nodes example_graph
   \<and> same_structure (the (RelationNetwork_build example_RelationNetwork example_graph))
        example_graph"
proof -
  from example_RelationNetwork_build obtain out where
    out: "RelationNetwork_build example_RelationNetwork example_graph = Some out"
    by blast
  show ?thesis
    using example_RelationNetwork_init example_RelationNetwork_build
      RelationNetwork_keeps_only_globals [OF example_RelationNetwork_init out]
    by (simp add: out)
qed

lemma example_GraphNetwork_build:
  "GraphNetwork_build example_GraphNetwork example_graph \<noteq> None"
  by (simp add: GraphNetwork_build_def example_GraphNetwork_def block_defs)

lemma example_GraphIndependent_build:
  "GraphIndependent_build example_GraphIndependent example_graph \<noteq> None"
  by (simp add: GraphIndependent_build_def example_GraphIndependent_def GraphIndependent_init_def
      independent_model_def example_graph_def)

lemma example_DeepSets_init:
  "DeepSets_init Some Some tf_unsorted_segment_sum = Inr example_DeepSets"
  by (simp add: DeepSets_init_def init_defs example_DeepSets_def)

lemma example_DeepSets_build:
  "DeepSets_build example_DeepSets example_graph \<noteq> None"
  by (simp add: DeepSets_build_def example_DeepSets_def block_defs)

lemma example_CommNet_init:
  "CommNet_init Some Some Some tf_unsorted_segment_sum = Inr example_CommNet"
  by (simp add: CommNet_init_def init_defs example_CommNet_def)

lemma example_CommNet_build:
  "CommNet_build example_CommNet example_graph \<noteq> None"
  by (simp add: CommNet_build_def example_CommNet_def block_defs)

lemma GraphNetwork_build_frame:
  assumes "GraphNetwork_build net g = Some out"
  shows "\<exists>e n gl. out = g\<lparr>edges := Some e, nodes := Some n, globals := Some gl\<rparr>"
proof -
  from assms obtain g1 g2 where
    1: "EdgeBlock_build (gn_edge_block net) g = Some g1"
    and 2: "NodeBlock_build (gn_node_block net) g1 = Some g2"
    and 3: "GlobalBlock_build (gn_global_block net) g2 = Some out"
    by (auto simp: GraphNetwork_build_def bind_eq_Some_conv)
  from EdgeBlock_build_frame [OF 1] NodeBlock_build_frame [OF 2] GlobalBlock_build_frame [OF 3]
  show ?thesis by auto
qed

lemma InteractionNetwork_build_frame:
  assumes "InteractionNetwork_build net g = Some out"
  shows "\<exists>e n. out = g\<lparr>edges := Some e, nodes := Some n\<rparr>"
proof -
  from assms obtain g1 where
    1: "EdgeBlock_build (in_edge_block net) g = Some g1"
    and 2: "NodeBlock_build (in_node_block net) g1 = Some out"
    by (auto simp: InteractionNetwork_build_def bind_eq_Some_conv)
  from EdgeBlock_build_frame [OF 1] NodeBlock_build_frame [OF 2]
  show ?thesis by auto
qed

lemma RelationNetwork_build_frame:
  assumes "RelationNetwork_build net g = Some out"
  shows "\<exists>gl. out = g\<lparr>globals := gl\<rparr>"
  using assms by (auto simp: RelationNetwork_build_def bind_eq_Some_conv)

lemma DeepSets_build_frame:
  assumes "DeepSets_build net g = Some out"
  shows "\<exists>n gl. out = g\<lparr>nodes := Some n, globals := Some gl\<rparr>"
proof -
  from assms obtain g1 where
    1: "NodeBlock_build (ds_node_block net) g = Some g1"
    and 2: "GlobalBlock_build (ds_global_block net) g1 = Some out"
    by (auto simp: DeepSets_build_def bind_eq_Some_conv)
  from NodeBlock_build_frame [OF 1] GlobalBlock_build_frame [OF 2]
  show ?thesis by auto
qed

lemma CommNet_build_frame:
  assumes "CommNet_build net g = Some out"
  shows "\<exists>n. out = g\<lparr>nodes := n\<rparr>"
  using assms by (auto simp: CommNet_build_def bind_eq_Some_conv)

lemma GraphIndependent_build_frame:
  assumes "GraphIndependent_build net g = Some out"
  shows "\<exists>e n gl. out = g\<lparr>edges := e, nodes := n, globals := gl\<rparr>"
  using assms by (auto simp: GraphIndependent_build_def bind_eq_Some_conv)

text \<open>
  C4. Each composite architecture (GraphNetwork, GraphIndependent, InteractionNetwork,
  RelationNetwork, DeepSets, CommNet, SelfAttention) returns a graph with the \<open>n_node\<close>,
  \<open>n_edge\<close>, senders and receivers of its input, and leaves the feature fields it does
  not document as updated as they were: globals for InteractionNetwork; edges and nodes
  for RelationNetwork; edges for DeepSets; edges and globals for CommNet and
  SelfAttention.
\<close>

theorem composite_architectures_preserve_structure:
  "(GraphNetwork_build graph_network g = Some out1 \<longrightarrow> same_structure out1 g)
   \<and> (GraphIndependent_build graph_independent g = Some out2 \<longrightarrow> same_structure out2 g)
   \<and> (InteractionNetwork_build interaction_network g = Some out3 \<longrightarrow>
        same_structure out3 g \<and> globals out3 = globals g)
   \<and> (RelationNetwork_build relation_network g = Some out4 \<longrightarrow>
        same_structure out4 g \<and> edges out4 = edges g \<and> nodes out4 = nodes g)
   \<and> (DeepSets_build deep_sets g = Some out5 \<longrightarrow> same_structure out5 g \<and> edges out5 = edges g)
   \<and> (CommNet_build comm_net g = Some out6 \<longrightarrow>
        same_structure out6 g \<and> edges out6 = edges g \<and> globals out6 = globals g)
   \<and> (SelfAttention_build lowest node_values node_keys node_queries g = Some out7 \<longrightarrow>
        same_structure out7 g \<and> edges out7 = edges g \<and> globals out7 = globals g)"
proof (intro conjI impI)
  assume "GraphNetwork_build graph_network g = Some out1"
  from GraphNetwork_build_frame [OF this] show "same_structure out1 g"
    by (auto simp: same_structure_def)
next
  assume "GraphIndependent_build graph_independent g = Some out2"
  from GraphIndependent_build_frame [OF this] show "same_structure out2 g"
    by (auto simp: same_structure_def)
next
  assume a: "InteractionNetwork_build interaction_network g = Some out3"
  from InteractionNetwork_build_frame [OF a] show "same_structure out3 g"
    by (auto simp: same_structure_def)
  from InteractionNetwork_build_frame [OF a] show "globals out3 = globals g"
    by auto
next
  assume a: "RelationNetwork_build relation_network g = Some out4"
  from RelationNetwork_build_frame [OF a] show "same_structure out4 g"
    by (auto simp: same_structure_def)
  from RelationNetwork_build_frame [OF a] show "edges out4 = edges g"
    by auto
  from RelationNetwork_build_frame [OF a] show "nodes out4 = nodes g"
    by auto
next
  assume a: "DeepSets_build deep_sets g = Some out5"
  from DeepSets_build_frame [OF a] show "same_structure out5 g"
    by (auto simp: same_structure_def)
  from DeepSets_build_frame [OF a] show "edges out5 = edges g"
    by auto
next
  assume a: "CommNet_build comm_net g = Some out6"
  from CommNet_build_frame [OF a] show "same_structure out6 g"
    by (auto simp: same_structure_def)
  from CommNet_build_frame [OF a] show "edges out6 = edges g"
    by auto
  from CommNet_build_frame [OF a] show "globals out6 = globals g"
    by auto
next
  assume a: "SelfAttention_build lowest node_values node_keys node_queries g = Some out7"
  from SelfAttention_build_frame [OF a] show "same_structure out7 g"
    by (auto simp: same_structure_def)
  from SelfAttention_build_frame [OF a] show "edges out7 = edges g"
    by auto
  from SelfAttention_build_frame [OF a] show "globals out7 = globals g"
    by auto
qed

theorem composite_architectures_preserve_structure_witness:
  "GraphNetwork_build example_GraphNetwork example_graph \<noteq> None
   \<and> same_structure (the (GraphNetwork_build example_GraphNetwork example_graph)) example_graph
   \<and> GraphIndependent_build example_GraphIndependent example_graph \<noteq> None
   \<and> same_structure (the (GraphIndependent_build example_GraphIndependent example_graph))
        example_graph
   \<and> InteractionNetwork_build example_InteractionNetwork example_graph \<noteq> None
   \<and> same_structure (the (InteractionNetwork_build example_InteractionNetwork example_graph))
        example_graph
   \<and> globals (the (InteractionNetwork_build example_InteractionNetwork example_graph))
       = globals example_graph
   \<and> RelationNetwork_build example_RelationNetwork example_graph \<noteq> None
   \<and> same_structure (the (RelationNetwork_build example_RelationNetwork example_graph))
        example_graph
   \<and> DeepSets_build example_DeepSets example_graph \<noteq> None
   \<and> same_structure (the (DeepSets_build example_DeepSets example_graph)) example_graph
   \<and> edges (the (DeepSets_build example_DeepSets example_graph)) = edges example_graph
   \<and> CommNet_build example_CommNet example_graph \<noteq> None
   \<and> same_structure (the (CommNet_build example_CommNet example_graph)) example_graph
   \<and> edges (the (CommNet_build example_CommNet example_graph)) = edges example_graph
   \<and> SelfAttention_build 0 example_values example_keys example_queries example_graph \<noteq> None
   \<and> same_structure
        (the (SelfAttention_build 0 example_values example_keys example_queries example_graph))
        example_graph"
proof -
  obtain o1 where 1: "GraphNetwork_build example_GraphNetwork example_graph = Some o1"
    using example_GraphNetwork_build by blast
  obtain o2 where 2: "GraphIndependent_build example_GraphIndependent example_graph = Some o2"
    using example_GraphIndependent_build by blast
  obtain o3 where 3: "InteractionNetwork_build example_InteractionNetwork example_graph = Some o3"
    using example_InteractionNetwork_build by blast
  obtain o4 where 4: "RelationNetwork_build example_RelationNetwork example_graph = Some o4"
    using example_RelationNetwork_build by blast
  obtain o5 where 5: "DeepSets_build example_DeepSets example_graph = Some o5"
    using example_DeepSets_build by blast
  obtain o6 where 6: "CommNet_build example_CommNet example_graph = Some o6"
    using example_CommNet_build by blast
  obtain o7 where 7: "SelfAttention_build 0 example_values example_keys example_queries example_graph = Some o7"
    using example_SelfAttention [of 0] by blast
  show ?thesis
    using composite_architectures_preserve_structure
      [of example_GraphNetwork example_graph o1 example_GraphIndependent o2
          example_InteractionNetwork o3 example_RelationNetwork o4 example_DeepSets o5
          example_CommNet o6 0 example_values example_keys example_queries o7]
    by (simp add: 1 2 3 4 5 6 7)
qed

section \<open>Batching: every primitive acts on each graph of a batch on its own\<close>

lemma shape_tf_concat0 [simp]:
  "shape (tf_concat0 a b) = (hd (shape a) + hd (shape b)) # tl (shape a)"
  by (simp add: tf_concat0_def)

lemma entry_tf_concat0:
  "entry (tf_concat0 a b) (i # r) =
     (if i < hd (shape a) + hd (shape b) \<and> valid_index (tl (shape a)) r
      then (if i < hd (shape a) then entry a (i # r) else entry b ((i - hd (shape a)) # r))
      else 0)"
  by (simp add: tf_concat0_def)

lemma concat0_eqI:
  assumes "s = (n1 + n2) # inner" "hd (shape a) = n1" "hd (shape b) = n2" "tl (shape a) = inner"
    and "\<And>i r. i < n1 \<Longrightarrow> valid_index inner r \<Longrightarrow> f (i # r) = entry a (i # r)"
    and "\<And>i r. i < n2 \<Longrightarrow> valid_index inner r \<Longrightarrow> f ((i + n1) # r) = entry b (i # r)"
  shows "mk_tensor s f = tf_concat0 a b"
  unfolding tf_concat0_def assms(1-4)
proof (rule mk_tensor_cong)
  fix idx assume "valid_index ((n1 + n2) # inner) idx"
  then obtain i r where idx: "idx = i # r" and i: "i < n1 + n2" and r: "valid_index inner r"
    by auto
  show "f idx = (if hd idx < n1 then entry a idx else entry b ((hd idx - n1) # tl idx))"
  proof (cases "i < n1")
    case True
    then show ?thesis using assms(5) [OF True r] by (simp add: idx)
  next
    case False
    then have "i - n1 < n2" using i by simp
    from assms(6) [OF this r] False show ?thesis by (simp add: idx)
  qed
qed

lemma tf_gather_concat0:
  assumes g1: "tf_gather p1 ids1 = Some o1" and g2: "tf_gather p2 ids2 = Some o2"
    and tl: "tl (shape p1) = tl (shape p2)"
  shows "tf_gather (tf_concat0 p1 p2) (ids1 @ map (\<lambda>i. i + int (hd (shape p1))) ids2)
       = Some (tf_concat0 o1 o2)"
proof -
  from g1 obtain n1 inner where sh1: "shape p1 = n1 # inner"
    and r1: "list_all (\<lambda>i. 0 \<le> i \<and> i < int n1) ids1"
    and o1: "o1 = mk_tensor (length ids1 # inner) (\<lambda>idx. entry p1 (nat (ids1 ! hd idx) # tl idx))"
    by (auto simp: tf_gather_def split: list.splits if_splits)
  from g2 tl sh1 obtain n2 where sh2: "shape p2 = n2 # inner"
    and r2: "list_all (\<lambda>i. 0 \<le> i \<and> i < int n2) ids2"
    and o2: "o2 = mk_tensor (length ids2 # inner) (\<lambda>idx. entry p2 (nat (ids2 ! hd idx) # tl idx))"
    by (auto simp: tf_gather_def split: list.splits if_splits)
  let ?ids = "ids1 @ map (\<lambda>i. i + int n1) ids2"
  have rng: "list_all (\<lambda>i. 0 \<le> i \<and> i < int (n1 + n2)) ?ids"
    using r1 r2 by (auto simp: list_all_iff)
  have "tf_gather (tf_concat0 p1 p2) ?ids
      = Some (mk_tensor (length ?ids # inner)
          (\<lambda>idx. entry (tf_concat0 p1 p2) (nat (?ids ! hd idx) # tl idx)))"
    by (rule tf_gather_Some [OF _ rng]) (simp add: sh1 sh2)
  also have "mk_tensor (length ?ids # inner)
          (\<lambda>idx. entry (tf_concat0 p1 p2) (nat (?ids ! hd idx) # tl idx)) = tf_concat0 o1 o2"
  proof (rule concat0_eqI [where ?n1.0 = "length ids1" and ?n2.0 = "length ids2" and inner = inner])
    fix i r assume i: "i < length ids1" and r: "valid_index inner r"
    have "0 \<le> ids1 ! i \<and> ids1 ! i < int n1"
      using r1 i by (simp add: list_all_length)
    then have "nat (ids1 ! i) < n1"
      by linarith
    then show "entry (tf_concat0 p1 p2) (nat (?ids ! hd (i # r)) # tl (i # r)) = entry o1 (i # r)"
      using i r by (simp add: nth_append entry_tf_concat0 sh1 sh2 o1)
  next
    fix i r assume i: "i < length ids2" and r: "valid_index inner r"
    have "0 \<le> ids2 ! i \<and> ids2 ! i < int n2"
      using r2 i by (simp add: list_all_length)
    then have "nat (ids2 ! i + int n1) = nat (ids2 ! i) + n1" "nat (ids2 ! i) < n2"
      by linarith+
    then show "entry (tf_concat0 p1 p2) (nat (?ids ! hd ((i + length ids1) # r)) # tl ((i + length ids1) # r))
        = entry o2 (i # r)"
      using i r by (simp add: nth_append entry_tf_concat0 sh1 sh2 o2 nat_add_distrib)
  qed (simp_all add: o1 o2)
  finally show ?thesis by (simp add: sh1)
qed

lemma upt_shift: "[m..<m + n] = map (\<lambda>i. i + m) [0..<n]"
  by (induction n) simp_all

lemma segment_members_append:
  "segment_members (xs @ ys) s
     = segment_members xs s @ map (\<lambda>i. i + length xs) (segment_members ys s)"
proof -
  let ?P = "\<lambda>i. (xs @ ys) ! i = int s"
  have 1: "filter ?P [0..<length xs] = segment_members xs s"
    unfolding segment_members_def by (rule filter_cong) (simp_all add: nth_append)
  have "filter ?P [length xs..<length xs + length ys]
      = filter ?P (map (\<lambda>i. i + length xs) [0..<length ys])"
    by (simp only: upt_shift)
  also have "\<dots> = map (\<lambda>i. i + length xs) (filter (?P \<circ> (\<lambda>i. i + length xs)) [0..<length ys])"
    by (simp only: filter_map)
  also have "filter (?P \<circ> (\<lambda>i. i + length xs)) [0..<length ys] = segment_members ys s"
    unfolding segment_members_def by (rule filter_cong) (simp_all add: nth_append)
  finally have 2: "filter ?P [length xs..<length xs + length ys]
      = map (\<lambda>i. i + length xs) (segment_members ys s)" .
  have "segment_members (xs @ ys) s
      = filter ?P [0..<length xs] @ filter ?P [length xs..<length xs + length ys]"
    by (simp add: segment_members_def upt_add_eq_append [of 0 "length xs" "length ys"])
  then show ?thesis
    by (simp only: 1 2)
qed

lemma segment_members_shift:
  assumes "0 \<le> n" "n \<le> int s"
  shows "segment_members (map (\<lambda>i. i + n) ys) s = segment_members ys (s - nat n)"
proof -
  have "(ys ! i + n = int s) = (ys ! i = int (s - nat n))" for i
    using assms by linarith
  then show ?thesis
    unfolding segment_members_def length_map
    by (intro filter_cong refl) simp
qed

lemma segment_members_none:
  assumes "\<And>i. i < length xs \<Longrightarrow> xs ! i \<noteq> int s"
  shows "segment_members xs s = []"
  using assms by (simp add: segment_members_def filter_empty_conv)

lemma segment_members_batch:
  assumes r1: "list_all (\<lambda>i. i < n1) ids1" and r2: "list_all (\<lambda>i. 0 \<le> i) ids2" and n1: "0 \<le> n1"
  shows "segment_members (ids1 @ map (\<lambda>i. i + n1) ids2) s
       = (if int s < n1 then segment_members ids1 s
          else map (\<lambda>i. i + length ids1) (segment_members ids2 (s - nat n1)))"
proof (cases "int s < n1")
  case True
  have "segment_members (map (\<lambda>i. i + n1) ids2) s = []"
  proof (rule segment_members_none)
    fix i assume "i < length (map (\<lambda>i. i + n1) ids2)"
    then have "0 \<le> ids2 ! i" using r2 by (simp add: list_all_length)
    then show "map (\<lambda>i. i + n1) ids2 ! i \<noteq> int s"
      using True \<open>i < length (map (\<lambda>i. i + n1) ids2)\<close> by simp
  qed
  then show ?thesis using True by (simp add: segment_members_append)
next
  case False
  have "segment_members ids1 s = []"
  proof (rule segment_members_none)
    fix i assume "i < length ids1"
    then have "ids1 ! i < n1" using r1 by (simp add: list_all_length)
    then show "ids1 ! i \<noteq> int s" using False by simp
  qed
  then show ?thesis
    using False n1 by (simp add: segment_members_append segment_members_shift)
qed

lemma segment_members_bound: "i \<in> set (segment_members ids s) \<Longrightarrow> i < length ids"
  by (simp add: segment_members_def)

lemma tf_unsorted_segment_sum_Some:
  assumes "tf_unsorted_segment_sum d ids n = Some out"
  shows "\<exists>inner. shape d = length ids # inner \<and> 0 \<le> n \<and> list_all (\<lambda>i. i < n) ids
       \<and> out = mk_tensor (nat n # inner)
           (\<lambda>idx. sum_list (map (\<lambda>i. entry d (i # tl idx)) (segment_members ids (hd idx))))"
  using assms by (auto simp: tf_unsorted_segment_sum_def split: list.splits if_splits)

lemma tf_unsorted_segment_sum_concat0:
  assumes s1: "tf_unsorted_segment_sum d1 ids1 n1 = Some o1"
    and s2: "tf_unsorted_segment_sum d2 ids2 n2 = Some o2"
    and tl: "tl (shape d1) = tl (shape d2)"
    and nn: "list_all (\<lambda>i. 0 \<le> i) ids2"
  shows "tf_unsorted_segment_sum (tf_concat0 d1 d2) (ids1 @ map (\<lambda>i. i + n1) ids2) (n1 + n2)
       = Some (tf_concat0 o1 o2)"
proof -
  from tf_unsorted_segment_sum_Some [OF s1] obtain inner where
    sh1: "shape d1 = length ids1 # inner" and n1: "0 \<le> n1" and r1: "list_all (\<lambda>i. i < n1) ids1"
    and o1: "o1 = mk_tensor (nat n1 # inner)
           (\<lambda>idx. sum_list (map (\<lambda>i. entry d1 (i # tl idx)) (segment_members ids1 (hd idx))))"
    by blast
  from tf_unsorted_segment_sum_Some [OF s2] tl sh1 have
    sh2: "shape d2 = length ids2 # inner" and n2: "0 \<le> n2" and r2: "list_all (\<lambda>i. i < n2) ids2"
    and o2: "o2 = mk_tensor (nat n2 # inner)
           (\<lambda>idx. sum_list (map (\<lambda>i. entry d2 (i # tl idx)) (segment_members ids2 (hd idx))))"
    by auto
  let ?ids = "ids1 @ map (\<lambda>i. i + n1) ids2"
  let ?d = "tf_concat0 d1 d2"
  have rng: "list_all (\<lambda>i. i < n1 + n2) ?ids"
    using r1 r2 n2 by (auto simp: list_all_iff)
  have "tf_unsorted_segment_sum ?d ?ids (n1 + n2)
      = Some (mk_tensor (nat (n1 + n2) # inner)
          (\<lambda>idx. sum_list (map (\<lambda>i. entry ?d (i # tl idx)) (segment_members ?ids (hd idx)))))"
    using rng n1 n2 by (simp add: tf_unsorted_segment_sum_def sh1 sh2)
  also have "mk_tensor (nat (n1 + n2) # inner)
          (\<lambda>idx. sum_list (map (\<lambda>i. entry ?d (i # tl idx)) (segment_members ?ids (hd idx))))
      = tf_concat0 o1 o2"
  proof (rule concat0_eqI [where ?n1.0 = "nat n1" and ?n2.0 = "nat n2" and inner = inner])
    fix s r assume s: "s < nat n1" and r: "valid_index inner r"
    have "entry ?d (i # r) = entry d1 (i # r)" if "i \<in> set (segment_members ids1 s)" for i
      using segment_members_bound [OF that] r by (simp add: entry_tf_concat0 sh1 sh2)
    then have "(\<Sum>i\<leftarrow>segment_members ids1 s. entry ?d (i # r))
        = (\<Sum>i\<leftarrow>segment_members ids1 s. entry d1 (i # r))"
      by (intro arg_cong [where f = sum_list] map_cong [OF refl])
    moreover have "int s < n1"
      using s by linarith
    ultimately show "(\<Sum>i\<leftarrow>segment_members ?ids (hd (s # r)). entry ?d (i # tl (s # r))) = entry o1 (s # r)"
      using s r by (simp add: segment_members_batch [OF r1 nn n1] o1)
  next
    fix s r assume s: "s < nat n2" and r: "valid_index inner r"
    have "entry ?d ((i + length ids1) # r) = entry d2 (i # r)"
      if "i \<in> set (segment_members ids2 s)" for i
      using segment_members_bound [OF that] r by (simp add: entry_tf_concat0 sh1 sh2)
    then have "(\<Sum>i\<leftarrow>segment_members ids2 s. entry ?d ((i + length ids1) # r))
        = (\<Sum>i\<leftarrow>segment_members ids2 s. entry d2 (i # r))"
      by (intro arg_cong [where f = sum_list] map_cong [OF refl])
    moreover have "\<not> int (s + nat n1) < n1" "s + nat n1 - nat n1 = s"
      using n1 by simp_all
    ultimately show "(\<Sum>i\<leftarrow>segment_members ?ids (hd ((s + nat n1) # r)). entry ?d (i # tl ((s + nat n1) # r)))
        = entry o2 (s # r)"
      using s r by (simp add: segment_members_batch [OF r1 nn n1] o2 comp_def)
  qed (simp_all add: o1 o2 n1 n2 nat_add_distrib)
  finally show ?thesis .
qed

lemma segment_wise_sum: "segment_wise tf_unsorted_segment_sum"
  unfolding segment_wise_def
proof (intro allI impI)
  fix d1 d2 ids1 ids2 n1 n2 o1 o2
  assume a: "tf_unsorted_segment_sum d1 ids1 n1 = Some o1 \<and> tf_unsorted_segment_sum d2 ids2 n2 = Some o2
        \<and> tl (shape d1) = tl (shape d2)
        \<and> list_all (\<lambda>i. 0 \<le> i) ids1 \<and> list_all (\<lambda>i. 0 \<le> i) ids2 \<and> 0 \<le> n1 \<and> 0 \<le> n2"
  then have "tf_unsorted_segment_sum (tf_concat0 d1 d2) (ids1 @ map (\<lambda>i. i + n1) ids2) (n1 + n2)
       = Some (tf_concat0 o1 o2)"
    by (intro tf_unsorted_segment_sum_concat0) simp_all
  moreover have "shape o1 = nat n1 # tl (shape d1)"
    using tf_unsorted_segment_sum_Some [of d1 ids1 n1 o1] a by auto
  moreover have "shape o2 = nat n2 # tl (shape d2)"
    using tf_unsorted_segment_sum_Some [of d2 ids2 n2 o2] a by auto
  ultimately show "tf_unsorted_segment_sum (tf_concat0 d1 d2) (ids1 @ map (\<lambda>i. i + n1) ids2) (n1 + n2)
       = Some (tf_concat0 o1 o2) \<and> shape o1 = nat n1 # tl (shape d1) \<and> shape o2 = nat n2 # tl (shape d2)"
    by simp
qed

lemma tf_unsorted_segment_max_Some:
  assumes "tf_unsorted_segment_max lowest d ids n = Some out"
  shows "\<exists>inner. shape d = length ids # inner \<and> 0 \<le> n \<and> list_all (\<lambda>i. i < n) ids
       \<and> out = mk_tensor (nat n # inner)
           (\<lambda>idx. case map (\<lambda>i. entry d (i # tl idx)) (segment_members ids (hd idx)) of
                     [] \<Rightarrow> lowest | m # ms \<Rightarrow> fold max ms m)"
  using assms by (auto simp: tf_unsorted_segment_max_def split: list.splits if_splits)

lemma tf_unsorted_segment_max_concat0:
  assumes s1: "tf_unsorted_segment_max lowest d1 ids1 n1 = Some o1"
    and s2: "tf_unsorted_segment_max lowest d2 ids2 n2 = Some o2"
    and tl: "tl (shape d1) = tl (shape d2)"
    and nn: "list_all (\<lambda>i. 0 \<le> i) ids2"
  shows "tf_unsorted_segment_max lowest (tf_concat0 d1 d2) (ids1 @ map (\<lambda>i. i + n1) ids2) (n1 + n2)
       = Some (tf_concat0 o1 o2)"
proof -
  define top :: "real list \<Rightarrow> real" where
    "top = (\<lambda>xs. case xs of [] \<Rightarrow> lowest | m # ms \<Rightarrow> fold max ms m)"
  from tf_unsorted_segment_max_Some [OF s1] obtain inner where
    sh1: "shape d1 = length ids1 # inner" and n1: "0 \<le> n1" and r1: "list_all (\<lambda>i. i < n1) ids1"
    and o1: "o1 = mk_tensor (nat n1 # inner)
           (\<lambda>idx. top (map (\<lambda>i. entry d1 (i # tl idx)) (segment_members ids1 (hd idx))))"
    unfolding top_def by blast
  from tf_unsorted_segment_max_Some [OF s2] tl sh1 have
    sh2: "shape d2 = length ids2 # inner" and n2: "0 \<le> n2" and r2: "list_all (\<lambda>i. i < n2) ids2"
    and o2: "o2 = mk_tensor (nat n2 # inner)
           (\<lambda>idx. top (map (\<lambda>i. entry d2 (i # tl idx)) (segment_members ids2 (hd idx))))"
    unfolding top_def by auto
  let ?ids = "ids1 @ map (\<lambda>i. i + n1) ids2"
  let ?d = "tf_concat0 d1 d2"
  have rng: "list_all (\<lambda>i. i < n1 + n2) ?ids"
    using r1 r2 n2 by (auto simp: list_all_iff)
  have "tf_unsorted_segment_max lowest ?d ?ids (n1 + n2)
      = Some (mk_tensor (nat (n1 + n2) # inner)
          (\<lambda>idx. top (map (\<lambda>i. entry ?d (i # tl idx)) (segment_members ?ids (hd idx)))))"
    using rng n1 n2 by (simp add: tf_unsorted_segment_max_def sh1 sh2 top_def)
  also have "mk_tensor (nat (n1 + n2) # inner)
          (\<lambda>idx. top (map (\<lambda>i. entry ?d (i # tl idx)) (segment_members ?ids (hd idx))))
      = tf_concat0 o1 o2"
  proof (rule concat0_eqI [where ?n1.0 = "nat n1" and ?n2.0 = "nat n2" and inner = inner])
    fix s r assume s: "s < nat n1" and r: "valid_index inner r"
    have "entry ?d (i # r) = entry d1 (i # r)" if "i \<in> set (segment_members ids1 s)" for i
      using segment_members_bound [OF that] r by (simp add: entry_tf_concat0 sh1 sh2)
    then have "top (map (\<lambda>i. entry ?d (i # r)) (segment_members ids1 s))
        = top (map (\<lambda>i. entry d1 (i # r)) (segment_members ids1 s))"
      by (intro arg_cong [where f = top] map_cong [OF refl])
    moreover have "int s < n1"
      using s by linarith
    ultimately show "top (map (\<lambda>i. entry ?d (i # tl (s # r))) (segment_members ?ids (hd (s # r))))
        = entry o1 (s # r)"
      using s r by (simp add: segment_members_batch [OF r1 nn n1] o1)
  next
    fix s r assume s: "s < nat n2" and r: "valid_index inner r"
    have "entry ?d ((i + length ids1) # r) = entry d2 (i # r)"
      if "i \<in> set (segment_members ids2 s)" for i
      using segment_members_bound [OF that] r by (simp add: entry_tf_concat0 sh1 sh2)
    then have "top (map (\<lambda>i. entry ?d ((i + length ids1) # r)) (segment_members ids2 s))
        = top (map (\<lambda>i. entry d2 (i # r)) (segment_members ids2 s))"
      by (intro arg_cong [where f = top] map_cong [OF refl])
    moreover have "\<not> int (s + nat n1) < n1" "s + nat n1 - nat n1 = s"
      using n1 by simp_all
    ultimately show "top (map (\<lambda>i. entry ?d (i # tl ((s + nat n1) # r)))
          (segment_members ?ids (hd ((s + nat n1) # r))))
        = entry o2 (s # r)"
      using s r by (simp add: segment_members_batch [OF r1 nn n1] o2 comp_def)
  qed (simp_all add: o1 o2 n1 n2 nat_add_distrib)
  finally show ?thesis .
qed

lemma segment_wise_max: "segment_wise (tf_unsorted_segment_max lowest)"
  unfolding segment_wise_def
proof (intro allI impI)
  fix d1 d2 ids1 ids2 n1 n2 o1 o2
  assume a: "tf_unsorted_segment_max lowest d1 ids1 n1 = Some o1
        \<and> tf_unsorted_segment_max lowest d2 ids2 n2 = Some o2
        \<and> tl (shape d1) = tl (shape d2)
        \<and> list_all (\<lambda>i. 0 \<le> i) ids1 \<and> list_all (\<lambda>i. 0 \<le> i) ids2 \<and> 0 \<le> n1 \<and> 0 \<le> n2"
  then have "tf_unsorted_segment_max lowest (tf_concat0 d1 d2) (ids1 @ map (\<lambda>i. i + n1) ids2)
        (n1 + n2) = Some (tf_concat0 o1 o2)"
    by (intro tf_unsorted_segment_max_concat0) simp_all
  moreover have "shape o1 = nat n1 # tl (shape d1)"
    using tf_unsorted_segment_max_Some [of lowest d1 ids1 n1 o1] a by auto
  moreover have "shape o2 = nat n2 # tl (shape d2)"
    using tf_unsorted_segment_max_Some [of lowest d2 ids2 n2 o2] a by auto
  ultimately show "tf_unsorted_segment_max lowest (tf_concat0 d1 d2)
        (ids1 @ map (\<lambda>i. i + n1) ids2) (n1 + n2) = Some (tf_concat0 o1 o2)
      \<and> shape o1 = nat n1 # tl (shape d1) \<and> shape o2 = nat n2 # tl (shape d2)"
    by simp
qed

lemma row_wise_Some: "row_wise Some"
  by (simp add: row_wise_def)

lemma per_row_model_Some:
  assumes "per_row_model d f t = Some t'"
  shows "\<exists>n k. shape t = [n, k]
     \<and> t' = mk_tensor [n, d] (\<lambda>idx. f (map (\<lambda>j. entry t [hd idx, j]) [0..<k]) ! hd (tl idx))"
  using assms
  by (auto simp: per_row_model_def split: list.splits)

lemma row_wise_per_row_model: "row_wise (per_row_model d f)"
  unfolding row_wise_def
proof (intro allI impI)
  fix a b a' b'
  assume h: "2 \<le> length (shape a) \<and> 2 \<le> length (shape b) \<and> tl (shape a) = tl (shape b)
        \<and> per_row_model d f a = Some a' \<and> per_row_model d f b = Some b'"
  from h per_row_model_Some [of d f a a'] obtain n1 k where
    a: "shape a = [n1, k]"
    "a' = mk_tensor [n1, d] (\<lambda>idx. f (map (\<lambda>j. entry a [hd idx, j]) [0..<k]) ! hd (tl idx))"
    by blast
  from h per_row_model_Some [of d f b b'] obtain n2 k' where
    b: "shape b = [n2, k']"
    "b' = mk_tensor [n2, d] (\<lambda>idx. f (map (\<lambda>j. entry b [hd idx, j]) [0..<k']) ! hd (tl idx))"
    by blast
  from h a(1) b(1) have k: "k' = k" by simp
  have rows: "map (\<lambda>j. entry (tf_concat0 a b) [i, j]) [0..<k]
      = (if i < n1 then map (\<lambda>j. entry a [i, j]) [0..<k]
         else map (\<lambda>j. entry b [i - n1, j]) [0..<k])" if "i < n1 + n2" for i
    using that by (auto simp: entry_tf_concat0 a(1) b(1))
  have "mk_tensor [n1 + n2, d]
          (\<lambda>idx. f (map (\<lambda>j. entry (tf_concat0 a b) [hd idx, j]) [0..<k]) ! hd (tl idx))
      = tf_concat0 a' b'"
  proof (rule concat0_eqI [where ?n1.0 = n1 and ?n2.0 = n2 and inner = "[d]"])
    fix i r assume "i < n1" "valid_index [d] r"
    then show "f (map (\<lambda>j. entry (tf_concat0 a b) [hd (i # r), j]) [0..<k]) ! hd (tl (i # r))
        = entry a' (i # r)"
      by (auto simp: rows a(2))
  next
    fix i r assume "i < n2" "valid_index [d] r"
    then show "f (map (\<lambda>j. entry (tf_concat0 a b) [hd ((i + n1) # r), j]) [0..<k])
          ! hd (tl ((i + n1) # r)) = entry b' (i # r)"
      by (auto simp: rows b(2) k)
  qed (simp_all add: a(2) b(2))
  then have "per_row_model d f (tf_concat0 a b) = Some (tf_concat0 a' b')"
    by (simp add: per_row_model_def a(1) b(1))
  then show "per_row_model d f (tf_concat0 a b) = Some (tf_concat0 a' b')
        \<and> 2 \<le> length (shape a') \<and> 2 \<le> length (shape b') \<and> hd (shape a') = hd (shape a)
        \<and> hd (shape b') = hd (shape b) \<and> tl (shape a') = tl (shape b')"
    by (simp add: a b)
qed

lemma graph_indices_Some:
  "graph_indices counts = Some ids \<Longrightarrow>
   list_all (\<lambda>k. 0 \<le> k) counts
   \<and> ids = concat (map (\<lambda>(i, k). replicate (nat k) (int i)) (List.enumerate 0 counts))"
  by (auto simp: graph_indices_def split: if_splits)

lemma enumerate_shift:
  "List.enumerate n xs = map (\<lambda>(i, k). (i + n, k)) (List.enumerate 0 xs)"
  by (simp add: enumerate_eq_zip upt_shift [of n] zip_map1 add.commute)

lemma graph_indices_append:
  assumes "graph_indices c1 = Some ids1" "graph_indices c2 = Some ids2"
  shows "graph_indices (c1 @ c2) = Some (ids1 @ map (\<lambda>i. i + int (length c1)) ids2)"
proof -
  have "concat (map (\<lambda>(i, k). replicate (nat k) (int i)) (List.enumerate (length c1) c2))
      = map (\<lambda>i. i + int (length c1))
          (concat (map (\<lambda>(i, k). replicate (nat k) (int i)) (List.enumerate 0 c2)))"
    by (subst enumerate_shift) (simp add: map_concat comp_def case_prod_beta)
  then show ?thesis
    using graph_indices_Some [OF assms(1)] graph_indices_Some [OF assms(2)]
    by (simp add: graph_indices_def enumerate_append_eq)
qed

lemma graph_indices_nonneg:
  "graph_indices c = Some ids \<Longrightarrow> list_all (\<lambda>i. 0 \<le> i) ids"
  by (auto simp: graph_indices_def list_all_iff in_set_enumerate_eq split: if_splits)

lemma graph_indices_length:
  "graph_indices c = Some ids \<Longrightarrow> int (length ids) = sum_list c"
proof (induction c arbitrary: ids rule: rev_induct)
  case Nil
  then show ?case by (simp add: graph_indices_def)
next
  case (snoc k c)
  from snoc.prems have nn: "list_all (\<lambda>k. 0 \<le> k) c" "0 \<le> k"
    by (auto simp: graph_indices_def split: if_splits)
  then obtain ids' where c: "graph_indices c = Some ids'"
    by (simp add: graph_indices_def)
  have k: "graph_indices [k] = Some (replicate (nat k) 0)"
    using nn by (simp add: graph_indices_def)
  from graph_indices_append [OF c k] snoc.prems snoc.IH [OF c] nn show ?case
    by auto
qed

lemma graph_indices_bound:
  "graph_indices c = Some ids \<Longrightarrow> list_all (\<lambda>i. 0 \<le> i \<and> i < int (length c)) ids"
  by (auto simp: graph_indices_def list_all_iff in_set_enumerate_eq split: if_splits)

lemma sum_list_nonneg_all: "list_all (\<lambda>k. 0 \<le> k) xs \<Longrightarrow> 0 \<le> sum_list (xs :: int list)"
  by (induction xs) auto

lemma tf_gather_shape:
  "tf_gather p ids = Some out \<Longrightarrow> shape out = length ids # tl (shape p) \<and> shape p \<noteq> []"
  by (auto simp: tf_gather_def split: list.splits if_splits)

lemma broadcast_receiver_batch:
  assumes v1: "valid_graph g1" and c: "compatible g1 g2"
    and a: "broadcast_receiver_nodes_to_edges g1 = Some a"
    and b: "broadcast_receiver_nodes_to_edges g2 = Some b"
  shows "broadcast_receiver_nodes_to_edges (batch_graphs g1 g2) = Some (tf_concat0 a b)"
proof -
  from a obtain p1 r1 where 1: "nodes g1 = Some p1" "receivers g1 = Some r1" "tf_gather p1 r1 = Some a"
    by (auto simp: broadcast_receiver_nodes_to_edges_def bind_eq_Some_conv)
  from b obtain p2 r2 where 2: "nodes g2 = Some p2" "receivers g2 = Some r2" "tf_gather p2 r2 = Some b"
    by (auto simp: broadcast_receiver_nodes_to_edges_def bind_eq_Some_conv)
  have tl: "tl (shape p1) = tl (shape p2)"
    using c 1 2 by (simp add: compatible_def same_layout_def)
  have off: "sum_list (n_node g1) = int (hd (shape p1))"
    using v1 1 by (simp add: valid_graph_def rows_are_def)
  show ?thesis
    using tf_gather_concat0 [OF 1(3) 2(3) tl]
    by (simp add: broadcast_receiver_nodes_to_edges_def batch_graphs_def batch_features_def
        batch_indices_def 1 2 off)
qed

lemma broadcast_sender_batch:
  assumes v1: "valid_graph g1" and c: "compatible g1 g2"
    and a: "broadcast_sender_nodes_to_edges g1 = Some a"
    and b: "broadcast_sender_nodes_to_edges g2 = Some b"
  shows "broadcast_sender_nodes_to_edges (batch_graphs g1 g2) = Some (tf_concat0 a b)"
proof -
  from a obtain p1 r1 where 1: "nodes g1 = Some p1" "senders g1 = Some r1" "tf_gather p1 r1 = Some a"
    by (auto simp: broadcast_sender_nodes_to_edges_def bind_eq_Some_conv)
  from b obtain p2 r2 where 2: "nodes g2 = Some p2" "senders g2 = Some r2" "tf_gather p2 r2 = Some b"
    by (auto simp: broadcast_sender_nodes_to_edges_def bind_eq_Some_conv)
  have tl: "tl (shape p1) = tl (shape p2)"
    using c 1 2 by (simp add: compatible_def same_layout_def)
  have off: "sum_list (n_node g1) = int (hd (shape p1))"
    using v1 1 by (simp add: valid_graph_def rows_are_def)
  show ?thesis
    using tf_gather_concat0 [OF 1(3) 2(3) tl]
    by (simp add: broadcast_sender_nodes_to_edges_def batch_graphs_def batch_features_def
        batch_indices_def 1 2 off)
qed

lemma repeat_rows_Some:
  "repeat_rows t counts = Some out \<Longrightarrow>
   \<exists>ids. shape t \<noteq> [] \<and> length counts = hd (shape t) \<and> graph_indices counts = Some ids
     \<and> tf_gather t ids = Some out"
  by (auto simp: repeat_rows_def bind_eq_Some_conv split: list.splits if_splits)

lemma repeat_rows_batch:
  assumes a: "repeat_rows t1 c1 = Some a" and b: "repeat_rows t2 c2 = Some b"
    and tl: "tl (shape t1) = tl (shape t2)"
  shows "repeat_rows (tf_concat0 t1 t2) (c1 @ c2) = Some (tf_concat0 a b)"
proof -
  from repeat_rows_Some [OF a] obtain ids1 where 1: "shape t1 \<noteq> []" "length c1 = hd (shape t1)"
    "graph_indices c1 = Some ids1" "tf_gather t1 ids1 = Some a"
    by blast
  from repeat_rows_Some [OF b] obtain ids2 where 2: "shape t2 \<noteq> []" "length c2 = hd (shape t2)"
    "graph_indices c2 = Some ids2" "tf_gather t2 ids2 = Some b"
    by blast
  show ?thesis
    using tf_gather_concat0 [OF 1(4) 2(4) tl] graph_indices_append [OF 1(3) 2(3)] 1(2) 2(2)
    by (simp add: repeat_rows_def)
qed

lemma repeat_rows_shape:
  assumes "repeat_rows t c = Some out"
  shows "shape out = nat (sum_list c) # tl (shape t)"
proof -
  from repeat_rows_Some [OF assms] obtain ids where 1: "graph_indices c = Some ids"
    "tf_gather t ids = Some out"
    by blast
  from graph_indices_length [OF 1(1)] tf_gather_shape [OF 1(2)] show ?thesis
    by simp
qed

lemma valid_index_snoc:
  "valid_index (s @ [d]) idx \<longleftrightarrow> (\<exists>m j. idx = m @ [j] \<and> valid_index s m \<and> j < d)"
proof
  assume "valid_index (s @ [d]) idx"
  then show "\<exists>m j. idx = m @ [j] \<and> valid_index s m \<and> j < d"
    by (auto simp: valid_index_def list_all2_append2 list_all2_Cons2)
next
  assume "\<exists>m j. idx = m @ [j] \<and> valid_index s m \<and> j < d"
  then obtain m j where "idx = m @ [j]" "list_all2 (<) m s" "j < d"
    by (auto simp: valid_index_def)
  then show "valid_index (s @ [d]) idx"
    using list_all2_lengthD [of "(<)" m s] by (simp add: valid_index_def list_all2_append)
qed

lemma rank2_decompose:
  assumes "2 \<le> length s"
  shows "s = hd s # butlast (tl s) @ [last s]" "tl s \<noteq> []" "last (tl s) = last s"
proof -
  from assms obtain x y zs where "s = x # y # zs"
    by (cases s; cases "tl s") auto
  then show "s = hd s # butlast (tl s) @ [last s]" "tl s \<noteq> []" "last (tl s) = last s"
    by simp_all
qed

lemma tf_concat_last_Some:
  assumes "tf_concat_last ts = Some c"
  shows "ts \<noteq> [] \<and> list_all (\<lambda>u. shape u \<noteq> [] \<and> butlast (shape u) = butlast (shape (hd ts))) ts
       \<and> c = mk_tensor (butlast (shape (hd ts)) @ [sum_list (map (\<lambda>u. last (shape u)) ts)])
               (\<lambda>idx. concat_entry ts (butlast idx) (last idx))"
  using assms by (cases ts) (auto simp: tf_concat_last_def split: if_splits)

lemma tf_concat_last_eq:
  assumes "ts \<noteq> []"
    and "list_all (\<lambda>u. shape u \<noteq> [] \<and> butlast (shape u) = butlast (shape (hd ts))) ts"
  shows "tf_concat_last ts
       = Some (mk_tensor (butlast (shape (hd ts)) @ [sum_list (map (\<lambda>u. last (shape u)) ts)])
               (\<lambda>idx. concat_entry ts (butlast idx) (last idx)))"
  using assms by (cases ts) (auto simp: tf_concat_last_def)

lemma concat_entry_batch:
  assumes "list_all2 (stackable n1 n2) ts1 ts2"
    and "list_all (\<lambda>t. butlast (tl (shape t)) = mid) ts1"
    and "i < n1 + n2" and "valid_index mid m"
  shows "concat_entry (map2 tf_concat0 ts1 ts2) (i # m) j
       = (if i < n1 then concat_entry ts1 (i # m) j else concat_entry ts2 ((i - n1) # m) j)"
  using assms(1,2)
proof (induction arbitrary: j rule: list_all2_induct)
  case Nil
  then show ?case by simp
next
  case (Cons t1 ts1 t2 ts2)
  from Cons.hyps(1) have st: "2 \<le> length (shape t1)" "2 \<le> length (shape t2)"
    "tl (shape t1) = tl (shape t2)" "hd (shape t1) = n1" "hd (shape t2) = n2"
    by (simp_all add: stackable_def)
  from Cons.prems have mid: "butlast (tl (shape t1)) = mid" and rest: "list_all (\<lambda>t. butlast (tl (shape t)) = mid) ts1"
    by simp_all
  have tl1: "tl (shape t1) = mid @ [last (shape t1)]"
    using rank2_decompose(1) [OF st(1)] mid
    by (metis list.sel(3))
  have l2: "last (shape t2) = last (shape t1)"
    using rank2_decompose(3) [OF st(1)] rank2_decompose(3) [OF st(2)] st(3) by simp
  have lc: "last (shape (tf_concat0 t1 t2)) = last (shape t1)"
    using rank2_decompose(2,3) [OF st(1)] by simp
  have ent: "entry (tf_concat0 t1 t2) ((i # m) @ [j])
      = (if i < n1 then entry t1 ((i # m) @ [j]) else entry t2 (((i - n1) # m) @ [j]))"
    if "j < last (shape t1)"
    using that assms(3,4) by (simp add: entry_tf_concat0 st(4,5) tl1 valid_index_snoc)
  show ?case
    using Cons.IH [OF rest] ent by (simp add: lc l2 del: shape_tf_concat0)
qed

lemma list_all2_stackable_last:
  "list_all2 (stackable n1 n2) ts1 ts2 \<Longrightarrow>
   map (\<lambda>u. last (shape u)) ts2 = map (\<lambda>u. last (shape u)) ts1
   \<and> map (\<lambda>u. last (shape u)) (map2 tf_concat0 ts1 ts2) = map (\<lambda>u. last (shape u)) ts1"
proof (induction rule: list_all2_induct)
  case Nil
  then show ?case by simp
next
  case (Cons t1 ts1 t2 ts2)
  from Cons.hyps(1) have st: "2 \<le> length (shape t1)" "2 \<le> length (shape t2)"
    "tl (shape t1) = tl (shape t2)"
    by (simp_all add: stackable_def)
  have "last (shape t2) = last (shape t1)"
    using rank2_decompose(3) [OF st(1)] rank2_decompose(3) [OF st(2)] st(3) by simp
  moreover have "last (shape (tf_concat0 t1 t2)) = last (shape t1)"
    using rank2_decompose(2,3) [OF st(1)] by simp
  ultimately show ?case using Cons.IH by simp
qed

lemma tf_concat_last_batch:
  assumes c1: "tf_concat_last ts1 = Some c1" and c2: "tf_concat_last ts2 = Some c2"
    and st: "list_all2 (stackable n1 n2) ts1 ts2"
  shows "tf_concat_last (map2 tf_concat0 ts1 ts2) = Some (tf_concat0 c1 c2) \<and> stackable n1 n2 c1 c2"
proof -
  note s1 = tf_concat_last_Some [OF c1] and s2 = tf_concat_last_Some [OF c2]
  from s1 obtain t1 rest1 where ts1: "ts1 = t1 # rest1"
    by (cases ts1) auto
  from st ts1 obtain t2 rest2 where ts2: "ts2 = t2 # rest2" and st0: "stackable n1 n2 t1 t2"
    by (auto simp: list_all2_Cons1)
  define mid where "mid = butlast (tl (shape t1))"
  define D where "D = sum_list (map (\<lambda>u. last (shape u)) ts1)"
  have r1: "2 \<le> length (shape t1)" and r2: "2 \<le> length (shape t2)"
    and tl12: "tl (shape t2) = tl (shape t1)" and h1: "hd (shape t1) = n1" and h2: "hd (shape t2) = n2"
    using st0 by (simp_all add: stackable_def)
  have sh_t1: "shape t1 = n1 # mid @ [last (shape t1)]"
    using rank2_decompose(1) [OF r1] h1 mid_def by simp
  have sh_t2: "shape t2 = n2 # mid @ [last (shape t2)]"
    using rank2_decompose(1) [OF r2] h2 mid_def tl12 by simp
  have b1: "butlast (shape t1) = n1 # mid"
    by (subst sh_t1) simp
  have b2: "butlast (shape t2) = n2 # mid"
    by (subst sh_t2) simp
  have full1: "shape u = n1 # mid @ [last (shape u)]" if "u \<in> set ts1" for u
  proof -
    have "shape u \<noteq> []" "butlast (shape u) = n1 # mid"
      using s1 that b1 by (auto simp: list_all_iff ts1)
    then show ?thesis
      using append_butlast_last_id [of "shape u"] by simp
  qed
  have mid1: "list_all (\<lambda>t. butlast (tl (shape t)) = mid) ts1"
    unfolding list_all_iff
  proof
    fix u assume "u \<in> set ts1"
    from full1 [OF this] have "tl (shape u) = mid @ [last (shape u)]"
      by (metis list.sel(3))
    then show "butlast (tl (shape u)) = mid"
      by simp
  qed
  have lasts: "map (\<lambda>u. last (shape u)) ts2 = map (\<lambda>u. last (shape u)) ts1"
    "map (\<lambda>u. last (shape u)) (map2 tf_concat0 ts1 ts2) = map (\<lambda>u. last (shape u)) ts1"
    using list_all2_stackable_last [OF st] by simp_all
  have hd1: "hd ts1 = t1" "hd ts2 = t2"
    by (simp_all add: ts1 ts2)
  from s1 have c1eq: "c1 = mk_tensor ((n1 # mid) @ [D]) (\<lambda>idx. concat_entry ts1 (butlast idx) (last idx))"
    unfolding hd1 b1 D_def [symmetric] by (rule conjunct2 [THEN conjunct2])
  from s2 have c2eq: "c2 = mk_tensor ((n2 # mid) @ [D]) (\<lambda>idx. concat_entry ts2 (butlast idx) (last idx))"
    unfolding hd1 b2 lasts(1) D_def [symmetric] by (rule conjunct2 [THEN conjunct2])
  have sh1: "shape c1 = (n1 # mid) @ [D]"
    by (simp add: c1eq)
  have sh2: "shape c2 = (n2 # mid) @ [D]"
    by (simp add: c2eq)
  have e1: "entry c1 (i # m @ [j]) = concat_entry ts1 (i # m) j"
    if "i < n1" "valid_index mid m" "j < D" for i m j
  proof -
    have "valid_index ((n1 # mid) @ [D]) ((i # m) @ [j])"
      using that by (subst valid_index_snoc) simp
    then show ?thesis
      by (simp add: c1eq)
  qed
  have e2: "entry c2 (i # m @ [j]) = concat_entry ts2 (i # m) j"
    if "i < n2" "valid_index mid m" "j < D" for i m j
  proof -
    have "valid_index ((n2 # mid) @ [D]) ((i # m) @ [j])"
      using that by (subst valid_index_snoc) simp
    then show ?thesis
      by (simp add: c2eq)
  qed
  let ?ts = "map2 tf_concat0 ts1 ts2"
  have pair: "shape (tf_concat0 u v) = (n1 + n2) # mid @ [last (shape u)]"
    if "(u, v) \<in> set (zip ts1 ts2)" for u v
  proof -
    have "stackable n1 n2 u v"
      using st that by (auto simp: list_all2_iff)
    then have "hd (shape u) = n1" "hd (shape v) = n2"
      by (simp_all add: stackable_def)
    moreover have "tl (shape u) = mid @ [last (shape u)]"
      using full1 [OF set_zip_leftD [OF that]] by (metis list.sel(3))
    ultimately show ?thesis
      by simp
  qed
  have hd_ts: "?ts = tf_concat0 t1 t2 # map2 tf_concat0 rest1 rest2"
    by (simp add: ts1 ts2)
  have in0: "(t1, t2) \<in> set (zip ts1 ts2)"
    by (simp add: ts1 ts2)
  have bhd: "butlast (shape (tf_concat0 t1 t2)) = (n1 + n2) # mid"
    by (subst pair [OF in0]) simp
  have all: "list_all (\<lambda>u. shape u \<noteq> [] \<and> butlast (shape u) = butlast (shape (hd ?ts))) ?ts"
    unfolding list_all_iff
  proof
    fix w assume "w \<in> set ?ts"
    then obtain u v where uv: "(u, v) \<in> set (zip ts1 ts2)" and w: "w = tf_concat0 u v"
      by auto
    have "butlast (shape w) = (n1 + n2) # mid"
      unfolding w by (subst pair [OF uv]) simp
    moreover have "shape w \<noteq> []"
      unfolding w by (subst pair [OF uv]) simp
    ultimately show "shape w \<noteq> [] \<and> butlast (shape w) = butlast (shape (hd ?ts))"
      using bhd by (simp only: hd_ts list.sel) simp
  qed
  have ne: "?ts \<noteq> []"
    by (simp add: ts1 ts2)
  have "butlast (shape (hd ?ts)) = (n1 + n2) # mid"
    using bhd by (simp only: hd_ts list.sel)
  with tf_concat_last_eq [OF ne all] have "tf_concat_last ?ts
      = Some (mk_tensor (((n1 + n2) # mid) @ [D]) (\<lambda>idx. concat_entry ?ts (butlast idx) (last idx)))"
    by (simp only: lasts D_def)
  also have "mk_tensor (((n1 + n2) # mid) @ [D]) (\<lambda>idx. concat_entry ?ts (butlast idx) (last idx))
      = tf_concat0 c1 c2"
  proof (rule concat0_eqI [where ?n1.0 = n1 and ?n2.0 = n2 and inner = "mid @ [D]"])
    fix i r assume i: "i < n1" and r: "valid_index (mid @ [D]) r"
    from r obtain m j where rr: "r = m @ [j]" "valid_index mid m" "j < D"
      by (auto simp: valid_index_snoc)
    have "concat_entry ?ts (i # m) j = concat_entry ts1 (i # m) j"
      using concat_entry_batch [OF st mid1 _ rr(2), of i j] i by simp
    then show "concat_entry ?ts (butlast (i # r)) (last (i # r)) = entry c1 (i # r)"
      using e1 [OF i rr(2,3)] by (simp add: rr)
  next
    fix i r assume i: "i < n2" and r: "valid_index (mid @ [D]) r"
    from r obtain m j where rr: "r = m @ [j]" "valid_index mid m" "j < D"
      by (auto simp: valid_index_snoc)
    have "concat_entry ?ts ((i + n1) # m) j = concat_entry ts2 (i # m) j"
      using concat_entry_batch [OF st mid1 _ rr(2), of "i + n1" j] i by simp
    then show "concat_entry ?ts (butlast ((i + n1) # r)) (last ((i + n1) # r)) = entry c2 (i # r)"
      using e2 [OF i rr(2,3)] by (simp add: rr)
  qed (simp_all add: sh1 sh2)
  finally have "tf_concat_last ?ts = Some (tf_concat0 c1 c2)" .
  moreover have "stackable n1 n2 c1 c2"
    by (simp add: stackable_def sh1 sh2)
  ultimately show ?thesis by simp
qed

lemma valid_graph_sums:
  assumes "valid_graph g"
  shows "0 \<le> sum_list (n_node g)" "0 \<le> sum_list (n_edge g)"
  using assms by (simp_all add: valid_graph_def sum_list_nonneg_all)

lemma rows_areD:
  "rows_are (Some t) n \<Longrightarrow> 2 \<le> length (shape t) \<and> hd (shape t) = nat n \<and> int (hd (shape t)) = n"
  by (auto simp: rows_are_def)

lemma input_edges_batch:
  assumes "valid_graph g1" "valid_graph g2" "compatible g1 g2"
    and "edges g1 = Some a" "edges g2 = Some b"
  shows "edges (batch_graphs g1 g2) = Some (tf_concat0 a b)
       \<and> stackable (nat (sum_list (n_edge g1))) (nat (sum_list (n_edge g2))) a b"
  using assms
  by (auto simp: batch_graphs_def batch_features_def stackable_def valid_graph_def rows_are_def
      compatible_def same_layout_def)

lemma input_nodes_batch:
  assumes "valid_graph g1" "valid_graph g2" "compatible g1 g2"
    and "nodes g1 = Some a" "nodes g2 = Some b"
  shows "nodes (batch_graphs g1 g2) = Some (tf_concat0 a b)
       \<and> stackable (nat (sum_list (n_node g1))) (nat (sum_list (n_node g2))) a b"
  using assms
  by (auto simp: batch_graphs_def batch_features_def stackable_def valid_graph_def rows_are_def
      compatible_def same_layout_def)

lemma input_globals_batch:
  assumes "valid_graph g1" "valid_graph g2" "compatible g1 g2"
    and "globals g1 = Some a" "globals g2 = Some b"
  shows "globals (batch_graphs g1 g2) = Some (tf_concat0 a b)
       \<and> stackable (length (n_node g1)) (length (n_node g2)) a b"
  using assms
  by (auto simp: batch_graphs_def batch_features_def stackable_def valid_graph_def rows_are_def
      compatible_def same_layout_def)

lemma input_receiver_nodes_batch:
  assumes v1: "valid_graph g1" and v2: "valid_graph g2" and c: "compatible g1 g2"
    and a: "broadcast_receiver_nodes_to_edges g1 = Some a"
    and b: "broadcast_receiver_nodes_to_edges g2 = Some b"
  shows "broadcast_receiver_nodes_to_edges (batch_graphs g1 g2) = Some (tf_concat0 a b)
       \<and> stackable (nat (sum_list (n_edge g1))) (nat (sum_list (n_edge g2))) a b"
proof -
  from a obtain p1 r1 where 1: "nodes g1 = Some p1" "receivers g1 = Some r1" "tf_gather p1 r1 = Some a"
    by (auto simp: broadcast_receiver_nodes_to_edges_def bind_eq_Some_conv)
  from b obtain p2 r2 where 2: "nodes g2 = Some p2" "receivers g2 = Some r2" "tf_gather p2 r2 = Some b"
    by (auto simp: broadcast_receiver_nodes_to_edges_def bind_eq_Some_conv)
  have "tl (shape p1) = tl (shape p2)" "2 \<le> length (shape p1)" "2 \<le> length (shape p2)"
    "length r1 = nat (sum_list (n_edge g1))" "length r2 = nat (sum_list (n_edge g2))"
    using c v1 v2 1 2
    by (auto simp: compatible_def same_layout_def valid_graph_def rows_are_def indices_within_def)
  then have "stackable (nat (sum_list (n_edge g1))) (nat (sum_list (n_edge g2))) a b"
    using tf_gather_shape [OF 1(3)] tf_gather_shape [OF 2(3)] by (simp add: stackable_def)
  then show ?thesis
    using broadcast_receiver_batch [OF v1 c a b] by simp
qed

lemma input_sender_nodes_batch:
  assumes v1: "valid_graph g1" and v2: "valid_graph g2" and c: "compatible g1 g2"
    and a: "broadcast_sender_nodes_to_edges g1 = Some a"
    and b: "broadcast_sender_nodes_to_edges g2 = Some b"
  shows "broadcast_sender_nodes_to_edges (batch_graphs g1 g2) = Some (tf_concat0 a b)
       \<and> stackable (nat (sum_list (n_edge g1))) (nat (sum_list (n_edge g2))) a b"
proof -
  from a obtain p1 r1 where 1: "nodes g1 = Some p1" "senders g1 = Some r1" "tf_gather p1 r1 = Some a"
    by (auto simp: broadcast_sender_nodes_to_edges_def bind_eq_Some_conv)
  from b obtain p2 r2 where 2: "nodes g2 = Some p2" "senders g2 = Some r2" "tf_gather p2 r2 = Some b"
    by (auto simp: broadcast_sender_nodes_to_edges_def bind_eq_Some_conv)
  have "tl (shape p1) = tl (shape p2)" "2 \<le> length (shape p1)" "2 \<le> length (shape p2)"
    "length r1 = nat (sum_list (n_edge g1))" "length r2 = nat (sum_list (n_edge g2))"
    using c v1 v2 1 2
    by (auto simp: compatible_def same_layout_def valid_graph_def rows_are_def indices_within_def)
  then have "stackable (nat (sum_list (n_edge g1))) (nat (sum_list (n_edge g2))) a b"
    using tf_gather_shape [OF 1(3)] tf_gather_shape [OF 2(3)] by (simp add: stackable_def)
  then show ?thesis
    using broadcast_sender_batch [OF v1 c a b] by simp
qed

lemma input_globals_to_edges_batch:
  assumes v1: "valid_graph g1" and v2: "valid_graph g2" and c: "compatible g1 g2"
    and a: "broadcast_globals_to_edges g1 = Some a"
    and b: "broadcast_globals_to_edges g2 = Some b"
  shows "broadcast_globals_to_edges (batch_graphs g1 g2) = Some (tf_concat0 a b)
       \<and> stackable (nat (sum_list (n_edge g1))) (nat (sum_list (n_edge g2))) a b"
proof -
  from a obtain t1 where 1: "globals g1 = Some t1" "repeat_rows t1 (n_edge g1) = Some a"
    by (auto simp: broadcast_globals_to_edges_def bind_eq_Some_conv)
  from b obtain t2 where 2: "globals g2 = Some t2" "repeat_rows t2 (n_edge g2) = Some b"
    by (auto simp: broadcast_globals_to_edges_def bind_eq_Some_conv)
  have tl: "tl (shape t1) = tl (shape t2)" and rk: "2 \<le> length (shape t1)" "2 \<le> length (shape t2)"
    using c v1 v2 1 2
    by (auto simp: compatible_def same_layout_def valid_graph_def rows_are_def)
  have "stackable (nat (sum_list (n_edge g1))) (nat (sum_list (n_edge g2))) a b"
    using repeat_rows_shape [OF 1(2)] repeat_rows_shape [OF 2(2)] tl rk
    by (simp add: stackable_def)
  then show ?thesis
    using repeat_rows_batch [OF 1(2) 2(2) tl]
    by (simp add: broadcast_globals_to_edges_def batch_graphs_def batch_features_def 1 2)
qed

lemma input_globals_to_nodes_batch:
  assumes v1: "valid_graph g1" and v2: "valid_graph g2" and c: "compatible g1 g2"
    and a: "broadcast_globals_to_nodes g1 = Some a"
    and b: "broadcast_globals_to_nodes g2 = Some b"
  shows "broadcast_globals_to_nodes (batch_graphs g1 g2) = Some (tf_concat0 a b)
       \<and> stackable (nat (sum_list (n_node g1))) (nat (sum_list (n_node g2))) a b"
proof -
  from a obtain t1 where 1: "globals g1 = Some t1" "repeat_rows t1 (n_node g1) = Some a"
    by (auto simp: broadcast_globals_to_nodes_def bind_eq_Some_conv)
  from b obtain t2 where 2: "globals g2 = Some t2" "repeat_rows t2 (n_node g2) = Some b"
    by (auto simp: broadcast_globals_to_nodes_def bind_eq_Some_conv)
  have tl: "tl (shape t1) = tl (shape t2)" and rk: "2 \<le> length (shape t1)" "2 \<le> length (shape t2)"
    using c v1 v2 1 2
    by (auto simp: compatible_def same_layout_def valid_graph_def rows_are_def)
  have "stackable (nat (sum_list (n_node g1))) (nat (sum_list (n_node g2))) a b"
    using repeat_rows_shape [OF 1(2)] repeat_rows_shape [OF 2(2)] tl rk
    by (simp add: stackable_def)
  then show ?thesis
    using repeat_rows_batch [OF 1(2) 2(2) tl]
    by (simp add: broadcast_globals_to_nodes_def batch_graphs_def batch_features_def 1 2)
qed

lemma segment_wiseD:
  assumes "segment_wise r" "r d1 ids1 n1 = Some o1" "r d2 ids2 n2 = Some o2"
    "tl (shape d1) = tl (shape d2)" "list_all (\<lambda>i. 0 \<le> i) ids1" "list_all (\<lambda>i. 0 \<le> i) ids2"
    "0 \<le> n1" "0 \<le> n2"
  shows "r (tf_concat0 d1 d2) (ids1 @ map (\<lambda>i. i + n1) ids2) (n1 + n2) = Some (tf_concat0 o1 o2)"
    "shape o1 = nat n1 # tl (shape d1)" "shape o2 = nat n2 # tl (shape d2)"
  using assms unfolding segment_wise_def by blast+

lemma row_wiseD:
  assumes "row_wise f" "2 \<le> length (shape a)" "2 \<le> length (shape b)"
    "tl (shape a) = tl (shape b)" "f a = Some a'" "f b = Some b'"
  shows "f (tf_concat0 a b) = Some (tf_concat0 a' b')"
    "2 \<le> length (shape a')" "2 \<le> length (shape b')"
    "hd (shape a') = hd (shape a)" "hd (shape b') = hd (shape b)" "tl (shape a') = tl (shape b')"
  using assms unfolding row_wise_def by blast+

lemma list_all_nonneg: "list_all (\<lambda>i. 0 \<le> i \<and> i < n) xs \<Longrightarrow> list_all (\<lambda>i. (0::int) \<le> i) xs"
  by (simp add: list_all_iff)

lemma input_received_edges_batch:
  assumes v1: "valid_graph g1" and v2: "valid_graph g2" and c: "compatible g1 g2"
    and sw: "segment_wise r"
    and a: "ReceivedEdgesToNodesAggregator r g1 = Some a"
    and b: "ReceivedEdgesToNodesAggregator r g2 = Some b"
  shows "ReceivedEdgesToNodesAggregator r (batch_graphs g1 g2) = Some (tf_concat0 a b)
       \<and> stackable (nat (sum_list (n_node g1))) (nat (sum_list (n_node g2))) a b"
proof -
  from a obtain e1 r1 where 1: "edges g1 = Some e1" "receivers g1 = Some r1"
    "r e1 r1 (sum_list (n_node g1)) = Some a"
    by (auto simp: ReceivedEdgesToNodesAggregator_def bind_eq_Some_conv)
  from b obtain e2 r2 where 2: "edges g2 = Some e2" "receivers g2 = Some r2"
    "r e2 r2 (sum_list (n_node g2)) = Some b"
    by (auto simp: ReceivedEdgesToNodesAggregator_def bind_eq_Some_conv)
  have tl: "tl (shape e1) = tl (shape e2)" and rk: "2 \<le> length (shape e1)" "2 \<le> length (shape e2)"
    and nn: "list_all (\<lambda>i. 0 \<le> i) r1" "list_all (\<lambda>i. 0 \<le> i) r2"
    using c v1 v2 1 2
    by (auto simp: compatible_def same_layout_def valid_graph_def rows_are_def indices_within_def
        list_all_iff)
  note d = segment_wiseD [OF sw 1(3) 2(3) tl nn valid_graph_sums(1) [OF v1] valid_graph_sums(1) [OF v2]]
  have "stackable (nat (sum_list (n_node g1))) (nat (sum_list (n_node g2))) a b"
    using d(2,3) tl rk by (simp add: stackable_def)
  then show ?thesis
    using d(1)
    by (simp add: ReceivedEdgesToNodesAggregator_def batch_graphs_def batch_features_def
        batch_indices_def 1 2)
qed

lemma input_sent_edges_batch:
  assumes v1: "valid_graph g1" and v2: "valid_graph g2" and c: "compatible g1 g2"
    and sw: "segment_wise r"
    and a: "SentEdgesToNodesAggregator r g1 = Some a"
    and b: "SentEdgesToNodesAggregator r g2 = Some b"
  shows "SentEdgesToNodesAggregator r (batch_graphs g1 g2) = Some (tf_concat0 a b)
       \<and> stackable (nat (sum_list (n_node g1))) (nat (sum_list (n_node g2))) a b"
proof -
  from a obtain e1 r1 where 1: "edges g1 = Some e1" "senders g1 = Some r1"
    "r e1 r1 (sum_list (n_node g1)) = Some a"
    by (auto simp: SentEdgesToNodesAggregator_def bind_eq_Some_conv)
  from b obtain e2 r2 where 2: "edges g2 = Some e2" "senders g2 = Some r2"
    "r e2 r2 (sum_list (n_node g2)) = Some b"
    by (auto simp: SentEdgesToNodesAggregator_def bind_eq_Some_conv)
  have tl: "tl (shape e1) = tl (shape e2)" and rk: "2 \<le> length (shape e1)" "2 \<le> length (shape e2)"
    and nn: "list_all (\<lambda>i. 0 \<le> i) r1" "list_all (\<lambda>i. 0 \<le> i) r2"
    using c v1 v2 1 2
    by (auto simp: compatible_def same_layout_def valid_graph_def rows_are_def indices_within_def
        list_all_iff)
  note d = segment_wiseD [OF sw 1(3) 2(3) tl nn valid_graph_sums(1) [OF v1] valid_graph_sums(1) [OF v2]]
  have "stackable (nat (sum_list (n_node g1))) (nat (sum_list (n_node g2))) a b"
    using d(2,3) tl rk by (simp add: stackable_def)
  then show ?thesis
    using d(1)
    by (simp add: SentEdgesToNodesAggregator_def batch_graphs_def batch_features_def
        batch_indices_def 1 2)
qed

lemma input_edges_to_globals_batch:
  assumes v1: "valid_graph g1" and v2: "valid_graph g2" and c: "compatible g1 g2"
    and sw: "segment_wise r"
    and a: "EdgesToGlobalsAggregator r g1 = Some a"
    and b: "EdgesToGlobalsAggregator r g2 = Some b"
  shows "EdgesToGlobalsAggregator r (batch_graphs g1 g2) = Some (tf_concat0 a b)
       \<and> stackable (length (n_node g1)) (length (n_node g2)) a b"
proof -
  from a obtain e1 ids1 where 1: "edges g1 = Some e1" "graph_indices (n_edge g1) = Some ids1"
    "r e1 ids1 (int (length (n_node g1))) = Some a"
    by (auto simp: EdgesToGlobalsAggregator_def bind_eq_Some_conv)
  from b obtain e2 ids2 where 2: "edges g2 = Some e2" "graph_indices (n_edge g2) = Some ids2"
    "r e2 ids2 (int (length (n_node g2))) = Some b"
    by (auto simp: EdgesToGlobalsAggregator_def bind_eq_Some_conv)
  have tl: "tl (shape e1) = tl (shape e2)" and rk: "2 \<le> length (shape e1)" "2 \<le> length (shape e2)"
    and len: "length (n_edge g1) = length (n_node g1)"
    using c v1 v2 1 2
    by (auto simp: compatible_def same_layout_def valid_graph_def rows_are_def)
  note d = segment_wiseD [OF sw 1(3) 2(3) tl graph_indices_nonneg [OF 1(2)]
      graph_indices_nonneg [OF 2(2)]]
  have "stackable (length (n_node g1)) (length (n_node g2)) a b"
    using d(2,3) tl rk by (simp add: stackable_def)
  then show ?thesis
    using d(1) graph_indices_append [OF 1(2) 2(2)]
    by (simp add: EdgesToGlobalsAggregator_def batch_graphs_def batch_features_def 1 2 len)
qed

lemma input_nodes_to_globals_batch:
  assumes v1: "valid_graph g1" and v2: "valid_graph g2" and c: "compatible g1 g2"
    and sw: "segment_wise r"
    and a: "NodesToGlobalsAggregator r g1 = Some a"
    and b: "NodesToGlobalsAggregator r g2 = Some b"
  shows "NodesToGlobalsAggregator r (batch_graphs g1 g2) = Some (tf_concat0 a b)
       \<and> stackable (length (n_node g1)) (length (n_node g2)) a b"
proof -
  from a obtain e1 ids1 where 1: "nodes g1 = Some e1" "graph_indices (n_node g1) = Some ids1"
    "r e1 ids1 (int (length (n_node g1))) = Some a"
    by (auto simp: NodesToGlobalsAggregator_def bind_eq_Some_conv)
  from b obtain e2 ids2 where 2: "nodes g2 = Some e2" "graph_indices (n_node g2) = Some ids2"
    "r e2 ids2 (int (length (n_node g2))) = Some b"
    by (auto simp: NodesToGlobalsAggregator_def bind_eq_Some_conv)
  have tl: "tl (shape e1) = tl (shape e2)" and rk: "2 \<le> length (shape e1)" "2 \<le> length (shape e2)"
    using c v1 v2 1 2
    by (auto simp: compatible_def same_layout_def valid_graph_def rows_are_def)
  note d = segment_wiseD [OF sw 1(3) 2(3) tl graph_indices_nonneg [OF 1(2)]
      graph_indices_nonneg [OF 2(2)]]
  have "stackable (length (n_node g1)) (length (n_node g2)) a b"
    using d(2,3) tl rk by (simp add: stackable_def)
  then show ?thesis
    using d(1) graph_indices_append [OF 1(2) 2(2)]
    by (simp add: NodesToGlobalsAggregator_def batch_graphs_def batch_features_def 1 2)
qed

lemma collect_batch:
  assumes "\<And>a b. x1 = Some a \<Longrightarrow> x2 = Some b \<Longrightarrow> x12 = Some (tf_concat0 a b) \<and> stackable n1 n2 a b"
    and "collect flag x1 = Some l1" "collect flag x2 = Some l2"
  shows "collect flag x12 = Some (map2 tf_concat0 l1 l2) \<and> list_all2 (stackable n1 n2) l1 l2"
  using assms by (cases flag) (auto simp: collect_def)

lemma map2_append:
  "length a1 = length a2 \<Longrightarrow> map2 f (a1 @ b1) (a2 @ b2) = map2 f a1 a2 @ map2 f b1 b2"
  by simp

lemma batch_graphs_edges:
  "batch_graphs (g1\<lparr>edges := Some a\<rparr>) (g2\<lparr>edges := Some b\<rparr>)
     = (batch_graphs g1 g2)\<lparr>edges := Some (tf_concat0 a b)\<rparr>"
  by (simp add: batch_graphs_def batch_features_def)

lemma batch_graphs_nodes:
  "batch_graphs (g1\<lparr>nodes := Some a\<rparr>) (g2\<lparr>nodes := Some b\<rparr>)
     = (batch_graphs g1 g2)\<lparr>nodes := Some (tf_concat0 a b)\<rparr>"
  by (simp add: batch_graphs_def batch_features_def)

lemma batch_graphs_globals:
  "batch_graphs (g1\<lparr>globals := Some a\<rparr>) (g2\<lparr>globals := Some b\<rparr>)
     = (batch_graphs g1 g2)\<lparr>globals := Some (tf_concat0 a b)\<rparr>"
  by (simp add: batch_graphs_def batch_features_def)

lemma stackable_concat_last_rows:
  assumes "tf_concat_last ts1 = Some c1" "tf_concat_last ts2 = Some c2"
    "list_all2 (stackable n1 n2) ts1 ts2"
  shows "2 \<le> length (shape c1)" "2 \<le> length (shape c2)" "tl (shape c1) = tl (shape c2)"
    "hd (shape c1) = n1" "hd (shape c2) = n2"
  using tf_concat_last_batch [OF assms] by (simp_all add: stackable_def)

lemma valid_graph_edges_update:
  "valid_graph g \<Longrightarrow> rows_are (Some u) (sum_list (n_edge g)) \<Longrightarrow> valid_graph (g\<lparr>edges := Some u\<rparr>)"
  by (simp add: valid_graph_def)

lemma valid_graph_nodes_update:
  "valid_graph g \<Longrightarrow> rows_are (Some u) (sum_list (n_node g)) \<Longrightarrow> valid_graph (g\<lparr>nodes := Some u\<rparr>)"
  by (simp add: valid_graph_def)

lemma valid_graph_globals_update:
  "valid_graph g \<Longrightarrow> rows_are (Some u) (int (length (n_node g))) \<Longrightarrow>
   valid_graph (g\<lparr>globals := Some u\<rparr>)"
  by (simp add: valid_graph_def)

lemma rows_areI:
  "2 \<le> length (shape u) \<Longrightarrow> hd (shape u) = nat n \<Longrightarrow> 0 \<le> n \<Longrightarrow> rows_are (Some u) n"
  by (simp add: rows_are_def)

lemma EdgeBlock_build_batch:
  assumes v1: "valid_graph g1" and v2: "valid_graph g2" and c: "compatible g1 g2"
    and rw: "row_wise (edge_model blk)"
    and b1: "EdgeBlock_build blk g1 = Some o1" and b2: "EdgeBlock_build blk g2 = Some o2"
  shows "EdgeBlock_build blk (batch_graphs g1 g2) = Some (batch_graphs o1 o2)
       \<and> valid_graph o1 \<and> valid_graph o2 \<and> compatible o1 o2"
proof -
  let ?n1 = "nat (sum_list (n_edge g1))" and ?n2 = "nat (sum_list (n_edge g2))"
  from b1 obtain e1 r1 s1 gl1 c1 u1 where 1:
    "collect (eb_use_edges blk) (edges g1) = Some e1"
    "collect (eb_use_receiver_nodes blk) (broadcast_receiver_nodes_to_edges g1) = Some r1"
    "collect (eb_use_sender_nodes blk) (broadcast_sender_nodes_to_edges g1) = Some s1"
    "collect (eb_use_globals blk) (broadcast_globals_to_edges g1) = Some gl1"
    "tf_concat_last (e1 @ r1 @ s1 @ gl1) = Some c1"
    "edge_model blk c1 = Some u1" "o1 = g1\<lparr>edges := Some u1\<rparr>"
    by (auto simp: EdgeBlock_build_def bind_eq_Some_conv)
  from b2 obtain e2 r2 s2 gl2 c2 u2 where 2:
    "collect (eb_use_edges blk) (edges g2) = Some e2"
    "collect (eb_use_receiver_nodes blk) (broadcast_receiver_nodes_to_edges g2) = Some r2"
    "collect (eb_use_sender_nodes blk) (broadcast_sender_nodes_to_edges g2) = Some s2"
    "collect (eb_use_globals blk) (broadcast_globals_to_edges g2) = Some gl2"
    "tf_concat_last (e2 @ r2 @ s2 @ gl2) = Some c2"
    "edge_model blk c2 = Some u2" "o2 = g2\<lparr>edges := Some u2\<rparr>"
    by (auto simp: EdgeBlock_build_def bind_eq_Some_conv)
  note ce = collect_batch [OF input_edges_batch [OF v1 v2 c] 1(1) 2(1)]
  note cr = collect_batch [OF input_receiver_nodes_batch [OF v1 v2 c] 1(2) 2(2)]
  note cs = collect_batch [OF input_sender_nodes_batch [OF v1 v2 c] 1(3) 2(3)]
  note cg = collect_batch [OF input_globals_to_edges_batch [OF v1 v2 c] 1(4) 2(4)]
  have st: "list_all2 (stackable ?n1 ?n2) (e1 @ r1 @ s1 @ gl1) (e2 @ r2 @ s2 @ gl2)"
    using ce cr cs cg by (intro list_all2_appendI) simp_all
  have m: "map2 tf_concat0 (e1 @ r1 @ s1 @ gl1) (e2 @ r2 @ s2 @ gl2)
      = map2 tf_concat0 e1 e2 @ map2 tf_concat0 r1 r2 @ map2 tf_concat0 s1 s2 @ map2 tf_concat0 gl1 gl2"
  proof -
    have "length e1 = length e2" "length r1 = length r2" "length s1 = length s2"
      using ce cr cs by (auto dest: list_all2_lengthD)
    then show ?thesis by simp
  qed
  note cc = tf_concat_last_batch [OF 1(5) 2(5) st]
  note rows = stackable_concat_last_rows [OF 1(5) 2(5) st]
  note rw' = row_wiseD [OF rw rows(1,2,3) 1(6) 2(6)]
  have "EdgeBlock_build blk (batch_graphs g1 g2)
      = Some ((batch_graphs g1 g2)\<lparr>edges := Some (tf_concat0 u1 u2)\<rparr>)"
    using ce cr cs cg cc rw'(1) by (simp add: EdgeBlock_build_def m [symmetric])
  moreover have "valid_graph o1"
    unfolding 1(7) using v1
  proof (rule valid_graph_edges_update)
    show "rows_are (Some u1) (sum_list (n_edge g1))"
      using rw'(2,4) rows(4) valid_graph_sums(2) [OF v1] by (intro rows_areI) simp_all
  qed
  moreover have "valid_graph o2"
    unfolding 2(7) using v2
  proof (rule valid_graph_edges_update)
    show "rows_are (Some u2) (sum_list (n_edge g2))"
      using rw'(3,5) rows(5) valid_graph_sums(2) [OF v2] by (intro rows_areI) simp_all
  qed
  moreover have "compatible o1 o2"
    using c rw'(6) by (simp add: compatible_def 1(7) 2(7) same_layout_def)
  ultimately show ?thesis
    by (simp add: 1(7) 2(7) batch_graphs_edges)
qed

lemma NodeBlock_build_batch:
  assumes v1: "valid_graph g1" and v2: "valid_graph g2" and c: "compatible g1 g2"
    and rw: "row_wise (node_model blk)"
    and swr: "segment_wise (nb_received_edges_reducer blk)"
    and sws: "segment_wise (nb_sent_edges_reducer blk)"
    and b1: "NodeBlock_build blk g1 = Some o1" and b2: "NodeBlock_build blk g2 = Some o2"
  shows "NodeBlock_build blk (batch_graphs g1 g2) = Some (batch_graphs o1 o2)
       \<and> valid_graph o1 \<and> valid_graph o2 \<and> compatible o1 o2"
proof -
  let ?n1 = "nat (sum_list (n_node g1))" and ?n2 = "nat (sum_list (n_node g2))"
  from b1 obtain r1 s1 n1 gl1 c1 u1 where 1:
    "collect (nb_use_received_edges blk)
       (ReceivedEdgesToNodesAggregator (nb_received_edges_reducer blk) g1) = Some r1"
    "collect (nb_use_sent_edges blk)
       (SentEdgesToNodesAggregator (nb_sent_edges_reducer blk) g1) = Some s1"
    "collect (nb_use_nodes blk) (nodes g1) = Some n1"
    "collect (nb_use_globals blk) (broadcast_globals_to_nodes g1) = Some gl1"
    "tf_concat_last (r1 @ s1 @ n1 @ gl1) = Some c1"
    "node_model blk c1 = Some u1" "o1 = g1\<lparr>nodes := Some u1\<rparr>"
    by (auto simp: NodeBlock_build_def bind_eq_Some_conv)
  from b2 obtain r2 s2 n2 gl2 c2 u2 where 2:
    "collect (nb_use_received_edges blk)
       (ReceivedEdgesToNodesAggregator (nb_received_edges_reducer blk) g2) = Some r2"
    "collect (nb_use_sent_edges blk)
       (SentEdgesToNodesAggregator (nb_sent_edges_reducer blk) g2) = Some s2"
    "collect (nb_use_nodes blk) (nodes g2) = Some n2"
    "collect (nb_use_globals blk) (broadcast_globals_to_nodes g2) = Some gl2"
    "tf_concat_last (r2 @ s2 @ n2 @ gl2) = Some c2"
    "node_model blk c2 = Some u2" "o2 = g2\<lparr>nodes := Some u2\<rparr>"
    by (auto simp: NodeBlock_build_def bind_eq_Some_conv)
  note cr = collect_batch [OF input_received_edges_batch [OF v1 v2 c swr] 1(1) 2(1)]
  note cs = collect_batch [OF input_sent_edges_batch [OF v1 v2 c sws] 1(2) 2(2)]
  note cn = collect_batch [OF input_nodes_batch [OF v1 v2 c] 1(3) 2(3)]
  note cg = collect_batch [OF input_globals_to_nodes_batch [OF v1 v2 c] 1(4) 2(4)]
  have st: "list_all2 (stackable ?n1 ?n2) (r1 @ s1 @ n1 @ gl1) (r2 @ s2 @ n2 @ gl2)"
    using cr cs cn cg by (intro list_all2_appendI) simp_all
  have m: "map2 tf_concat0 (r1 @ s1 @ n1 @ gl1) (r2 @ s2 @ n2 @ gl2)
      = map2 tf_concat0 r1 r2 @ map2 tf_concat0 s1 s2 @ map2 tf_concat0 n1 n2 @ map2 tf_concat0 gl1 gl2"
  proof -
    have "length r1 = length r2" "length s1 = length s2" "length n1 = length n2"
      using cr cs cn by (auto dest: list_all2_lengthD)
    then show ?thesis by simp
  qed
  note cc = tf_concat_last_batch [OF 1(5) 2(5) st]
  note rows = stackable_concat_last_rows [OF 1(5) 2(5) st]
  note rw' = row_wiseD [OF rw rows(1,2,3) 1(6) 2(6)]
  have "NodeBlock_build blk (batch_graphs g1 g2)
      = Some ((batch_graphs g1 g2)\<lparr>nodes := Some (tf_concat0 u1 u2)\<rparr>)"
    using cr cs cn cg cc rw'(1) by (simp add: NodeBlock_build_def m [symmetric])
  moreover have "valid_graph o1"
    unfolding 1(7) using v1
  proof (rule valid_graph_nodes_update)
    show "rows_are (Some u1) (sum_list (n_node g1))"
      using rw'(2,4) rows(4) valid_graph_sums(1) [OF v1] by (intro rows_areI) simp_all
  qed
  moreover have "valid_graph o2"
    unfolding 2(7) using v2
  proof (rule valid_graph_nodes_update)
    show "rows_are (Some u2) (sum_list (n_node g2))"
      using rw'(3,5) rows(5) valid_graph_sums(1) [OF v2] by (intro rows_areI) simp_all
  qed
  moreover have "compatible o1 o2"
    using c rw'(6) by (simp add: compatible_def 1(7) 2(7) same_layout_def)
  ultimately show ?thesis
    by (simp add: 1(7) 2(7) batch_graphs_nodes)
qed

lemma GlobalBlock_build_batch:
  assumes v1: "valid_graph g1" and v2: "valid_graph g2" and c: "compatible g1 g2"
    and rw: "row_wise (global_model blk)"
    and swe: "segment_wise (gb_edges_reducer blk)"
    and swn: "segment_wise (gb_nodes_reducer blk)"
    and b1: "GlobalBlock_build blk g1 = Some o1" and b2: "GlobalBlock_build blk g2 = Some o2"
  shows "GlobalBlock_build blk (batch_graphs g1 g2) = Some (batch_graphs o1 o2)
       \<and> valid_graph o1 \<and> valid_graph o2 \<and> compatible o1 o2"
proof -
  let ?n1 = "length (n_node g1)" and ?n2 = "length (n_node g2)"
  from b1 obtain e1 n1 gl1 c1 u1 where 1:
    "collect (gb_use_edges blk) (EdgesToGlobalsAggregator (gb_edges_reducer blk) g1) = Some e1"
    "collect (gb_use_nodes blk) (NodesToGlobalsAggregator (gb_nodes_reducer blk) g1) = Some n1"
    "collect (gb_use_globals blk) (globals g1) = Some gl1"
    "tf_concat_last (e1 @ n1 @ gl1) = Some c1"
    "global_model blk c1 = Some u1" "o1 = g1\<lparr>globals := Some u1\<rparr>"
    by (auto simp: GlobalBlock_build_def bind_eq_Some_conv)
  from b2 obtain e2 n2 gl2 c2 u2 where 2:
    "collect (gb_use_edges blk) (EdgesToGlobalsAggregator (gb_edges_reducer blk) g2) = Some e2"
    "collect (gb_use_nodes blk) (NodesToGlobalsAggregator (gb_nodes_reducer blk) g2) = Some n2"
    "collect (gb_use_globals blk) (globals g2) = Some gl2"
    "tf_concat_last (e2 @ n2 @ gl2) = Some c2"
    "global_model blk c2 = Some u2" "o2 = g2\<lparr>globals := Some u2\<rparr>"
    by (auto simp: GlobalBlock_build_def bind_eq_Some_conv)
  note ce = collect_batch [OF input_edges_to_globals_batch [OF v1 v2 c swe] 1(1) 2(1)]
  note cn = collect_batch [OF input_nodes_to_globals_batch [OF v1 v2 c swn] 1(2) 2(2)]
  note cg = collect_batch [OF input_globals_batch [OF v1 v2 c] 1(3) 2(3)]
  have st: "list_all2 (stackable ?n1 ?n2) (e1 @ n1 @ gl1) (e2 @ n2 @ gl2)"
    using ce cn cg by (intro list_all2_appendI) simp_all
  have m: "map2 tf_concat0 (e1 @ n1 @ gl1) (e2 @ n2 @ gl2)
      = map2 tf_concat0 e1 e2 @ map2 tf_concat0 n1 n2 @ map2 tf_concat0 gl1 gl2"
  proof -
    have "length e1 = length e2" "length n1 = length n2"
      using ce cn by (auto dest: list_all2_lengthD)
    then show ?thesis by simp
  qed
  note cc = tf_concat_last_batch [OF 1(4) 2(4) st]
  note rows = stackable_concat_last_rows [OF 1(4) 2(4) st]
  note rw' = row_wiseD [OF rw rows(1,2,3) 1(5) 2(5)]
  have "GlobalBlock_build blk (batch_graphs g1 g2)
      = Some ((batch_graphs g1 g2)\<lparr>globals := Some (tf_concat0 u1 u2)\<rparr>)"
    using ce cn cg cc rw'(1) by (simp add: GlobalBlock_build_def m [symmetric])
  moreover have "valid_graph o1"
    unfolding 1(6) using v1
  proof (rule valid_graph_globals_update)
    show "rows_are (Some u1) (int (length (n_node g1)))"
      using rw'(2,4) rows(4) by (intro rows_areI) simp_all
  qed
  moreover have "valid_graph o2"
    unfolding 2(6) using v2
  proof (rule valid_graph_globals_update)
    show "rows_are (Some u2) (int (length (n_node g2)))"
      using rw'(3,5) rows(5) by (intro rows_areI) simp_all
  qed
  moreover have "compatible o1 o2"
    using c rw'(6) by (simp add: compatible_def 1(6) 2(6) same_layout_def)
  ultimately show ?thesis
    by (simp add: 1(6) 2(6) batch_graphs_globals)
qed

section \<open>Batching: the composite architectures\<close>

lemma same_segment_batch:
  assumes r1: "list_all (\<lambda>i. 0 \<le> i \<and> i < n1) ids1" and r2: "list_all (\<lambda>i. 0 \<le> i) ids2"
    and n1: "0 \<le> n1"
  shows "e < length ids1 \<Longrightarrow>
           same_segment (ids1 @ map (\<lambda>i. i + n1) ids2) e = same_segment ids1 e"
    and "e < length ids2 \<Longrightarrow>
           same_segment (ids1 @ map (\<lambda>i. i + n1) ids2) (e + length ids1)
             = map (\<lambda>j. j + length ids1) (same_segment ids2 e)"
proof -
  let ?ids = "ids1 @ map (\<lambda>i. i + n1) ids2"
  have r1': "list_all (\<lambda>i. i < n1) ids1"
    using r1 by (simp add: list_all_iff)
  {
    assume e: "e < length ids1"
    then have v: "0 \<le> ids1 ! e" "ids1 ! e < n1" "?ids ! e = ids1 ! e"
      using r1 by (simp_all add: list_all_length nth_append)
    have nn: "0 \<le> ?ids ! e"
      using v by simp
    have "same_segment ?ids e = segment_members ?ids (nat (?ids ! e))"
      using segment_members_nat [OF nn] by simp
    also have "\<dots> = segment_members ids1 (nat (ids1 ! e))"
      using v by (simp add: segment_members_batch [OF r1' r2 n1])
    also have "\<dots> = same_segment ids1 e"
      using v by (simp add: segment_members_nat)
    finally show "same_segment ?ids e = same_segment ids1 e" .
  }
  {
    assume e: "e < length ids2"
    then have v: "0 \<le> ids2 ! e" "?ids ! (e + length ids1) = ids2 ! e + n1"
      using r2 by (simp_all add: list_all_length nth_append)
    have nn: "0 \<le> ?ids ! (e + length ids1)"
      using v n1 by simp
    have "same_segment ?ids (e + length ids1) = segment_members ?ids (nat (ids2 ! e + n1))"
      using segment_members_nat [OF nn] by (simp add: v(2))
    also have "\<dots> = map (\<lambda>j. j + length ids1) (segment_members ids2 (nat (ids2 ! e + n1) - nat n1))"
      using v n1 by (simp add: segment_members_batch [OF r1' r2 n1])
    also have "nat (ids2 ! e + n1) - nat n1 = nat (ids2 ! e)"
      using v n1 by linarith
    also have "segment_members ids2 (nat (ids2 ! e)) = same_segment ids2 e"
      using v by (simp add: segment_members_nat)
    finally show "same_segment ?ids (e + length ids1)
        = map (\<lambda>j. j + length ids1) (same_segment ids2 e)" .
  }
qed

lemma segment_softmax_spec_batch:
  assumes sh1: "shape l1 = length ids1 # inner" and sh2: "shape l2 = length ids2 # inner"
    and r1: "list_all (\<lambda>i. 0 \<le> i \<and> i < n1) ids1" and r2: "list_all (\<lambda>i. 0 \<le> i) ids2"
    and n1: "0 \<le> n1"
  shows "segment_softmax_spec (tf_concat0 l1 l2) (ids1 @ map (\<lambda>i. i + n1) ids2)
       = tf_concat0 (segment_softmax_spec l1 ids1) (segment_softmax_spec l2 ids2)"
proof -
  let ?ids = "ids1 @ map (\<lambda>i. i + n1) ids2"
  let ?L = "tf_concat0 l1 l2"
  note ss = same_segment_batch [OF r1 r2 n1]
  have sh: "shape ?L = (length ids1 + length ids2) # inner"
    by (simp add: sh1 sh2)
  show ?thesis
    unfolding segment_softmax_spec_def [of ?L] sh
  proof (rule concat0_eqI [where ?n1.0 = "length ids1" and ?n2.0 = "length ids2" and inner = inner])
    fix e r assume e: "e < length ids1" and r: "valid_index inner r"
    have ent: "entry ?L (j # r) = entry l1 (j # r)" if "j \<in> set (same_segment ids1 e)" for j
      using same_segment_bound [OF that] r by (simp add: entry_tf_concat0 sh1 sh2)
    have img: "(\<lambda>j. entry ?L (j # r)) ` set (same_segment ids1 e)
        = (\<lambda>j. entry l1 (j # r)) ` set (same_segment ids1 e)"
      using ent by (intro image_cong refl)
    have sm: "(\<Sum>j\<leftarrow>same_segment ids1 e. exp (entry ?L (j # r) - m))
        = (\<Sum>j\<leftarrow>same_segment ids1 e. exp (entry l1 (j # r) - m))" for m
      using ent by (intro arg_cong [where f = sum_list] map_cong refl) simp
    show "(let seg = same_segment ?ids (hd (e # r));
               m = Max ((\<lambda>j. entry ?L (j # tl (e # r))) ` set seg)
           in exp (entry ?L (e # r) - m) / (\<Sum>j\<leftarrow>seg. exp (entry ?L (j # tl (e # r)) - m)))
        = entry (segment_softmax_spec l1 ids1) (e # r)"
      using e r ent [OF same_segment_self [OF e]]
      by (simp add: ss(1) img sm Let_def segment_softmax_spec_def sh1)
  next
    fix e r assume e: "e < length ids2" and r: "valid_index inner r"
    have ent: "entry ?L ((j + length ids1) # r) = entry l2 (j # r)"
      if "j \<in> set (same_segment ids2 e)" for j
      using same_segment_bound [OF that] r by (simp add: entry_tf_concat0 sh1 sh2)
    have img: "(\<lambda>j. entry ?L (j # r)) ` set (map (\<lambda>j. j + length ids1) (same_segment ids2 e))
        = (\<lambda>j. entry l2 (j # r)) ` set (same_segment ids2 e)"
      using ent by (simp add: image_image cong: image_cong)
    have sm: "(\<Sum>j\<leftarrow>same_segment ids2 e. exp (entry ?L ((j + length ids1) # r) - m))
        = (\<Sum>j\<leftarrow>same_segment ids2 e. exp (entry l2 (j # r) - m))" for m
      using ent by (intro arg_cong [where f = sum_list] map_cong refl) simp
    show "(let seg = same_segment ?ids (hd ((e + length ids1) # r));
               m = Max ((\<lambda>j. entry ?L (j # tl ((e + length ids1) # r))) ` set seg)
           in exp (entry ?L ((e + length ids1) # r) - m)
              / (\<Sum>j\<leftarrow>seg. exp (entry ?L (j # tl ((e + length ids1) # r)) - m)))
        = entry (segment_softmax_spec l2 ids2) (e # r)"
      using e r ent [OF same_segment_self [OF e]]
      by (simp add: ss(2) img sm Let_def segment_softmax_spec_def sh2 comp_def del: set_map)
  qed (simp_all add: segment_softmax_spec_def sh1 sh2)
qed

lemma batched_index:
  assumes "list_all (\<lambda>i. 0 \<le> i \<and> i < int N1) xs" "list_all (\<lambda>i. 0 \<le> i \<and> i < int N2) ys"
  shows "e < length xs \<Longrightarrow> nat ((xs @ map (\<lambda>i. i + int N1) ys) ! e) = nat (xs ! e)"
    and "e < length xs \<Longrightarrow> nat (xs ! e) < N1"
    and "e < length ys \<Longrightarrow> nat ((xs @ map (\<lambda>i. i + int N1) ys) ! (e + length xs)) = nat (ys ! e) + N1"
    and "e < length ys \<Longrightarrow> nat (ys ! e) < N2"
    and "list_all (\<lambda>i. 0 \<le> i \<and> i < int (N1 + N2)) (xs @ map (\<lambda>i. i + int N1) ys)"
proof -
  have x: "0 \<le> xs ! e \<and> xs ! e < int N1" if "e < length xs" for e
    using assms(1) that by (simp add: list_all_length)
  have y: "0 \<le> ys ! e \<and> ys ! e < int N2" if "e < length ys" for e
    using assms(2) that by (simp add: list_all_length)
  show "e < length xs \<Longrightarrow> nat ((xs @ map (\<lambda>i. i + int N1) ys) ! e) = nat (xs ! e)"
    by (simp add: nth_append)
  show "e < length xs \<Longrightarrow> nat (xs ! e) < N1"
    using x [of e] by linarith
  show "e < length ys \<Longrightarrow> nat ((xs @ map (\<lambda>i. i + int N1) ys) ! (e + length xs)) = nat (ys ! e) + N1"
    using y [of e] by (simp add: nth_append nat_add_distrib)
  show "e < length ys \<Longrightarrow> nat (ys ! e) < N2"
    using y [of e] by linarith
  show "list_all (\<lambda>i. 0 \<le> i \<and> i < int (N1 + N2)) (xs @ map (\<lambda>i. i + int N1) ys)"
    using assms by (auto simp: list_all_iff)
qed

lemma attention_scores_batch:
  assumes k1: "shape k1 = [N1, H, K]" and k2: "shape k2 = [N2, H, K]"
    and q1: "shape q1 = [N1, H, K]" and q2: "shape q2 = [N2, H, K]"
    and s1: "list_all (\<lambda>i. 0 \<le> i \<and> i < int N1) ss1" and s2: "list_all (\<lambda>i. 0 \<le> i \<and> i < int N2) ss2"
    and r1: "list_all (\<lambda>i. 0 \<le> i \<and> i < int N1) rs1" and r2: "list_all (\<lambda>i. 0 \<le> i \<and> i < int N2) rs2"
    and l1: "length ss1 = length rs1" and l2: "length ss2 = length rs2"
  shows "attention_scores (tf_concat0 k1 k2) (tf_concat0 q1 q2)
           (ss1 @ map (\<lambda>i. i + int N1) ss2) (rs1 @ map (\<lambda>i. i + int N1) rs2)
       = tf_concat0 (attention_scores k1 q1 ss1 rs1) (attention_scores k2 q2 ss2 rs2)"
proof -
  note bs = batched_index [OF s1 s2] and br = batched_index [OF r1 r2]
  show ?thesis
    unfolding attention_scores_def [of "tf_concat0 k1 k2"]
  proof (rule concat0_eqI [where ?n1.0 = "length ss1" and ?n2.0 = "length ss2" and inner = "[H]"])
    fix e r assume e: "e < length ss1" and r: "valid_index [H] r"
    from r obtain h where h: "r = [h]" "h < H" by auto
    have e': "e < length rs1" using e l1 by simp
    have "entry (tf_concat0 k1 k2) [nat ((ss1 @ map (\<lambda>i. i + int N1) ss2) ! e), h, k]
          * entry (tf_concat0 q1 q2) [nat ((rs1 @ map (\<lambda>i. i + int N1) rs2) ! e), h, k]
        = entry k1 [nat (ss1 ! e), h, k] * entry q1 [nat (rs1 ! e), h, k]"
      if "k \<in> set [0..<K]" for k
      using that h bs(1,2) [OF e] br(1,2) [OF e']
      by (simp add: entry_tf_concat0 k1 k2 q1 q2)
    then have "(\<Sum>k\<leftarrow>[0..<K].
            entry (tf_concat0 k1 k2) [nat ((ss1 @ map (\<lambda>i. i + int N1) ss2) ! e), h, k]
            * entry (tf_concat0 q1 q2) [nat ((rs1 @ map (\<lambda>i. i + int N1) rs2) ! e), h, k])
        = (\<Sum>k\<leftarrow>[0..<K]. entry k1 [nat (ss1 ! e), h, k] * entry q1 [nat (rs1 ! e), h, k])"
      by (intro arg_cong [where f = sum_list] map_cong refl)
    then show "(\<Sum>k\<leftarrow>[0..<shape (tf_concat0 k1 k2) ! 2].
             entry (tf_concat0 k1 k2)
               [nat ((ss1 @ map (\<lambda>i. i + int N1) ss2) ! ((e # r) ! 0)), (e # r) ! 1, k]
             * entry (tf_concat0 q1 q2)
               [nat ((rs1 @ map (\<lambda>i. i + int N1) rs2) ! ((e # r) ! 0)), (e # r) ! 1, k])
        = entry (attention_scores k1 q1 ss1 rs1) (e # r)"
      using e h by (simp add: attention_scores_def k1 k2)
  next
    fix e r assume e: "e < length ss2" and r: "valid_index [H] r"
    from r obtain h where h: "r = [h]" "h < H" by auto
    have e': "e < length rs2" using e l2 by simp
    have b: "nat ((rs1 @ map (\<lambda>i. i + int N1) rs2) ! (e + length ss1)) = nat (rs2 ! e) + N1"
      using br(3) [OF e'] l1 by simp
    have "entry (tf_concat0 k1 k2) [nat ((ss1 @ map (\<lambda>i. i + int N1) ss2) ! (e + length ss1)), h, k]
          * entry (tf_concat0 q1 q2) [nat ((rs1 @ map (\<lambda>i. i + int N1) rs2) ! (e + length ss1)), h, k]
        = entry k2 [nat (ss2 ! e), h, k] * entry q2 [nat (rs2 ! e), h, k]"
      if "k \<in> set [0..<K]" for k
      using that h bs(3,4) [OF e] b br(4) [OF e']
      by (simp add: entry_tf_concat0 k1 k2 q1 q2)
    then have "(\<Sum>k\<leftarrow>[0..<K].
            entry (tf_concat0 k1 k2) [nat ((ss1 @ map (\<lambda>i. i + int N1) ss2) ! (e + length ss1)), h, k]
            * entry (tf_concat0 q1 q2) [nat ((rs1 @ map (\<lambda>i. i + int N1) rs2) ! (e + length ss1)), h, k])
        = (\<Sum>k\<leftarrow>[0..<K]. entry k2 [nat (ss2 ! e), h, k] * entry q2 [nat (rs2 ! e), h, k])"
      by (intro arg_cong [where f = sum_list] map_cong refl)
    then show "(\<Sum>k\<leftarrow>[0..<shape (tf_concat0 k1 k2) ! 2].
             entry (tf_concat0 k1 k2)
               [nat ((ss1 @ map (\<lambda>i. i + int N1) ss2) ! (((e + length ss1) # r) ! 0)),
                ((e + length ss1) # r) ! 1, k]
             * entry (tf_concat0 q1 q2)
               [nat ((rs1 @ map (\<lambda>i. i + int N1) rs2) ! (((e + length ss1) # r) ! 0)),
                ((e + length ss1) # r) ! 1, k])
        = entry (attention_scores k2 q2 ss2 rs2) (e # r)"
      using e h by (simp add: attention_scores_def k1 k2)
  qed (simp_all add: attention_scores_def k1 k2)
qed

lemma SelfAttention_spec_batch:
  assumes v1: "shape v1 = [N1, H, V]" and v2: "shape v2 = [N2, H, V]"
    and k1: "shape k1 = [N1, H, K]" and k2: "shape k2 = [N2, H, K]"
    and q1: "shape q1 = [N1, H, K]" and q2: "shape q2 = [N2, H, K]"
    and s1: "list_all (\<lambda>i. 0 \<le> i \<and> i < int N1) ss1" and s2: "list_all (\<lambda>i. 0 \<le> i \<and> i < int N2) ss2"
    and r1: "list_all (\<lambda>i. 0 \<le> i \<and> i < int N1) rs1" and r2: "list_all (\<lambda>i. 0 \<le> i \<and> i < int N2) rs2"
    and l1: "length ss1 = length rs1" and l2: "length ss2 = length rs2"
  shows "SelfAttention_spec (tf_concat0 v1 v2) (tf_concat0 k1 k2) (tf_concat0 q1 q2)
           (ss1 @ map (\<lambda>i. i + int N1) ss2) (rs1 @ map (\<lambda>i. i + int N1) rs2)
       = tf_concat0 (SelfAttention_spec v1 k1 q1 ss1 rs1) (SelfAttention_spec v2 k2 q2 ss2 rs2)"
proof -
  let ?ss = "ss1 @ map (\<lambda>i. i + int N1) ss2" and ?rs = "rs1 @ map (\<lambda>i. i + int N1) rs2"
  let ?V = "tf_concat0 v1 v2"
  define W1 where "W1 = segment_softmax_spec (attention_scores k1 q1 ss1 rs1) rs1"
  define W2 where "W2 = segment_softmax_spec (attention_scores k2 q2 ss2 rs2) rs2"
  note bs = batched_index [OF s1 s2]
  have r1': "list_all (\<lambda>i. i < int N1) rs1" and r2': "list_all (\<lambda>i. 0 \<le> i) rs2"
    using r1 r2 by (simp_all add: list_all_iff)
  have W: "segment_softmax_spec (attention_scores (tf_concat0 k1 k2) (tf_concat0 q1 q2) ?ss ?rs) ?rs
      = tf_concat0 W1 W2"
    unfolding attention_scores_batch [OF k1 k2 q1 q2 s1 s2 r1 r2 l1 l2] W1_def W2_def
    by (rule segment_softmax_spec_batch [OF _ _ r1 r2'])
      (simp_all add: attention_scores_def k1 k2 l1 l2)
  have shW: "shape W1 = [length rs1, H]" "shape W2 = [length rs2, H]"
    by (simp_all add: W1_def W2_def segment_softmax_spec_def attention_scores_def k1 k2 l1 l2)
  have sp1: "SelfAttention_spec v1 k1 q1 ss1 rs1 = mk_tensor [N1, H, V]
      (\<lambda>idx. \<Sum>e\<leftarrow>edges_into rs1 (idx ! 0). entry v1 [nat (ss1 ! e), idx ! 1, idx ! 2] * entry W1 [e, idx ! 1])"
    by (simp add: SelfAttention_spec_def Let_def v1 W1_def)
  have sp2: "SelfAttention_spec v2 k2 q2 ss2 rs2 = mk_tensor [N2, H, V]
      (\<lambda>idx. \<Sum>e\<leftarrow>edges_into rs2 (idx ! 0). entry v2 [nat (ss2 ! e), idx ! 1, idx ! 2] * entry W2 [e, idx ! 1])"
    by (simp add: SelfAttention_spec_def Let_def v2 W2_def)
  have em: "edges_into xs n = segment_members xs n" for xs n
    by (simp add: edges_into_def segment_members_def)
  have "SelfAttention_spec ?V (tf_concat0 k1 k2) (tf_concat0 q1 q2) ?ss ?rs
      = mk_tensor [N1 + N2, H, V]
          (\<lambda>idx. \<Sum>e\<leftarrow>edges_into ?rs (idx ! 0).
             entry ?V [nat (?ss ! e), idx ! 1, idx ! 2] * entry (tf_concat0 W1 W2) [e, idx ! 1])"
    by (simp add: SelfAttention_spec_def Let_def W v1 v2)
  also have "\<dots> = tf_concat0 (SelfAttention_spec v1 k1 q1 ss1 rs1) (SelfAttention_spec v2 k2 q2 ss2 rs2)"
  proof (rule concat0_eqI [where ?n1.0 = N1 and ?n2.0 = N2 and inner = "[H, V]"])
    fix n r assume n: "n < N1" and r: "valid_index [H, V] r"
    from r obtain h d where hd: "r = [h, d]" "h < H" "d < V" by auto
    have seg: "segment_members ?rs n = segment_members rs1 n"
      using n by (simp add: segment_members_batch [OF r1' r2'])
    have "entry ?V [nat (?ss ! e), h, d] * entry (tf_concat0 W1 W2) [e, h]
        = entry v1 [nat (ss1 ! e), h, d] * entry W1 [e, h]"
      if "e \<in> set (segment_members rs1 n)" for e
    proof -
      have e: "e < length ss1" "e < length rs1"
        using segment_members_bound [OF that] l1 by simp_all
      show ?thesis
        using bs(1,2) [OF e(1)] e hd
        by (simp add: entry_tf_concat0 v1 v2 shW)
    qed
    then have "(\<Sum>e\<leftarrow>segment_members rs1 n.
            entry ?V [nat (?ss ! e), h, d] * entry (tf_concat0 W1 W2) [e, h])
        = (\<Sum>e\<leftarrow>segment_members rs1 n. entry v1 [nat (ss1 ! e), h, d] * entry W1 [e, h])"
      by (intro arg_cong [where f = sum_list] map_cong refl)
    then show "(\<Sum>e\<leftarrow>edges_into ?rs ((n # r) ! 0).
            entry ?V [nat (?ss ! e), (n # r) ! 1, (n # r) ! 2]
            * entry (tf_concat0 W1 W2) [e, (n # r) ! 1])
        = entry (SelfAttention_spec v1 k1 q1 ss1 rs1) (n # r)"
      using n hd by (simp add: em seg sp1)
  next
    fix n r assume n: "n < N2" and r: "valid_index [H, V] r"
    from r obtain h d where hd: "r = [h, d]" "h < H" "d < V" by auto
    have seg: "segment_members ?rs (n + N1) = map (\<lambda>i. i + length rs1) (segment_members rs2 n)"
      by (simp add: segment_members_batch [OF r1' r2'])
    have "entry ?V [nat (?ss ! (e + length rs1)), h, d] * entry (tf_concat0 W1 W2) [e + length rs1, h]
        = entry v2 [nat (ss2 ! e), h, d] * entry W2 [e, h]"
      if "e \<in> set (segment_members rs2 n)" for e
    proof -
      have e: "e < length ss2" "e < length rs2"
        using segment_members_bound [OF that] l2 by simp_all
      have "nat (?ss ! (e + length rs1)) = nat (ss2 ! e) + N1"
        using bs(3) [OF e(1)] l1 by simp
      then show ?thesis
        using bs(4) [OF e(1)] e hd
        by (simp add: entry_tf_concat0 v1 v2 shW)
    qed
    then have "(\<Sum>e\<leftarrow>segment_members rs2 n.
            entry ?V [nat (?ss ! (e + length rs1)), h, d] * entry (tf_concat0 W1 W2) [e + length rs1, h])
        = (\<Sum>e\<leftarrow>segment_members rs2 n. entry v2 [nat (ss2 ! e), h, d] * entry W2 [e, h])"
      by (intro arg_cong [where f = sum_list] map_cong refl)
    then show "(\<Sum>e\<leftarrow>edges_into ?rs (((n + N1) # r) ! 0).
            entry ?V [nat (?ss ! e), ((n + N1) # r) ! 1, ((n + N1) # r) ! 2]
            * entry (tf_concat0 W1 W2) [e, ((n + N1) # r) ! 1])
        = entry (SelfAttention_spec v2 k2 q2 ss2 rs2) (n # r)"
      using n hd by (simp add: em seg sp2 comp_def)
  qed (simp_all add: sp1 sp2)
  finally show ?thesis .
qed

lemma SelfAttention_build_batch:
  assumes v1: "shape v1 = [N1, H, V]" and v2: "shape v2 = [N2, H, V]"
    and k1: "shape k1 = [N1, H, K]" and k2: "shape k2 = [N2, H, K]"
    and q1: "shape q1 = [N1, H, K]" and q2: "shape q2 = [N2, H, K]"
    and g1: "valid_graph g1" "senders g1 \<noteq> None" "receivers g1 \<noteq> None"
      "sum_list (n_node g1) = int N1"
    and g2: "valid_graph g2" "senders g2 \<noteq> None" "receivers g2 \<noteq> None"
      "sum_list (n_node g2) = int N2"
  shows "\<exists>s1 s2. SelfAttention_build lowest v1 k1 q1 g1 = Some s1
       \<and> SelfAttention_build lowest v2 k2 q2 g2 = Some s2
       \<and> SelfAttention_build lowest (tf_concat0 v1 v2) (tf_concat0 k1 k2) (tf_concat0 q1 q2)
           (batch_graphs g1 g2) = Some (batch_graphs s1 s2)"
proof -
  from g1 obtain ss1 rs1 where c1: "senders g1 = Some ss1" "receivers g1 = Some rs1"
    by auto
  from g2 obtain ss2 rs2 where c2: "senders g2 = Some ss2" "receivers g2 = Some rs2"
    by auto
  have i1: "length ss1 = length rs1" "list_all (\<lambda>i. 0 \<le> i \<and> i < int N1) ss1"
    "list_all (\<lambda>i. 0 \<le> i \<and> i < int N1) rs1"
    using g1(1,4) c1 by (auto simp: valid_graph_def indices_within_def)
  have i2: "length ss2 = length rs2" "list_all (\<lambda>i. 0 \<le> i \<and> i < int N2) ss2"
    "list_all (\<lambda>i. 0 \<le> i \<and> i < int N2) rs2"
    using g2(1,4) c2 by (auto simp: valid_graph_def indices_within_def)
  let ?ss = "ss1 @ map (\<lambda>i. i + int N1) ss2" and ?rs = "rs1 @ map (\<lambda>i. i + int N1) rs2"
  have a1: "SelfAttention_build lowest v1 k1 q1 g1
      = Some (g1\<lparr>nodes := Some (SelfAttention_spec v1 k1 q1 ss1 rs1)\<rparr>)"
    by (rule SelfAttention_closed_form [OF v1 k1 q1 c1 i1 g1(4)])
  have a2: "SelfAttention_build lowest v2 k2 q2 g2
      = Some (g2\<lparr>nodes := Some (SelfAttention_spec v2 k2 q2 ss2 rs2)\<rparr>)"
    by (rule SelfAttention_closed_form [OF v2 k2 q2 c2 i2 g2(4)])
  have "SelfAttention_build lowest (tf_concat0 v1 v2) (tf_concat0 k1 k2) (tf_concat0 q1 q2)
          (batch_graphs g1 g2)
      = Some ((batch_graphs g1 g2)\<lparr>nodes := Some
          (SelfAttention_spec (tf_concat0 v1 v2) (tf_concat0 k1 k2) (tf_concat0 q1 q2) ?ss ?rs)\<rparr>)"
  proof (rule SelfAttention_closed_form [where N = "N1 + N2" and H = H and V = V and K = K])
    show "list_all (\<lambda>i. 0 \<le> i \<and> i < int (N1 + N2)) ?ss"
      by (rule batched_index(5) [OF i1(2) i2(2)])
    show "list_all (\<lambda>i. 0 \<le> i \<and> i < int (N1 + N2)) ?rs"
      by (rule batched_index(5) [OF i1(3) i2(3)])
  qed (simp_all add: v1 v2 k1 k2 q1 q2 batch_graphs_def batch_indices_def c1 c2 g1(4) g2(4) i1 i2)
  also have "SelfAttention_spec (tf_concat0 v1 v2) (tf_concat0 k1 k2) (tf_concat0 q1 q2) ?ss ?rs
      = tf_concat0 (SelfAttention_spec v1 k1 q1 ss1 rs1) (SelfAttention_spec v2 k2 q2 ss2 rs2)"
    by (rule SelfAttention_spec_batch [OF v1 v2 k1 k2 q1 q2 i1(2) i2(2) i1(3) i2(3) i1(1) i2(1)])
  finally show ?thesis
    by (simp add: a1 a2 batch_graphs_nodes)
qed

lemma GraphNetwork_build_batch:
  assumes v: "valid_graph g1" "valid_graph g2" "compatible g1 g2"
    and ok: "edge_block_row_wise (gn_edge_block net)" "node_block_row_wise (gn_node_block net)"
      "global_block_row_wise (gn_global_block net)"
    and b1: "GraphNetwork_build net g1 = Some o1" and b2: "GraphNetwork_build net g2 = Some o2"
  shows "GraphNetwork_build net (batch_graphs g1 g2) = Some (batch_graphs o1 o2)"
proof -
  from b1 obtain e1 n1 where 1: "EdgeBlock_build (gn_edge_block net) g1 = Some e1"
    "NodeBlock_build (gn_node_block net) e1 = Some n1"
    "GlobalBlock_build (gn_global_block net) n1 = Some o1"
    by (auto simp: GraphNetwork_build_def bind_eq_Some_conv)
  from b2 obtain e2 n2 where 2: "EdgeBlock_build (gn_edge_block net) g2 = Some e2"
    "NodeBlock_build (gn_node_block net) e2 = Some n2"
    "GlobalBlock_build (gn_global_block net) n2 = Some o2"
    by (auto simp: GraphNetwork_build_def bind_eq_Some_conv)
  have rw: "row_wise (edge_model (gn_edge_block net))" "row_wise (node_model (gn_node_block net))"
    "segment_wise (nb_received_edges_reducer (gn_node_block net))"
    "segment_wise (nb_sent_edges_reducer (gn_node_block net))"
    "row_wise (global_model (gn_global_block net))"
    "segment_wise (gb_edges_reducer (gn_global_block net))"
    "segment_wise (gb_nodes_reducer (gn_global_block net))"
    using ok by (simp_all add: edge_block_row_wise_def node_block_row_wise_def
        global_block_row_wise_def)
  note e = EdgeBlock_build_batch [OF v rw(1) 1(1) 2(1)]
  from e have ve: "valid_graph e1" "valid_graph e2" "compatible e1 e2" by simp_all
  note n = NodeBlock_build_batch [OF ve rw(2,3,4) 1(2) 2(2)]
  from n have vn: "valid_graph n1" "valid_graph n2" "compatible n1 n2" by simp_all
  note g = GlobalBlock_build_batch [OF vn rw(5,6,7) 1(3) 2(3)]
  show ?thesis
    using e n g by (simp add: GraphNetwork_build_def)
qed

lemma InteractionNetwork_build_batch:
  assumes v: "valid_graph g1" "valid_graph g2" "compatible g1 g2"
    and ok: "edge_block_row_wise (in_edge_block net)" "node_block_row_wise (in_node_block net)"
    and b1: "InteractionNetwork_build net g1 = Some o1"
    and b2: "InteractionNetwork_build net g2 = Some o2"
  shows "InteractionNetwork_build net (batch_graphs g1 g2) = Some (batch_graphs o1 o2)"
proof -
  from b1 obtain e1 where 1: "EdgeBlock_build (in_edge_block net) g1 = Some e1"
    "NodeBlock_build (in_node_block net) e1 = Some o1"
    by (auto simp: InteractionNetwork_build_def bind_eq_Some_conv)
  from b2 obtain e2 where 2: "EdgeBlock_build (in_edge_block net) g2 = Some e2"
    "NodeBlock_build (in_node_block net) e2 = Some o2"
    by (auto simp: InteractionNetwork_build_def bind_eq_Some_conv)
  have rw: "row_wise (edge_model (in_edge_block net))" "row_wise (node_model (in_node_block net))"
    "segment_wise (nb_received_edges_reducer (in_node_block net))"
    "segment_wise (nb_sent_edges_reducer (in_node_block net))"
    using ok by (simp_all add: edge_block_row_wise_def node_block_row_wise_def)
  note e = EdgeBlock_build_batch [OF v rw(1) 1(1) 2(1)]
  from e have ve: "valid_graph e1" "valid_graph e2" "compatible e1 e2" by simp_all
  note n = NodeBlock_build_batch [OF ve rw(2,3,4) 1(2) 2(2)]
  show ?thesis
    using e n by (simp add: InteractionNetwork_build_def)
qed

lemma RelationNetwork_build_batch:
  assumes v: "valid_graph g1" "valid_graph g2" "compatible g1 g2"
    and ok: "edge_block_row_wise (rn_edge_block net)" "global_block_row_wise (rn_global_block net)"
    and b1: "RelationNetwork_build net g1 = Some o1"
    and b2: "RelationNetwork_build net g2 = Some o2"
  shows "RelationNetwork_build net (batch_graphs g1 g2) = Some (batch_graphs o1 o2)"
proof -
  from b1 obtain e1 x1 where 1: "EdgeBlock_build (rn_edge_block net) g1 = Some e1"
    "GlobalBlock_build (rn_global_block net) e1 = Some x1" "o1 = g1\<lparr>globals := globals x1\<rparr>"
    by (auto simp: RelationNetwork_build_def bind_eq_Some_conv)
  from b2 obtain e2 x2 where 2: "EdgeBlock_build (rn_edge_block net) g2 = Some e2"
    "GlobalBlock_build (rn_global_block net) e2 = Some x2" "o2 = g2\<lparr>globals := globals x2\<rparr>"
    by (auto simp: RelationNetwork_build_def bind_eq_Some_conv)
  have rw: "row_wise (edge_model (rn_edge_block net))"
    "row_wise (global_model (rn_global_block net))"
    "segment_wise (gb_edges_reducer (rn_global_block net))"
    "segment_wise (gb_nodes_reducer (rn_global_block net))"
    using ok by (simp_all add: edge_block_row_wise_def global_block_row_wise_def)
  note e = EdgeBlock_build_batch [OF v rw(1) 1(1) 2(1)]
  from e have ve: "valid_graph e1" "valid_graph e2" "compatible e1 e2" by simp_all
  note g = GlobalBlock_build_batch [OF ve rw(2,3,4) 1(2) 2(2)]
  have "(batch_graphs g1 g2)\<lparr>globals := globals (batch_graphs x1 x2)\<rparr> = batch_graphs o1 o2"
    by (simp add: 1(3) 2(3) batch_graphs_def)
  then show ?thesis
    using e g by (simp add: RelationNetwork_build_def)
qed

lemma DeepSets_build_batch:
  assumes v: "valid_graph g1" "valid_graph g2" "compatible g1 g2"
    and ok: "node_block_row_wise (ds_node_block net)" "global_block_row_wise (ds_global_block net)"
    and b1: "DeepSets_build net g1 = Some o1" and b2: "DeepSets_build net g2 = Some o2"
  shows "DeepSets_build net (batch_graphs g1 g2) = Some (batch_graphs o1 o2)"
proof -
  from b1 obtain n1 where 1: "NodeBlock_build (ds_node_block net) g1 = Some n1"
    "GlobalBlock_build (ds_global_block net) n1 = Some o1"
    by (auto simp: DeepSets_build_def bind_eq_Some_conv)
  from b2 obtain n2 where 2: "NodeBlock_build (ds_node_block net) g2 = Some n2"
    "GlobalBlock_build (ds_global_block net) n2 = Some o2"
    by (auto simp: DeepSets_build_def bind_eq_Some_conv)
  have rw: "row_wise (node_model (ds_node_block net))"
    "segment_wise (nb_received_edges_reducer (ds_node_block net))"
    "segment_wise (nb_sent_edges_reducer (ds_node_block net))"
    "row_wise (global_model (ds_global_block net))"
    "segment_wise (gb_edges_reducer (ds_global_block net))"
    "segment_wise (gb_nodes_reducer (ds_global_block net))"
    using ok by (simp_all add: node_block_row_wise_def global_block_row_wise_def)
  note n = NodeBlock_build_batch [OF v rw(1,2,3) 1(1) 2(1)]
  from n have vn: "valid_graph n1" "valid_graph n2" "compatible n1 n2" by simp_all
  note g = GlobalBlock_build_batch [OF vn rw(4,5,6) 1(2) 2(2)]
  show ?thesis
    using n g by (simp add: DeepSets_build_def)
qed

lemma CommNet_build_batch:
  assumes v: "valid_graph g1" "valid_graph g2" "compatible g1 g2"
    and ok: "edge_block_row_wise (cn_edge_block net)"
      "node_block_row_wise (cn_node_encoder_block net)" "node_block_row_wise (cn_node_block net)"
    and b1: "CommNet_build net g1 = Some o1" and b2: "CommNet_build net g2 = Some o2"
  shows "CommNet_build net (batch_graphs g1 g2) = Some (batch_graphs o1 o2)"
proof -
  from b1 obtain e1 n1 x1 where 1: "EdgeBlock_build (cn_edge_block net) g1 = Some e1"
    "NodeBlock_build (cn_node_encoder_block net) e1 = Some n1"
    "NodeBlock_build (cn_node_block net) n1 = Some x1" "o1 = g1\<lparr>nodes := nodes x1\<rparr>"
    by (auto simp: CommNet_build_def bind_eq_Some_conv)
  from b2 obtain e2 n2 x2 where 2: "EdgeBlock_build (cn_edge_block net) g2 = Some e2"
    "NodeBlock_build (cn_node_encoder_block net) e2 = Some n2"
    "NodeBlock_build (cn_node_block net) n2 = Some x2" "o2 = g2\<lparr>nodes := nodes x2\<rparr>"
    by (auto simp: CommNet_build_def bind_eq_Some_conv)
  have rw: "row_wise (edge_model (cn_edge_block net))"
    "row_wise (node_model (cn_node_encoder_block net))"
    "segment_wise (nb_received_edges_reducer (cn_node_encoder_block net))"
    "segment_wise (nb_sent_edges_reducer (cn_node_encoder_block net))"
    "row_wise (node_model (cn_node_block net))"
    "segment_wise (nb_received_edges_reducer (cn_node_block net))"
    "segment_wise (nb_sent_edges_reducer (cn_node_block net))"
    using ok by (simp_all add: edge_block_row_wise_def node_block_row_wise_def)
  note e = EdgeBlock_build_batch [OF v rw(1) 1(1) 2(1)]
  from e have ve: "valid_graph e1" "valid_graph e2" "compatible e1 e2" by simp_all
  note n = NodeBlock_build_batch [OF ve rw(2,3,4) 1(2) 2(2)]
  from n have vn: "valid_graph n1" "valid_graph n2" "compatible n1 n2" by simp_all
  note x = NodeBlock_build_batch [OF vn rw(5,6,7) 1(3) 2(3)]
  have "(batch_graphs g1 g2)\<lparr>nodes := nodes (batch_graphs x1 x2)\<rparr> = batch_graphs o1 o2"
    by (simp add: 1(4) 2(4) batch_graphs_def)
  then show ?thesis
    using e n x by (simp add: CommNet_build_def)
qed

lemma independent_model_batch:
  assumes ok: "optional_row_wise m" and ra: "rows_are a n1" and rb: "rows_are b n2"
    and sl: "same_layout a b"
    and 1: "independent_model m a = Some a'" and 2: "independent_model m b = Some b'"
  shows "independent_model m (batch_features a b) = Some (batch_features a' b')"
proof (cases m)
  case None
  then show ?thesis using 1 2 by (simp add: independent_model_def)
next
  case (Some f)
  from 1 Some obtain x x' where a: "a = Some x" "f x = Some x'" "a' = Some x'"
    by (auto simp: independent_model_def split: option.splits)
  from 2 Some obtain y y' where b: "b = Some y" "f y = Some y'" "b' = Some y'"
    by (auto simp: independent_model_def split: option.splits)
  have "row_wise f" "2 \<le> length (shape x)" "2 \<le> length (shape y)" "tl (shape x) = tl (shape y)"
    using ok ra rb sl by (simp_all add: optional_row_wise_def Some a b rows_are_def same_layout_def)
  from row_wiseD(1) [OF this a(2) b(2)] show ?thesis
    by (simp add: independent_model_def Some a b batch_features_def)
qed

lemma GraphIndependent_build_batch:
  assumes v: "valid_graph g1" "valid_graph g2" "compatible g1 g2"
    and ok: "optional_row_wise (gi_edge_model net)" "optional_row_wise (gi_node_model net)"
      "optional_row_wise (gi_global_model net)"
    and b1: "GraphIndependent_build net g1 = Some o1"
    and b2: "GraphIndependent_build net g2 = Some o2"
  shows "GraphIndependent_build net (batch_graphs g1 g2) = Some (batch_graphs o1 o2)"
proof -
  from b1 obtain e1 n1 x1 where 1: "independent_model (gi_edge_model net) (edges g1) = Some e1"
    "independent_model (gi_node_model net) (nodes g1) = Some n1"
    "independent_model (gi_global_model net) (globals g1) = Some x1"
    "o1 = g1\<lparr>edges := e1, nodes := n1, globals := x1\<rparr>"
    by (auto simp: GraphIndependent_build_def bind_eq_Some_conv)
  from b2 obtain e2 n2 x2 where 2: "independent_model (gi_edge_model net) (edges g2) = Some e2"
    "independent_model (gi_node_model net) (nodes g2) = Some n2"
    "independent_model (gi_global_model net) (globals g2) = Some x2"
    "o2 = g2\<lparr>edges := e2, nodes := n2, globals := x2\<rparr>"
    by (auto simp: GraphIndependent_build_def bind_eq_Some_conv)
  have r: "rows_are (edges g1) (sum_list (n_edge g1))" "rows_are (edges g2) (sum_list (n_edge g2))"
    "rows_are (nodes g1) (sum_list (n_node g1))" "rows_are (nodes g2) (sum_list (n_node g2))"
    "rows_are (globals g1) (int (length (n_node g1)))"
    "rows_are (globals g2) (int (length (n_node g2)))"
    "same_layout (edges g1) (edges g2)" "same_layout (nodes g1) (nodes g2)"
    "same_layout (globals g1) (globals g2)"
    using v by (simp_all add: valid_graph_def compatible_def)
  note e = independent_model_batch [OF ok(1) r(1,2,7) 1(1) 2(1)]
  note n = independent_model_batch [OF ok(2) r(3,4,8) 1(2) 2(2)]
  note x = independent_model_batch [OF ok(3) r(5,6,9) 1(3) 2(3)]
  show ?thesis
    using e n x by (simp add: GraphIndependent_build_def batch_graphs_def 1(4) 2(4))
qed

lemma SelfAttention_build_needs_indices:
  assumes "SelfAttention_build lowest v k q g = Some s"
  shows "senders g \<noteq> None \<and> receivers g \<noteq> None"
proof -
  from assms obtain a b where "broadcast_sender_nodes_to_edges (g\<lparr>nodes := Some k\<rparr>) = Some a"
    "broadcast_receiver_nodes_to_edges (g\<lparr>nodes := Some q\<rparr>) = Some b"
    by (auto simp: SelfAttention_build_def bind_eq_Some_conv)
  then show ?thesis
    by (auto simp: broadcast_sender_nodes_to_edges_def broadcast_receiver_nodes_to_edges_def
        bind_eq_Some_conv)
qed

lemma valid_example_graph: "valid_graph example_graph"
  by (simp add: valid_graph_def example_graph_def rows_are_def indices_within_def matrix_def)

lemma valid_example_graph2: "valid_graph example_graph2"
  by (simp add: valid_graph_def example_graph2_def rows_are_def indices_within_def matrix_def)

lemma compatible_examples: "compatible example_graph example_graph2"
  by (simp add: compatible_def same_layout_def example_graph_def example_graph2_def matrix_def)

lemma example_builds2:
  "GraphNetwork_build example_GraphNetwork example_graph2 \<noteq> None"
  "InteractionNetwork_build example_InteractionNetwork example_graph2 \<noteq> None"
  "RelationNetwork_build example_RelationNetwork example_graph2 \<noteq> None"
  "DeepSets_build example_DeepSets example_graph2 \<noteq> None"
  "CommNet_build example_CommNet example_graph2 \<noteq> None"
  "GraphIndependent_build example_GraphIndependent example_graph2 \<noteq> None"
  by (simp_all add: GraphNetwork_build_def example_GraphNetwork_def InteractionNetwork_build_def
      example_InteractionNetwork_def RelationNetwork_build_def example_RelationNetwork_def
      DeepSets_build_def example_DeepSets_def CommNet_build_def example_CommNet_def
      GraphIndependent_build_def example_GraphIndependent_def GraphIndependent_init_def
      independent_model_def example_graph2_def block_defs)

lemma example_SelfAttention2:
  "SelfAttention_build lowest example_values2 example_keys2 example_queries2 example_graph2
     = Some (example_graph2\<lparr>nodes := Some (SelfAttention_spec example_values2 example_keys2 example_queries2 [0] [0])\<rparr>)"
  by (rule SelfAttention_closed_form [where N = 1 and H = 1 and V = 1 and K = 1])
    (simp_all add: example_values2_def example_keys2_def example_queries2_def example_graph2_def)

lemma example_blocks_row_wise:
  "edge_block_row_wise example_edge_block" "node_block_row_wise example_node_block"
  "global_block_row_wise example_global_block"
  "edge_block_row_wise (in_edge_block example_InteractionNetwork)"
  "node_block_row_wise (in_node_block example_InteractionNetwork)"
  "edge_block_row_wise (rn_edge_block example_RelationNetwork)"
  "global_block_row_wise (rn_global_block example_RelationNetwork)"
  "node_block_row_wise (ds_node_block example_DeepSets)"
  "global_block_row_wise (ds_global_block example_DeepSets)"
  "edge_block_row_wise (cn_edge_block example_CommNet)"
  "node_block_row_wise (cn_node_encoder_block example_CommNet)"
  "node_block_row_wise (cn_node_block example_CommNet)"
  "optional_row_wise (gi_edge_model example_GraphIndependent)"
  "optional_row_wise (gi_node_model example_GraphIndependent)"
  "optional_row_wise (gi_global_model example_GraphIndependent)"
  by (simp_all add: edge_block_row_wise_def node_block_row_wise_def global_block_row_wise_def
      optional_row_wise_def example_edge_block_def example_node_block_def example_global_block_def
      example_InteractionNetwork_def example_RelationNetwork_def example_DeepSets_def
      example_CommNet_def example_GraphIndependent_def GraphIndependent_init_def
      row_wise_Some segment_wise_sum)

lemma first_row_builds:
  "GraphIndependent_build first_row_GraphIndependent g
     = Some (g\<lparr>nodes := map_option (\<lambda>t. mk_tensor (shape t) (\<lambda>idx. entry t (0 # tl idx))) (nodes g)\<rparr>)"
  if "nodes g \<noteq> None"
  using that
  by (auto simp: GraphIndependent_build_def first_row_GraphIndependent_def
      GraphIndependent_init_def independent_model_def first_row_model_def)




end
